(* ===== verification/Prelude.thy ===== *)
theory Prelude
  imports Main "HOL-Library.State_Monad" "HOL-Library.Word"
begin

text \<open>
  The prelude of the development. A Go function of the service that returns \<open>(T, error)\<close> is
  modelled as a state-monad action whose result is \<open>Inl err\<close> or \<open>Inr value\<close>; the combinators
  below are the three ways in which the Go code treats such a call:
  \<^item> \<open>or_return m k\<close>: \<open>x, err := m; if err != nil { return err }; k(x)\<close>;
  \<^item> \<open>ignoring m k\<close>: \<open>_ = m; k\<close>, the error is dropped;
  \<^item> \<open>guard_err b e k\<close>: \<open>if b { return e }; k\<close>.
  The second half is the small program logic that the component theories share: \<open>keeps I m\<close> says
  that an action keeps an invariant on every branch, \<open>effect R m\<close> bounds what an action
  changes by a reflexive and transitive relation, and \<open>run_ok m s x t\<close> is one successful run.
  The collections \<open>keep_intros\<close> and \<open>run_simps\<close> carry most of the proofs.
\<close>

named_theorems keep_intros "rules that take a program apart when an invariant is shown"
named_theorems run_simps "equations that run one step of a program"

type_synonym duration = int
  \<comment> \<open>\<open>time.Duration\<close>: nanoseconds\<close>
type_synonym time = int
  \<comment> \<open>\<open>time.Time\<close>: nanoseconds since the epoch\<close>
type_synonym uuid = "128 word"
  \<comment> \<open>\<open>uuid.UUID\<close>: 16 bytes\<close>

abbreviation nanos :: int where "nanos \<equiv> 1000000000"

definition second :: duration where "second = nanos"
definition minute :: duration where "minute = 60 * nanos"
definition hour :: duration where "hour = 3600 * nanos"

text \<open>\<open>int(d.Seconds())\<close>: whole seconds, truncated towards zero as Go's conversion does.\<close>

definition whole_seconds :: "duration \<Rightarrow> int" where
  "whole_seconds d = (if 0 \<le> d then d div nanos else - ((- d) div nanos))"

lemma whole_seconds_mono: "d \<le> d' \<Longrightarrow> whole_seconds d \<le> whole_seconds d'"
proof -
  assume le: "d \<le> d'"
  consider "0 \<le> d" | "d < 0" "d' < 0" | "d < 0" "0 \<le> d'" by linarith
  then show ?thesis
  proof cases
    case 1
    with le show ?thesis by (simp add: whole_seconds_def zdiv_mono1)
  next
    case 2
    from le have "- d' \<le> - d" by simp
    then have "(- d') div nanos \<le> (- d) div nanos" by (rule zdiv_mono1) simp
    with 2 show ?thesis by (simp add: whole_seconds_def)
  next
    case 3
    then have "0 \<le> (- d) div nanos" and "0 \<le> d' div nanos"
      by (simp_all add: pos_imp_zdiv_nonneg_iff)
    with 3 show ?thesis by (simp add: whole_seconds_def)
  qed
qed

subsection \<open>Calls that may return an error\<close>

definition or_return ::
    "('s, 'e + 'a) state \<Rightarrow> ('a \<Rightarrow> ('s, 'e + 'b) state) \<Rightarrow> ('s, 'e + 'b) state" where
  "or_return m k = do { r \<leftarrow> m;
     (case r of Inl e \<Rightarrow> State_Monad.return (Inl e) | Inr x \<Rightarrow> k x) }"

definition ignoring :: "('s, 'a) state \<Rightarrow> ('s, 'b) state \<Rightarrow> ('s, 'b) state" where
  "ignoring m k = do { _ \<leftarrow> m; k }"

definition guard_err :: "bool \<Rightarrow> 'e \<Rightarrow> ('s, 'e + 'b) state \<Rightarrow> ('s, 'e + 'b) state" where
  "guard_err b e k = (if b then State_Monad.return (Inl e) else k)"

definition ok :: "'a \<Rightarrow> ('s, 'e + 'a) state" where
  "ok x = State_Monad.return (Inr x)"

definition fail :: "'e \<Rightarrow> ('s, 'e + 'a) state" where
  "fail e = State_Monad.return (Inl e)"

lemma run_or_return [run_simps]:
  "run_state (or_return m k) s =
     (case run_state m s of (Inl e, s') \<Rightarrow> (Inl e, s') | (Inr x, s') \<Rightarrow> run_state (k x) s')"
  by (auto simp: or_return_def split: prod.splits sum.splits)

lemma run_ignoring [run_simps]:
  "run_state (ignoring m k) s = run_state k (snd (run_state m s))"
  by (auto simp: ignoring_def split: prod.splits)

lemma run_guard_err [run_simps]:
  "run_state (guard_err b e k) s = (if b then (Inl e, s) else run_state k s)"
  by (simp add: guard_err_def)

lemma run_ok [run_simps]: "run_state (ok x) s = (Inr x, s)"
  by (simp add: ok_def)

lemma run_fail [run_simps]: "run_state (fail e) s = (Inl e, s)"
  by (simp add: fail_def)

lemma run_or_return_Inr:
  "run_state m s = (Inr x, s') \<Longrightarrow> run_state (or_return m k) s = run_state (k x) s'"
  by (simp add: run_or_return)

lemma run_or_return_Inl:
  "run_state m s = (Inl e, s') \<Longrightarrow> run_state (or_return m k) s = (Inl e, s')"
  by (simp add: run_or_return)

lemma or_return_ok_iff:
  "run_state (or_return m k) s = (Inr y, t) \<longleftrightarrow>
     (\<exists>x s'. run_state m s = (Inr x, s') \<and> run_state (k x) s' = (Inr y, t))"
  by (auto simp: run_or_return split: prod.splits sum.splits)

lemma or_return_okE:
  assumes "run_state (or_return m k) s = (Inr y, t)"
  obtains x s' where "run_state m s = (Inr x, s')" "run_state (k x) s' = (Inr y, t)"
  using assms by (auto simp: or_return_ok_iff)

lemma guard_err_ok_iff:
  "run_state (guard_err b e k) s = (Inr y, t) \<longleftrightarrow> \<not> b \<and> run_state k s = (Inr y, t)"
  by (simp add: run_guard_err)

lemma unit_run:
  fixes m :: "('s, unit) state"
  obtains t where "run_state m s = ((), t)"
  using that by (cases "run_state m s") auto

subsection \<open>Invariants and frames of programs\<close>

definition effect :: "('s \<Rightarrow> 's \<Rightarrow> bool) \<Rightarrow> ('s, 'a) state \<Rightarrow> bool" where
  "effect R m \<longleftrightarrow> (\<forall>s. R s (snd (run_state m s)))"

definition keeps :: "('s \<Rightarrow> bool) \<Rightarrow> ('s, 'a) state \<Rightarrow> bool" where
  "keeps I m \<longleftrightarrow> (\<forall>s. I s \<longrightarrow> I (snd (run_state m s)))"

definition preorder_rel :: "('s \<Rightarrow> 's \<Rightarrow> bool) \<Rightarrow> bool" where
  "preorder_rel R \<longleftrightarrow> (\<forall>s. R s s) \<and> (\<forall>s t u. R s t \<longrightarrow> R t u \<longrightarrow> R s u)"

lemma effectD: "effect R m \<Longrightarrow> run_state m s = (r, t) \<Longrightarrow> R s t"
  unfolding effect_def by (metis snd_conv)

lemma effect_snd: "effect R m \<Longrightarrow> R s (snd (run_state m s))"
  by (simp add: effect_def)

lemma keepsD: "keeps I m \<Longrightarrow> run_state m s = (r, t) \<Longrightarrow> I s \<Longrightarrow> I t"
  unfolding keeps_def by (metis snd_conv)

lemma keeps_effect: "keeps I m \<longleftrightarrow> effect (\<lambda>s t. I s \<longrightarrow> I t) m"
  by (simp add: keeps_def effect_def)

lemma effect_mono: "effect R m \<Longrightarrow> (\<And>s t. R s t \<Longrightarrow> R' s t) \<Longrightarrow> effect R' m"
  by (auto simp: effect_def)

lemma effect_return [keep_intros]:
  "preorder_rel R \<Longrightarrow> effect R (State_Monad.return x)"
  by (simp add: effect_def preorder_rel_def)

lemma effect_bind [keep_intros]:
  assumes "preorder_rel R" "effect R m" "\<And>x. effect R (k x)"
  shows "effect R (State_Monad.bind m k)"
proof -
  have "R s (snd (run_state (State_Monad.bind m k) s))" for s
  proof -
    obtain x s' where r: "run_state m s = (x, s')" by fastforce
    with assms(2) have "R s s'" by (rule effectD)
    moreover have "R s' (snd (run_state (k x) s'))" by (rule effect_snd [OF assms(3)])
    ultimately have "R s (snd (run_state (k x) s'))"
      using assms(1) unfolding preorder_rel_def by blast
    with r show ?thesis by simp
  qed
  then show ?thesis by (simp add: effect_def)
qed

lemma effect_or_return [keep_intros]:
  assumes "preorder_rel R" "effect R m" "\<And>x. effect R (k x)"
  shows "effect R (or_return m k)"
  unfolding or_return_def
  by (intro effect_bind assms) (auto intro: effect_return assms split: sum.splits)

lemma effect_ignoring [keep_intros]:
  "preorder_rel R \<Longrightarrow> effect R m \<Longrightarrow> effect R k \<Longrightarrow> effect R (ignoring m k)"
  unfolding ignoring_def by (intro effect_bind)

lemma effect_guard_err [keep_intros]:
  "preorder_rel R \<Longrightarrow> effect R k \<Longrightarrow> effect R (guard_err b e k)"
  by (simp add: guard_err_def effect_return)

lemma effect_ok [keep_intros]: "preorder_rel R \<Longrightarrow> effect R (ok x)"
  by (simp add: ok_def effect_return)

lemma effect_fail [keep_intros]: "preorder_rel R \<Longrightarrow> effect R (fail e)"
  by (simp add: fail_def effect_return)

lemma effect_if [keep_intros]:
  "effect R m \<Longrightarrow> effect R n \<Longrightarrow> effect R (if b then m else n)"
  by simp

lemma effect_sum [keep_intros]:
  "(\<And>e. effect R (f e)) \<Longrightarrow> (\<And>x. effect R (g x)) \<Longrightarrow>
   effect R (case r of Inl e \<Rightarrow> f e | Inr x \<Rightarrow> g x)"
  by (simp split: sum.splits)

lemma effect_option [keep_intros]:
  "effect R f \<Longrightarrow> (\<And>x. effect R (g x)) \<Longrightarrow>
   effect R (case r of None \<Rightarrow> f | Some x \<Rightarrow> g x)"
  by (simp split: option.splits)

lemma effect_prod [keep_intros]:
  "(\<And>x y. effect R (f x y)) \<Longrightarrow> effect R (case p of (x, y) \<Rightarrow> f x y)"
  by (simp split: prod.splits)

lemma effect_Let [keep_intros]:
  "(\<And>x. effect R (f x)) \<Longrightarrow> effect R (let x = v in f x)"
  by (simp add: Let_def)

lemma preorder_eq_on [simp, intro]: "preorder_rel (\<lambda>s t. f s = f t)"
  by (simp add: preorder_rel_def)

lemma preorder_imp [simp, intro]: "preorder_rel (\<lambda>s t. I s \<longrightarrow> I t)"
  by (simp add: preorder_rel_def)

lemma preorder_le_on [simp, intro]:
  "preorder_rel (\<lambda>s t. (f s :: 'b::preorder) \<le> f t)"
  by (auto simp: preorder_rel_def intro: order_trans)

lemma preorder_conj [intro]:
  "preorder_rel R \<Longrightarrow> preorder_rel S \<Longrightarrow> preorder_rel (\<lambda>s t. R s t \<and> S s t)"
  unfolding preorder_rel_def by blast

subsection \<open>Lists\<close>

lemma filter_map_id:
  "(\<And>x. x \<in> set xs \<Longrightarrow> P (f x) = P x) \<Longrightarrow>
   (\<And>x. x \<in> set xs \<Longrightarrow> P x \<Longrightarrow> f x = x) \<Longrightarrow> filter P (map f xs) = filter P xs"
  by (induction xs) auto

lemma find_cong_map:
  "find P (map f xs) = map_option f (find (\<lambda>x. P (f x)) xs)"
  by (induction xs) auto

lemma find_SomeD: "find P xs = Some x \<Longrightarrow> x \<in> set xs \<and> P x"
  by (induction xs) (auto split: if_splits)

lemma find_None_iff': "find P xs = None \<longleftrightarrow> (\<forall>x \<in> set xs. \<not> P x)"
  by (induction xs) auto

lemma find_append:
  "find P (xs @ ys) = (case find P xs of None \<Rightarrow> find P ys | Some x \<Rightarrow> Some x)"
  by (induction xs) auto

text \<open>At most one element of a list, and it is there: \<open>find\<close> is that element.\<close>

lemma find_unique:
  assumes "x \<in> set xs" "P x" "\<And>y. y \<in> set xs \<Longrightarrow> P y \<Longrightarrow> y = x"
  shows "find P xs = Some x"
proof -
  from assms(1,2) have "find P xs \<noteq> None" by (auto simp: find_None_iff')
  then obtain y where y: "find P xs = Some y" by blast
  then have "y \<in> set xs \<and> P y" by (rule find_SomeD)
  with assms(3) have "y = x" by blast
  with y show ?thesis by simp
qed

lemma distinct_map_inj:
  "distinct (map f xs) \<Longrightarrow> x \<in> set xs \<Longrightarrow> y \<in> set xs \<Longrightarrow> f x = f y \<Longrightarrow> x = y"
  by (simp add: distinct_map inj_on_def)

end
