(* ===== verification/GoStrings.thy ===== *)
theory GoStrings
  imports Prelude
begin

text \<open>
  Go strings and the parts of the standard library the service uses on them. A Go \<open>string\<close>
  is a sequence of bytes; here it is HOL's \<open>string\<close>, a \<open>char\<close> being one byte. A
  \<open>range\<close> loop and the \<open>strings\<close> and \<open>unicode\<close> functions work on runes, so
  the UTF-8 decoder of \<open>unicode/utf8\<close> is written out (\<open>decode_rune\<close>, with the
  replacement of an invalid byte by U+FFFD), and \<open>runes s\<close> is what a \<open>range\<close> loop
  over \<open>s\<close> visits. The Unicode tables (\<open>unicode.IsPrint\<close>, \<open>IsLetter\<close>,
  \<open>IsDigit\<close>, \<open>ToLower\<close>) are generated data: they are the fields of a record
  \<open>unicode\<close> that the functions take as an argument, and the locale \<open>unicode_tables\<close>
  holds what they say about ASCII.
\<close>

abbreviation byte :: "char \<Rightarrow> nat" where "byte c \<equiv> of_char c"

subsection \<open>UTF-8\<close>

definition rune_error :: nat where "rune_error = 65533"

definition in_rng :: "nat \<Rightarrow> nat \<Rightarrow> char \<Rightarrow> bool" where
  "in_rng lo hi c \<longleftrightarrow> lo \<le> byte c \<and> byte c \<le> hi"

text \<open>
  \<open>utf8.DecodeRuneInString\<close>: the first rune and its width in bytes, by the lead byte. The
  second byte of a three- or four-byte sequence has a narrower range after the lead bytes E0, ED,
  F0 and F4 (no overlong forms, no surrogates, nothing above U+10FFFF).
\<close>

definition decode2 :: "char \<Rightarrow> string \<Rightarrow> nat \<times> nat" where
  "decode2 c cs = (case cs of
     c1 # _ \<Rightarrow>
       if in_rng 128 191 c1 then ((byte c - 192) * 64 + (byte c1 - 128), 2) else (rune_error, 1)
   | _ \<Rightarrow> (rune_error, 1))"

definition decode3 :: "char \<Rightarrow> string \<Rightarrow> nat \<times> nat" where
  "decode3 c cs = (case cs of
     c1 # c2 # _ \<Rightarrow>
       if in_rng (if byte c = 224 then 160 else 128) (if byte c = 237 then 159 else 191) c1
          \<and> in_rng 128 191 c2
       then ((byte c - 224) * 4096 + (byte c1 - 128) * 64 + (byte c2 - 128), 3)
       else (rune_error, 1)
   | _ \<Rightarrow> (rune_error, 1))"

definition decode4 :: "char \<Rightarrow> string \<Rightarrow> nat \<times> nat" where
  "decode4 c cs = (case cs of
     c1 # c2 # c3 # _ \<Rightarrow>
       if in_rng (if byte c = 240 then 144 else 128) (if byte c = 244 then 143 else 191) c1
          \<and> in_rng 128 191 c2 \<and> in_rng 128 191 c3
       then ((byte c - 240) * 262144 + (byte c1 - 128) * 4096
             + (byte c2 - 128) * 64 + (byte c3 - 128), 4)
       else (rune_error, 1)
   | _ \<Rightarrow> (rune_error, 1))"

fun decode_rune :: "string \<Rightarrow> nat \<times> nat" where
  "decode_rune [] = (rune_error, 0)"
| "decode_rune (c # cs) =
    (if byte c < 128 then (byte c, 1)
     else if byte c < 194 \<or> 244 < byte c then (rune_error, 1)
     else if byte c < 224 then decode2 c cs
     else if byte c < 240 then decode3 c cs
     else decode4 c cs)"

definition valid_rune :: "nat \<Rightarrow> bool" where
  "valid_rune r \<longleftrightarrow> r < 55296 \<or> (57343 < r \<and> r < 1114112)"

text \<open>\<open>utf8.AppendRune\<close>: a rune that is no Unicode scalar value is written as U+FFFD.\<close>

definition encode_rune :: "nat \<Rightarrow> string" where
  "encode_rune r =
    (if \<not> valid_rune r then [char_of (239::nat), char_of (191::nat), char_of (189::nat)]
     else if r < 128 then [char_of r]
     else if r < 2048 then [char_of (192 + r div 64), char_of (128 + r mod 64)]
     else if r < 65536 then
       [char_of (224 + r div 4096), char_of (128 + (r div 64) mod 64), char_of (128 + r mod 64)]
     else [char_of (240 + r div 262144), char_of (128 + (r div 4096) mod 64),
           char_of (128 + (r div 64) mod 64), char_of (128 + r mod 64)])"

declare decode_rune.simps(2) [simp del]

lemma decode_rune_ascii [simp]: "byte c < 128 \<Longrightarrow> decode_rune (c # cs) = (byte c, 1)"
  by (simp add: decode_rune.simps(2))

text \<open>
  What the three multi-byte decoders have in common: a scalar value of at least 128, a width
  within the string, and only bytes of at least 128 read after the lead byte.
\<close>

definition good_decode :: "string \<Rightarrow> nat \<times> nat \<Rightarrow> bool" where
  "good_decode cs p \<longleftrightarrow> 128 \<le> fst p \<and> valid_rune (fst p) \<and> 1 \<le> snd p \<and>
     snd p \<le> 4 \<and> snd p \<le> Suc (length cs) \<and> (\<forall>x \<in> set (take (snd p - 1) cs). 128 \<le> byte x)"

lemma good_error: "good_decode cs (rune_error, 1)"
  by (simp add: good_decode_def rune_error_def valid_rune_def)

lemma good_decode2:
  assumes "194 \<le> byte c" "byte c < 224"
  shows "good_decode cs (decode2 c cs)"
proof (cases cs)
  case Nil
  then show ?thesis using good_error [of "[]"] by (simp add: decode2_def)
next
  case (Cons c1 cs')
  show ?thesis
  proof (cases "in_rng 128 191 c1")
    case True
    then have "128 \<le> byte c1" "byte c1 \<le> 191" by (simp_all add: in_rng_def)
    then have "128 \<le> (byte c - 192) * 64 + (byte c1 - 128)"
      "(byte c - 192) * 64 + (byte c1 - 128) < 55296" using assms by linarith+
    with Cons True \<open>128 \<le> byte c1\<close> show ?thesis
      by (simp add: decode2_def good_decode_def valid_rune_def)
  next
    case False
    with Cons show ?thesis using good_error by (simp add: decode2_def)
  qed
qed

lemma decode3_error:
  "(\<And>c1 c2 cs'. cs \<noteq> c1 # c2 # cs') \<Longrightarrow> decode3 c cs = (rune_error, 1)"
  by (auto simp: decode3_def split: list.splits)

lemma good_decode3:
  assumes "224 \<le> byte c" "byte c < 240"
  shows "good_decode cs (decode3 c cs)"
proof (cases "\<exists>c1 c2 cs'. cs = c1 # c2 # cs'")
  case True
  then obtain c1 c2 cs' where cs: "cs = c1 # c2 # cs'" by blast
  let ?lo = "if byte c = 224 then 160 else 128" and ?hi = "if byte c = 237 then 159 else 191"
  show ?thesis
  proof (cases "in_rng ?lo ?hi c1 \<and> in_rng 128 191 c2")
    case True
    let ?r = "(byte c - 224) * 4096 + (byte c1 - 128) * 64 + (byte c2 - 128)"
    from True have b: "?lo \<le> byte c1" "byte c1 \<le> ?hi" "128 \<le> byte c2" "byte c2 \<le> 191"
      by (simp_all only: in_rng_def)
    have l: "128 \<le> byte c1" using b(1) by (simp split: if_splits)
    have "?r < 55296 \<or> (57343 < ?r \<and> ?r < 1114112)"
    proof (cases "byte c < 237")
      case True
      then have "byte c \<le> 236" by simp
      moreover have "byte c1 \<le> 191" using b(2) by (simp split: if_splits)
      ultimately have "?r < 55296" using b(4) assms by linarith
      then show ?thesis ..
    next
      case False
      show ?thesis
      proof (cases "byte c = 237")
        case True
        then have "byte c1 \<le> 159" using b(2) by simp
        with True b(4) have "?r < 55296" by simp
        then show ?thesis ..
      next
        case False
        with \<open>\<not> byte c < 237\<close> have "238 \<le> byte c" by simp
        moreover have "byte c1 \<le> 191" using b(2) by (simp split: if_splits)
        ultimately have "57343 < ?r \<and> ?r < 1114112" using b(4) assms by linarith
        then show ?thesis ..
      qed
    qed
    moreover have "128 \<le> ?r"
    proof (cases "byte c = 224")
      case True
      then show ?thesis using b(1) by simp
    next
      case False
      with assms have "225 \<le> byte c" by simp
      then show ?thesis by simp
    qed
    ultimately show ?thesis using cs True l b(3)
      by (simp add: decode3_def good_decode_def valid_rune_def)
  next
    case False
    then have "decode3 c cs = (rune_error, 1)"
      by (simp only: cs decode3_def list.case if_False)
    then show ?thesis using good_error by simp
  qed
next
  case False
  then have "decode3 c cs = (rune_error, 1)" by (intro decode3_error) blast
  then show ?thesis using good_error by simp
qed

lemma decode4_error:
  "(\<And>c1 c2 c3 cs'. cs \<noteq> c1 # c2 # c3 # cs') \<Longrightarrow> decode4 c cs = (rune_error, 1)"
  by (auto simp: decode4_def split: list.splits)

lemma good_decode4:
  assumes "240 \<le> byte c" "byte c \<le> 244"
  shows "good_decode cs (decode4 c cs)"
proof (cases "\<exists>c1 c2 c3 cs'. cs = c1 # c2 # c3 # cs'")
  case True
  then obtain c1 c2 c3 cs' where cs: "cs = c1 # c2 # c3 # cs'" by blast
  let ?lo = "if byte c = 240 then 144 else 128" and ?hi = "if byte c = 244 then 143 else 191"
  show ?thesis
  proof (cases "in_rng ?lo ?hi c1 \<and> in_rng 128 191 c2 \<and> in_rng 128 191 c3")
    case True
    let ?r = "(byte c - 240) * 262144 + (byte c1 - 128) * 4096
      + (byte c2 - 128) * 64 + (byte c3 - 128)"
    from True have b: "?lo \<le> byte c1" "byte c1 \<le> ?hi" "128 \<le> byte c2" "byte c2 \<le> 191"
      "128 \<le> byte c3" "byte c3 \<le> 191"
      by (simp_all only: in_rng_def)
    have l: "128 \<le> byte c1" using b(1) by (simp split: if_splits)
    have "57343 < ?r"
    proof (cases "byte c = 240")
      case True
      then have "144 \<le> byte c1" using b(1) by simp
      then show ?thesis by simp
    next
      case False
      with assms have "241 \<le> byte c" by simp
      then show ?thesis by simp
    qed
    moreover have "?r < 1114112"
    proof (cases "byte c = 244")
      case True
      then have "byte c1 \<le> 143" using b(2) by simp
      with True b(4,6) show ?thesis by simp
    next
      case False
      with assms have "byte c \<le> 243" by simp
      moreover have "byte c1 \<le> 191" using b(2) by (simp split: if_splits)
      ultimately show ?thesis using b(4,6) by linarith
    qed
    ultimately show ?thesis using cs True l b(3,5)
      by (simp add: decode4_def good_decode_def valid_rune_def)
  next
    case False
    then have "decode4 c cs = (rune_error, 1)"
      by (simp only: cs decode4_def list.case if_False)
    then show ?thesis using good_error by simp
  qed
next
  case False
  then have "decode4 c cs = (rune_error, 1)" by (intro decode4_error) blast
  then show ?thesis using good_error by simp
qed

lemma good_decode_rune: "128 \<le> byte c \<Longrightarrow> good_decode cs (decode_rune (c # cs))"
  using good_decode2 [of c cs] good_decode3 [of c cs] good_decode4 [of c cs] good_error [of cs]
  by (simp add: decode_rune.simps(2))

lemma decode_rune_width:
  "1 \<le> snd (decode_rune (c # cs))" "snd (decode_rune (c # cs)) \<le> Suc (length cs)"
  using good_decode_rune [of c cs] by (cases "byte c < 128"; simp add: good_decode_def)+

lemma width_bounds: "s \<noteq> [] \<Longrightarrow> 1 \<le> snd (decode_rune s) \<and> snd (decode_rune s) \<le> length s"
  using decode_rune_width by (cases s) simp_all

lemma width_le_4: "snd (decode_rune (c # cs)) \<le> 4"
  using good_decode_rune [of c cs] by (cases "byte c < 128") (simp_all add: good_decode_def)

lemma decode_rune_high:
  assumes "128 \<le> byte c"
  shows "128 \<le> fst (decode_rune (c # cs)) \<and>
    (\<forall>x \<in> set (take (snd (decode_rune (c # cs)) - 1) cs). 128 \<le> byte x)"
  using good_decode_rune [OF assms] by (simp add: good_decode_def)

text \<open>Whatever is decoded is a scalar value.\<close>

lemma decode_rune_valid: "valid_rune (fst (decode_rune s))"
proof (cases s)
  case Nil
  then show ?thesis by (simp add: valid_rune_def rune_error_def)
next
  case (Cons c cs)
  then show ?thesis using good_decode_rune [of c cs]
    by (cases "byte c < 128") (simp_all add: good_decode_def valid_rune_def)
qed

text \<open>\<open>segments s\<close>: the runes of \<open>s\<close> with the bytes each was read from.\<close>

function segments :: "string \<Rightarrow> (nat \<times> string) list" where
  "segments [] = []"
| "segments (c # cs) =
    (fst (decode_rune (c # cs)), take (snd (decode_rune (c # cs))) (c # cs)) #
    segments (drop (snd (decode_rune (c # cs)) - 1) cs)"
  by pat_completeness auto
termination
  by (relation "measure length") auto

definition runes :: "string \<Rightarrow> nat list" where
  "runes s = map fst (segments s)"

lemma runes_Nil [simp]: "runes [] = []"
  by (simp add: runes_def)

lemma runes_Cons:
  "runes (c # cs) = fst (decode_rune (c # cs)) # runes (drop (snd (decode_rune (c # cs)) - 1) cs)"
  by (simp add: runes_def)

lemma runes_ascii_Cons [simp]: "byte c < 128 \<Longrightarrow> runes (c # cs) = byte c # runes cs"
  by (simp add: runes_Cons)

lemma runes_ascii: "\<forall>c \<in> set s. byte c < 128 \<Longrightarrow> runes s = map byte s"
  by (induction s) auto

lemma drop_width:
  "drop (snd (decode_rune (c # cs)) - 1) cs = drop (snd (decode_rune (c # cs))) (c # cs)"
  using decode_rune_width(1) [of c cs] by (simp add: drop_Cons')

lemma segments_concat: "concat (map snd (segments s)) = s"
proof (induction s rule: segments.induct)
  case (2 c cs)
  let ?w = "snd (decode_rune (c # cs))"
  have "concat (map snd (segments (c # cs))) = take ?w (c # cs) @ drop (?w - 1) cs"
    by (simp only: segments.simps list.map concat.simps snd_conv 2)
  also have "\<dots> = c # cs" by (simp only: drop_width append_take_drop_id)
  finally show ?case .
qed simp

lemma length_runes_le: "length (runes s) \<le> length s"
proof (induction s rule: segments.induct)
  case (2 c cs)
  have "length (runes (drop (snd (decode_rune (c # cs)) - 1) cs))
      \<le> length (drop (snd (decode_rune (c # cs)) - 1) cs)" by (rule 2)
  also have "\<dots> \<le> length cs" by simp
  finally show ?case by (simp add: runes_Cons)
qed simp

text \<open>
  A string is valid UTF-8 when no byte was replaced. \<open>U+FFFD\<close> itself is three bytes wide, so
  the width tells it from a replacement.
\<close>

definition valid_utf8 :: "string \<Rightarrow> bool" where
  "valid_utf8 s \<longleftrightarrow> (\<forall>(r, b) \<in> set (segments s). \<not> (r = rune_error \<and> length b = 1))"

lemma valid_utf8_ascii: "\<forall>c \<in> set s. byte c < 128 \<Longrightarrow> valid_utf8 s"
  unfolding valid_utf8_def by (induction s) (auto simp: rune_error_def)

subsection \<open>The decoder inverts the encoder\<close>

lemma byte_char_of: "n < 256 \<Longrightarrow> byte (char_of n) = n"
  by simp

lemma decode_two:
  assumes "2 \<le> a" "a < 32" "b < 64"
  shows "decode_rune (char_of (192 + a) # char_of (128 + b) # s) = (a * 64 + b, 2)"
proof -
  have "byte (char_of (192 + a)) = 192 + a" "byte (char_of (128 + b)) = 128 + b"
    using assms by simp_all
  with assms show ?thesis by (simp add: in_rng_def decode_rune.simps(2) decode2_def decode3_def decode4_def del: of_char_of)
qed

lemma decode_three:
  assumes "a < 16" "b < 64" "c < 64" "a = 0 \<Longrightarrow> 32 \<le> b" "a = 13 \<Longrightarrow> b \<le> 31"
  shows "decode_rune (char_of (224 + a) # char_of (128 + b) # char_of (128 + c) # s)
       = (a * 4096 + b * 64 + c, 3)"
proof -
  have "byte (char_of (224 + a)) = 224 + a" "byte (char_of (128 + b)) = 128 + b"
    "byte (char_of (128 + c)) = 128 + c"
    using assms by simp_all
  with assms show ?thesis by (simp add: in_rng_def decode_rune.simps(2) decode2_def decode3_def decode4_def del: of_char_of)
qed

lemma decode_four:
  assumes "a < 5" "b < 64" "c < 64" "d < 64" "a = 0 \<Longrightarrow> 16 \<le> b" "a = 4 \<Longrightarrow> b \<le> 15"
  shows "decode_rune (char_of (240 + a) # char_of (128 + b) # char_of (128 + c)
           # char_of (128 + d) # s)
       = (a * 262144 + b * 4096 + c * 64 + d, 4)"
proof -
  have "byte (char_of (240 + a)) = 240 + a" "byte (char_of (128 + b)) = 128 + b"
    "byte (char_of (128 + c)) = 128 + c" "byte (char_of (128 + d)) = 128 + d"
    using assms by simp_all
  with assms show ?thesis by (simp add: in_rng_def decode_rune.simps(2) decode2_def decode3_def decode4_def del: of_char_of)
qed

lemmas encode_branch = encode_rune_def if_True if_False not_True_eq_False

lemma decode_encode_rune:
  assumes v: "valid_rune r"
  shows "decode_rune (encode_rune r @ s) = (r, length (encode_rune r))"
proof -
  from v have v': "valid_rune r = True" by simp
  have c0: "r div 64 * 64 + r mod 64 = r" "r mod 64 < 64" by simp_all
  have "r div 4096 = r div 64 div 64" by (simp add: div_mult2_eq [symmetric])
  then have c1: "r div 4096 * 64 + r div 64 mod 64 = r div 64" "r div 64 mod 64 < 64" by simp_all
  have "r div 262144 = r div 4096 div 64" by (simp add: div_mult2_eq [symmetric])
  then have c2: "r div 262144 * 64 + r div 4096 mod 64 = r div 4096" "r div 4096 mod 64 < 64"
    by simp_all
  consider (one) "(r < 128) = True" | (two) "(r < 128) = False" "(r < 2048) = True"
    | (three) "(r < 128) = False" "(r < 2048) = False" "(r < 65536) = True"
    | (four) "(r < 128) = False" "(r < 2048) = False" "(r < 65536) = False" "r < 1114112"
    using v unfolding valid_rune_def eq_True eq_False by linarith
  then show ?thesis
  proof cases
    case one
    then have b: "byte (char_of r) = r" by (intro byte_char_of) simp
    have e: "encode_rune r = [char_of r]" by (simp only: encode_branch v' one)
    have "decode_rune (char_of r # s) = (r, 1)"
      using decode_rune_ascii [of "char_of r" s] one unfolding b by simp
    then show ?thesis by (simp add: e)
  next
    case two
    note r = two [unfolded eq_True eq_False not_less]
    have d: "2 \<le> r div 64" "r div 64 < 32" "r mod 64 < 64"
      using r c0 by linarith+
    have e: "encode_rune r = [char_of (192 + r div 64), char_of (128 + r mod 64)]"
      by (simp only: encode_branch v' two)
    from decode_two [OF d] c0 show ?thesis by (simp only: e append.simps list.size) simp
  next
    case three
    note r = three [unfolded eq_True eq_False not_less]
    have d: "r div 4096 < 16" using r c0 c1 by linarith
    have z: "r div 4096 = 0 \<Longrightarrow> 32 \<le> r div 64 mod 64" using r c0 c1 by linarith
    have k: "r div 4096 = 13 \<Longrightarrow> r div 64 mod 64 \<le> 31"
      using v c0 c1 unfolding valid_rune_def by linarith
    have e: "encode_rune r =
        [char_of (224 + r div 4096), char_of (128 + r div 64 mod 64), char_of (128 + r mod 64)]"
      by (simp only: encode_branch v' three)
    have "r div 4096 * 4096 + r div 64 mod 64 * 64 + r mod 64 = r" using c0 c1 by linarith
    with decode_three [OF d c1(2) c0(2) z k] show ?thesis
      by (simp only: e append.simps list.size) simp
  next
    case four
    note r = four [unfolded eq_True eq_False not_less]
    have d: "r div 262144 < 5" using r c0 c1 c2 by linarith
    have z: "r div 262144 = 0 \<Longrightarrow> 16 \<le> r div 4096 mod 64" using r c0 c1 c2 by linarith
    have k: "r div 262144 = 4 \<Longrightarrow> r div 4096 mod 64 \<le> 15" using r c0 c1 c2 by linarith
    have e: "encode_rune r = [char_of (240 + r div 262144), char_of (128 + r div 4096 mod 64),
        char_of (128 + r div 64 mod 64), char_of (128 + r mod 64)]"
      by (simp only: encode_branch v' four)
    have "r div 262144 * 262144 + r div 4096 mod 64 * 4096 + r div 64 mod 64 * 64 + r mod 64 = r"
      using c0 c1 c2 by linarith
    with decode_four [OF d c2(2) c1(2) c0(2) z k] show ?thesis
      by (simp only: e append.simps list.size) simp
  qed
qed

lemma encode_rune_Cons: "\<exists>c cs. encode_rune r = c # cs"
  by (simp add: encode_rune_def)

lemma segments_encode_append:
  assumes "valid_rune r"
  shows "segments (encode_rune r @ s) = (r, encode_rune r) # segments s"
proof -
  obtain c cs where e: "encode_rune r = c # cs" using encode_rune_Cons by blast
  have d: "decode_rune (c # cs @ s) = (r, Suc (length cs))"
    using decode_encode_rune [OF assms, of s] e by simp
  show ?thesis by (simp add: e d)
qed

lemma runes_encode_append: "valid_rune r \<Longrightarrow> runes (encode_rune r @ s) = r # runes s"
  by (simp add: runes_def segments_encode_append)

lemma runes_encode:
  "\<forall>r \<in> set rs. valid_rune r \<Longrightarrow> runes (concat (map encode_rune rs)) = rs"
  by (induction rs) (auto simp: runes_encode_append)

lemma encode_rune_length: "rune_error = r \<Longrightarrow> length (encode_rune r) = 3"
  by (auto simp: encode_rune_def rune_error_def valid_rune_def)

lemma valid_utf8_encode:
  "\<forall>r \<in> set rs. valid_rune r \<Longrightarrow> valid_utf8 (concat (map encode_rune rs))"
proof (induction rs)
  case (Cons r rs)
  then show ?case
    using encode_rune_length [of r] by (auto simp: valid_utf8_def segments_encode_append)
qed (simp add: valid_utf8_def)

lemma runes_valid: "r \<in> set (runes s) \<Longrightarrow> valid_rune r"
proof (induction s rule: segments.induct)
  case (2 c cs)
  then show ?case using decode_rune_valid [of "c # cs"] by (auto simp: runes_Cons)
qed simp

subsection \<open>ASCII runes are exactly the ASCII bytes\<close>

lemma set_runes_ascii: "{r \<in> set (runes s). r < 128} = {b \<in> byte ` set s. b < 128}"
proof (induction s rule: segments.induct)
  case (2 c cs)
  let ?w = "snd (decode_rune (c # cs)) - 1"
  show ?case
  proof (cases "byte c < 128")
    case True
    with 2 show ?thesis by auto
  next
    case False
    then have h: "128 \<le> fst (decode_rune (c # cs))" "\<forall>x \<in> set (take ?w cs). 128 \<le> byte x"
      using decode_rune_high [of c cs] by auto
    have "{b \<in> byte ` set cs. b < 128} = {b \<in> byte ` (set (take ?w cs) \<union> set (drop ?w cs)). b < 128}"
      by (metis append_take_drop_id set_append)
    also have "\<dots> = {b \<in> byte ` set (drop ?w cs). b < 128}"
      using h(2) by (auto simp: image_Un)
    finally have "{b \<in> byte ` set cs. b < 128} = {r \<in> set (runes (drop ?w cs)). r < 128}"
      using 2 by simp
    moreover have "{r \<in> set (runes (c # cs)). r < 128} = {r \<in> set (runes (drop ?w cs)). r < 128}"
      using h(1) by (auto simp: runes_Cons)
    moreover have "{b \<in> byte ` set (c # cs). b < 128} = {b \<in> byte ` set cs. b < 128}"
      using False by auto
    ultimately show ?thesis by simp
  qed
qed simp

text \<open>A loop over the runes that only looks for ASCII runes may look at the bytes instead.\<close>

lemma bex_runes_ascii:
  assumes "\<And>r. P r \<Longrightarrow> r < 128"
  shows "(\<exists>r \<in> set (runes s). P r) \<longleftrightarrow> (\<exists>c \<in> set s. P (byte c))"
proof -
  have "(\<exists>r \<in> set (runes s). P r) \<longleftrightarrow> (\<exists>r \<in> {r \<in> set (runes s). r < 128}. P r)"
    using assms by auto
  also have "\<dots> \<longleftrightarrow> (\<exists>b \<in> {b \<in> byte ` set s. b < 128}. P b)"
    by (simp only: set_runes_ascii)
  also have "\<dots> \<longleftrightarrow> (\<exists>c \<in> set s. P (byte c))" using assms by auto
  finally show ?thesis .
qed

end
