(* ===== verification/GoText.thy ===== *)
theory GoText
  imports GoStrings
begin

text \<open>
  The functions of Go's \<open>strings\<close>, \<open>unicode\<close> and \<open>encoding/hex\<close> packages that
  the service calls, over the decoder of \<open>GoStrings\<close>. The lemmas give what the callers need:
  trimming and lower-casing of ASCII text, substring search, and the length, alphabet and
  injectivity of the hexadecimal encoding.
\<close>

subsection \<open>Unicode tables\<close>

record unicode =
  IsPrint :: "nat \<Rightarrow> bool"
  IsLetter :: "nat \<Rightarrow> bool"
  IsDigit :: "nat \<Rightarrow> bool"
  ToLowerRune :: "nat \<Rightarrow> nat"

definition ascii_lower :: "nat \<Rightarrow> nat" where
  "ascii_lower r = (if 65 \<le> r \<and> r \<le> 90 then r + 32 else r)"

definition ascii_letter :: "nat \<Rightarrow> bool" where
  "ascii_letter r \<longleftrightarrow> (65 \<le> r \<and> r \<le> 90) \<or> (97 \<le> r \<and> r \<le> 122)"

definition ascii_digit :: "nat \<Rightarrow> bool" where
  "ascii_digit r \<longleftrightarrow> 48 \<le> r \<and> r \<le> 57"

locale unicode_tables =
  fixes U :: unicode
  assumes print_ascii: "r < 128 \<Longrightarrow> IsPrint U r \<longleftrightarrow> 32 \<le> r \<and> r < 127"
    and letter_ascii: "r < 128 \<Longrightarrow> IsLetter U r \<longleftrightarrow> ascii_letter r"
    and digit_ascii: "r < 128 \<Longrightarrow> IsDigit U r \<longleftrightarrow> ascii_digit r"
    and lower_ascii: "r < 128 \<Longrightarrow> ToLowerRune U r = ascii_lower r"
    and lower_valid: "valid_rune r \<Longrightarrow> valid_rune (ToLowerRune U r)"

text \<open>
  A table that agrees with Unicode on ASCII and on the Latin-1 letters (what \<open>unicode\<close> calls
  its \<open>MaxLatin1\<close> fast path); everything above U+00FF but U+FFFD it calls unprintable.
\<close>

definition latin1_letter :: "nat \<Rightarrow> bool" where
  "latin1_letter r \<longleftrightarrow> ascii_letter r \<or> r = 170 \<or> r = 181 \<or> r = 186 \<or>
     (192 \<le> r \<and> r \<le> 255 \<and> r \<noteq> 215 \<and> r \<noteq> 247)"

definition latin1_lower :: "nat \<Rightarrow> nat" where
  "latin1_lower r =
     (if 192 \<le> r \<and> r \<le> 222 \<and> r \<noteq> 215 then r + 32 else ascii_lower r)"

definition latin1 :: unicode where
  "latin1 = \<lparr>IsPrint = (\<lambda>r. (32 \<le> r \<and> r < 127) \<or> (161 \<le> r \<and> r \<le> 255 \<and> r \<noteq> 173) \<or> r = 65533),
     IsLetter = latin1_letter, IsDigit = ascii_digit, ToLowerRune = latin1_lower\<rparr>"

interpretation latin1: unicode_tables latin1
  by unfold_locales
    (auto simp: latin1_def latin1_letter_def latin1_lower_def ascii_letter_def ascii_lower_def
      valid_rune_def)

text \<open>\<open>unicode.IsSpace\<close>: the White_Space property, which is a fixed short list.\<close>

definition IsSpace :: "nat \<Rightarrow> bool" where
  "IsSpace r \<longleftrightarrow> (9 \<le> r \<and> r \<le> 13) \<or> r = 32 \<or> r = 133 \<or> r = 160 \<or> r = 5760 \<or>
     (8192 \<le> r \<and> r \<le> 8202) \<or> r = 8232 \<or> r = 8233 \<or> r = 8239 \<or> r = 8287 \<or> r = 12288"

subsection \<open>The strings package\<close>

text \<open>
  \<open>strings.Map\<close>: the mapping is applied to every rune and \<open>None\<close> (Go: a negative rune)
  drops it. An invalid byte is visited as U+FFFD, so it comes out as three bytes if kept.
\<close>

definition strings_Map :: "(nat \<Rightarrow> nat option) \<Rightarrow> string \<Rightarrow> string" where
  "strings_Map f s =
     concat (map (\<lambda>r. case f r of None \<Rightarrow> [] | Some r' \<Rightarrow> encode_rune r') (runes s))"

definition is_ascii :: "string \<Rightarrow> bool" where
  "is_ascii s \<longleftrightarrow> (\<forall>c \<in> set s. byte c < 128)"

definition lower_byte :: "char \<Rightarrow> char" where
  "lower_byte c = char_of (ascii_lower (byte c))"

definition ToLower :: "unicode \<Rightarrow> string \<Rightarrow> string" where
  "ToLower U s =
     (if is_ascii s then map lower_byte s else strings_Map (\<lambda>r. Some (ToLowerRune U r)) s)"

definition TrimSpace :: "string \<Rightarrow> string" where
  "TrimSpace s =
     concat (map snd (rev (dropWhile (\<lambda>(r, _). IsSpace r)
       (rev (dropWhile (\<lambda>(r, _). IsSpace r) (segments s))))))"

text \<open>\<open>strings.Trim(s, cutset)\<close> for an ASCII cutset: bytes of the cutset go from both ends.\<close>

definition trim_bytes :: "string \<Rightarrow> string \<Rightarrow> string" where
  "trim_bytes cutset s =
     rev (dropWhile (\<lambda>c. c \<in> set cutset) (rev (dropWhile (\<lambda>c. c \<in> set cutset) s)))"

fun has_prefix :: "string \<Rightarrow> string \<Rightarrow> bool" where
  "has_prefix s [] = True"
| "has_prefix [] (p # ps) = False"
| "has_prefix (c # cs) (p # ps) = (c = p \<and> has_prefix cs ps)"

fun strings_Contains :: "string \<Rightarrow> string \<Rightarrow> bool" where
  "strings_Contains [] sub = (sub = [])"
| "strings_Contains (c # cs) sub = (has_prefix (c # cs) sub \<or> strings_Contains cs sub)"

text \<open>
  \<open>strings.ContainsAny\<close> with ASCII characters. By \<open>bex_runes_ascii\<close> it does not matter
  whether bytes or runes are compared.
\<close>

definition ContainsAny :: "string \<Rightarrow> string \<Rightarrow> bool" where
  "ContainsAny s chars \<longleftrightarrow> (\<exists>c \<in> set s. c \<in> set chars)"

text \<open>
  \<open>strings.EqualFold(s, t)\<close> for an ASCII \<open>t\<close> without the letters \<open>k\<close> and
  \<open>s\<close>, the only ASCII letters that fold to a rune outside ASCII (U+212A and U+017F).
\<close>

definition EqualFold :: "string \<Rightarrow> string \<Rightarrow> bool" where
  "EqualFold s t \<longleftrightarrow> map lower_byte s = map lower_byte t"

text \<open>\<open>strings.SplitN(s, sep, 2)\<close> for a one-byte separator: \<open>None\<close> is one part only.\<close>

fun cut_byte :: "char \<Rightarrow> string \<Rightarrow> (string \<times> string) option" where
  "cut_byte sep [] = None"
| "cut_byte sep (c # cs) =
     (if c = sep then Some ([], cs)
      else map_option (\<lambda>(a, b). (c # a, b)) (cut_byte sep cs))"

subsection \<open>Facts about the strings functions\<close>

lemma strings_Map_runes:
  assumes "\<And>r r'. valid_rune r \<Longrightarrow> f r = Some r' \<Longrightarrow> valid_rune r'"
  shows "runes (strings_Map f s) = List.map_filter f (runes s)"
proof -
  have "runes (concat (map (\<lambda>r. case f r of None \<Rightarrow> [] | Some r' \<Rightarrow> encode_rune r') rs))
      = List.map_filter f rs" if "\<forall>r \<in> set rs. valid_rune r" for rs
    using that
  proof (induction rs)
    case (Cons r rs)
    then show ?case
      by (cases "f r") (auto simp: List.map_filter_simps runes_encode_append dest: assms)
  qed (simp add: List.map_filter_simps)
  then show ?thesis by (simp add: strings_Map_def runes_valid)
qed

lemma lower_byte_ascii: "byte c < 128 \<Longrightarrow> byte (lower_byte c) = ascii_lower (byte c)"
  unfolding lower_byte_def by (rule byte_char_of) (simp add: ascii_lower_def)

lemma ascii_lower_idem [simp]: "ascii_lower (ascii_lower r) = ascii_lower r"
  by (simp add: ascii_lower_def)

lemma lower_byte_idem [simp]: "lower_byte (lower_byte c) = lower_byte c"
proof (cases "byte c < 128")
  case True
  then show ?thesis by (simp add: lower_byte_def [of "lower_byte c"] lower_byte_ascii)
      (simp add: lower_byte_def)
next
  case False
  then have "lower_byte c = c" by (simp add: lower_byte_def ascii_lower_def)
  then show ?thesis by simp
qed

lemma is_ascii_lower: "is_ascii s \<Longrightarrow> is_ascii (map lower_byte s)"
  by (auto simp: is_ascii_def lower_byte_ascii ascii_lower_def)

lemma ToLower_ascii: "is_ascii s \<Longrightarrow> ToLower U s = map lower_byte s"
  by (simp add: ToLower_def)

lemma ToLower_ascii_idem: "is_ascii s \<Longrightarrow> ToLower U (ToLower U s) = ToLower U s"
  by (simp add: ToLower_ascii is_ascii_lower o_def)

context unicode_tables
begin

text \<open>On ASCII text the two branches of \<open>strings.ToLower\<close> agree.\<close>

lemma lower_paths_agree:
  assumes "is_ascii s"
  shows "strings_Map (\<lambda>r. Some (ToLowerRune U r)) s = map lower_byte s"
proof -
  have "encode_rune (ToLowerRune U (byte c)) = [lower_byte c]" if "c \<in> set s" for c
  proof -
    from assms that have "byte c < 128" by (simp add: is_ascii_def)
    then have "ToLowerRune U (byte c) = ascii_lower (byte c)" "ascii_lower (byte c) < 128"
      by (simp_all add: lower_ascii ascii_lower_def)
    then show ?thesis by (simp add: encode_rune_def valid_rune_def lower_byte_def)
  qed
  then have "map (\<lambda>c. encode_rune (ToLowerRune U (byte c))) s = map (\<lambda>c. [lower_byte c]) s"
    by simp
  then have "concat (map (\<lambda>c. encode_rune (ToLowerRune U (byte c))) s) = map lower_byte s"
    by (simp only: concat_map_singleton)
  moreover have "runes s = map byte s" using assms by (simp add: is_ascii_def runes_ascii)
  ultimately show ?thesis by (simp add: strings_Map_def o_def)
qed

end

lemma has_prefix_iff: "has_prefix s p \<longleftrightarrow> (\<exists>t. s = p @ t)"
  by (induction s p rule: has_prefix.induct) auto

lemma strings_Contains_iff: "strings_Contains s sub \<longleftrightarrow> (\<exists>a b. s = a @ sub @ b)"
proof (induction s)
  case (Cons c cs)
  have "(\<exists>a b. c # cs = a @ sub @ b) \<longleftrightarrow> (\<exists>b. c # cs = sub @ b) \<or> (\<exists>a b. cs = a @ sub @ b)"
    by (metis append_Cons append_Nil neq_Nil_conv list.inject)
  with Cons show ?case by (simp add: has_prefix_iff)
qed simp

lemma cut_byte_None: "cut_byte sep s = None \<longleftrightarrow> sep \<notin> set s"
  by (induction s) auto

lemma cut_byte_Some: "cut_byte sep s = Some (a, b) \<longleftrightarrow> s = a @ sep # b \<and> sep \<notin> set a"
proof (induction s arbitrary: a)
  case (Cons c cs)
  show ?case
  proof (cases "c = sep")
    case True
    then show ?thesis by (cases a) auto
  next
    case False
    have "cut_byte sep (c # cs) = Some (a, b) \<longleftrightarrow>
        (\<exists>a'. a = c # a' \<and> cut_byte sep cs = Some (a', b))"
      using False by auto
    also have "\<dots> \<longleftrightarrow> (\<exists>a'. a = c # a' \<and> cs = a' @ sep # b \<and> sep \<notin> set a')"
      by (simp only: Cons)
    also have "\<dots> \<longleftrightarrow> c # cs = a @ sep # b \<and> sep \<notin> set a"
      using False by (cases a) auto
    finally show ?thesis .
  qed
qed simp

lemma cut_byte_append: "sep \<notin> set a \<Longrightarrow> cut_byte sep (a @ sep # b) = Some (a, b)"
  by (simp add: cut_byte_Some)

lemma segments_ascii: "is_ascii s \<Longrightarrow> segments s = map (\<lambda>c. (byte c, [c])) s"
  by (induction s) (auto simp: is_ascii_def)

lemma TrimSpace_ascii:
  assumes "is_ascii s"
  shows "TrimSpace s =
    rev (dropWhile (\<lambda>c. IsSpace (byte c)) (rev (dropWhile (\<lambda>c. IsSpace (byte c)) s)))"
proof -
  let ?seg = "map (\<lambda>c. (byte c, [c]))" and ?P = "\<lambda>c. IsSpace (byte c)"
  have d: "dropWhile (\<lambda>(r, _). IsSpace r) (?seg xs) = ?seg (dropWhile ?P xs)" for xs
    by (induction xs) auto
  have c: "concat (map snd (?seg xs)) = xs" for xs by (induction xs) auto
  show ?thesis by (simp only: TrimSpace_def segments_ascii [OF assms] d rev_map c)
qed

text \<open>Text that neither starts nor ends with a space is not changed.\<close>

lemma TrimSpace_id:
  assumes "is_ascii s" "s \<noteq> []" "\<not> IsSpace (byte (hd s))" "\<not> IsSpace (byte (last s))"
  shows "TrimSpace s = s"
proof -
  have "dropWhile (\<lambda>c. IsSpace (byte c)) s = s" using assms by (cases s) auto
  moreover have "dropWhile (\<lambda>c. IsSpace (byte c)) (rev s) = rev s"
    using assms by (cases s rule: rev_cases) auto
  ultimately show ?thesis using assms(1) by (simp add: TrimSpace_ascii)
qed

subsection \<open>Hexadecimal encoding\<close>

definition hex_digit :: "nat \<Rightarrow> char" where
  "hex_digit n = char_of (if n < 10 then 48 + n else 87 + n)"

definition hex_byte :: "char \<Rightarrow> string" where
  "hex_byte c = [hex_digit (byte c div 16), hex_digit (byte c mod 16)]"

definition hex_EncodeToString :: "string \<Rightarrow> string" where
  "hex_EncodeToString bs = concat (map hex_byte bs)"

definition is_hex_digit :: "char \<Rightarrow> bool" where
  "is_hex_digit c \<longleftrightarrow> ascii_digit (byte c) \<or> (97 \<le> byte c \<and> byte c \<le> 102) \<or>
     (65 \<le> byte c \<and> byte c \<le> 70)"

lemma byte_hex_digit: "n < 16 \<Longrightarrow> byte (hex_digit n) = (if n < 10 then 48 + n else 87 + n)"
  unfolding hex_digit_def by (rule byte_char_of) simp

lemma hex_digit_inj: "m < 16 \<Longrightarrow> n < 16 \<Longrightarrow> hex_digit m = hex_digit n \<longleftrightarrow> m = n"
proof -
  assume m: "m < 16" and n: "n < 16"
  have "m = n" if "hex_digit m = hex_digit n"
  proof -
    from that have "(if m < 10 then 48 + m else 87 + m) = (if n < 10 then 48 + n else 87 + n)"
      using byte_hex_digit [OF m] byte_hex_digit [OF n] by (simp only:)
    with m n show ?thesis by (simp split: if_splits)
  qed
  then show ?thesis by blast
qed

lemma hex_byte_inj: "hex_byte c = hex_byte d \<longleftrightarrow> c = d"
proof
  assume h: "hex_byte c = hex_byte d"
  have "byte c div 16 < 16" "byte d div 16 < 16"
    by (simp_all add: less_mult_imp_div_less)
  with h have "byte c div 16 = byte d div 16" "byte c mod 16 = byte d mod 16"
    by (simp_all add: hex_byte_def hex_digit_inj)
  then have "byte c = byte d" by (metis div_mult_mod_eq)
  then show "c = d" by simp
qed simp

lemma length_hex: "length (hex_EncodeToString bs) = 2 * length bs"
  by (induction bs) (simp_all add: hex_EncodeToString_def hex_byte_def)

lemma hex_inj: "hex_EncodeToString as = hex_EncodeToString bs \<longleftrightarrow> as = bs"
proof
  assume h: "hex_EncodeToString as = hex_EncodeToString bs"
  then have "length as = length bs" by (metis length_hex mult_cancel1 zero_neq_numeral)
  then show "as = bs" using h
  proof (induction as bs rule: list_induct2)
    case (Cons a as b bs)
    then have "hex_byte a = hex_byte b" "hex_EncodeToString as = hex_EncodeToString bs"
      by (simp_all add: hex_EncodeToString_def hex_byte_def)
    with Cons.IH show ?case by (simp add: hex_byte_inj)
  qed simp
qed simp

lemma hex_digit_is_hex: "n < 16 \<Longrightarrow> is_hex_digit (hex_digit n)"
  using byte_hex_digit [of n] by (simp add: is_hex_digit_def ascii_digit_def split: if_splits)

lemma hex_alphabet: "c \<in> set (hex_EncodeToString bs) \<Longrightarrow> is_hex_digit c"
  by (auto simp: hex_EncodeToString_def hex_byte_def less_mult_imp_div_less
      intro!: hex_digit_is_hex)

lemma is_hex_digit_ascii: "is_hex_digit c \<Longrightarrow> byte c < 128"
  by (auto simp: is_hex_digit_def ascii_digit_def)

lemma hex_ascii: "is_ascii (hex_EncodeToString bs)"
  by (auto simp: is_ascii_def dest: hex_alphabet is_hex_digit_ascii)

end
