(* ===== verification/GoNet.thy ===== *)
theory GoNet
  imports GoText "HOL-Library.List_Lexorder" "HOL-Library.Char_ord"
begin

text \<open>
  The parts of Go's \<open>strconv\<close>, \<open>html\<close>, \<open>net\<close> and \<open>net/url\<close> that the service uses:
  decimal numbers, HTML escaping, \<open>SplitHostPort\<close> and \<open>JoinHostPort\<close>, and the query
  strings (\<open>QueryEscape\<close>, \<open>QueryUnescape\<close>, \<open>ParseQuery\<close>, \<open>Values.Encode\<close>). The
  lemmas are the round trips: an escaped string unescapes to itself, and the encoding of a set of
  parameters parses back to it. \<open>url.Parse\<close> and \<open>URL.String\<close> are parameters (\<open>url_lib\<close>).
\<close>

subsection \<open>Decimal numbers\<close>

fun decimal :: "nat \<Rightarrow> string" where
  "decimal n = (if n < 10 then [char_of (48 + n)] else decimal (n div 10) @ [char_of (48 + n mod 10)])"

definition itoa :: "int \<Rightarrow> string" where
  "itoa i = (if i < 0 then CHR ''-'' # decimal (nat (- i)) else decimal (nat i))"

subsection \<open>HTML\<close>

definition html_escape_byte :: "char \<Rightarrow> string" where
  "html_escape_byte c =
     (if c = CHR ''&'' then ''&amp;'' else if c = CHR 0x27 then ''&#39;''
      else if c = CHR ''<'' then ''&lt;'' else if c = CHR ''>'' then ''&gt;''
      else if c = CHR 0x22 then ''&#34;'' else [c])"

definition html_EscapeString :: "string \<Rightarrow> string" where
  "html_EscapeString s = concat (map html_escape_byte s)"

lemma html_escape_safe:
  "c \<in> set (html_EscapeString s) \<Longrightarrow> c \<notin> {CHR 0x22, CHR 0x27, CHR ''<'', CHR ''>''}"
  by (auto simp: html_EscapeString_def html_escape_byte_def split: if_splits)

subsection \<open>Host and port\<close>

text \<open>\<open>last_cut sep s\<close>: the parts before and after the last \<open>sep\<close>.\<close>

definition last_cut :: "char \<Rightarrow> string \<Rightarrow> (string \<times> string) option" where
  "last_cut sep s = (case cut_byte sep (rev s) of None \<Rightarrow> None | Some (b, a) \<Rightarrow> Some (rev a, rev b))"

text \<open>
  \<open>net.SplitHostPort\<close>; \<open>None\<close> is any of its address errors. After \<open>[host]\<close> only a port may
  follow, and neither part has a bracket left.
\<close>

definition SplitHostPort :: "string \<Rightarrow> (string \<times> string) option" where
  "SplitHostPort hostport =
     (case last_cut (CHR '':'') hostport of
        None \<Rightarrow> None
      | Some (before, port) \<Rightarrow>
          if hd hostport = CHR ''['' then
            (case cut_byte (CHR '']'') hostport of
               None \<Rightarrow> None
             | Some (open_host, rest) \<Rightarrow>
                 if rest \<noteq> CHR '':'' # port then None
                 else if CHR ''['' \<in> set (tl hostport) \<or> CHR '']'' \<in> set rest then None
                 else Some (tl open_host, port))
          else if CHR '':'' \<in> set before then None
          else if CHR ''['' \<in> set hostport \<or> CHR '']'' \<in> set hostport then None
          else Some (before, port))"

definition JoinHostPort :: "string \<Rightarrow> string \<Rightarrow> string" where
  "JoinHostPort host port =
     (if CHR '':'' \<in> set host then ''['' @ host @ '']:'' @ port else host @ '':'' @ port)"

lemma last_cut_append: "sep \<notin> set b \<Longrightarrow> last_cut sep (a @ sep # b) = Some (a, b)"
  by (simp add: last_cut_def cut_byte_append)

text \<open>What \<open>JoinHostPort\<close> writes, \<open>SplitHostPort\<close> reads.\<close>

lemma split_join:
  assumes "CHR ''['' \<notin> set host" "CHR '']'' \<notin> set host"
    and "CHR '':'' \<notin> set port" "CHR ''['' \<notin> set port" "CHR '']'' \<notin> set port"
  shows "SplitHostPort (JoinHostPort host port) = Some (host, port)"
proof (cases "CHR '':'' \<in> set host")
  case True
  have l: "last_cut (CHR '':'') (''['' @ host @ '']:'' @ port) = Some (''['' @ host @ '']'', port)"
    using last_cut_append [OF assms(3), of "''['' @ host @ '']''"] by simp
  have c: "cut_byte (CHR '']'') (''['' @ host @ '']:'' @ port) = Some (''['' @ host, CHR '':'' # port)"
    using cut_byte_append [of "CHR '']''" "''['' @ host"] assms(2) by simp
  show ?thesis using True assms l c by (simp add: SplitHostPort_def JoinHostPort_def)
next
  case False
  have l: "last_cut (CHR '':'') (host @ '':'' @ port) = Some (host, port)"
    using last_cut_append [OF assms(3), of host] by simp
  have h: "hd (host @ '':'' @ port) \<noteq> CHR ''[''"
    using assms(1) by (cases host) auto
  have "CHR ''['' \<notin> set (host @ '':'' @ port)" "CHR '']'' \<notin> set (host @ '':'' @ port)"
    using assms by auto
  with False l h show ?thesis
    by (simp only: SplitHostPort_def JoinHostPort_def if_False if_not_P option.case prod.case)
      simp
qed

subsection \<open>Query strings\<close>

definition unreserved :: "char \<Rightarrow> bool" where
  "unreserved c \<longleftrightarrow> ascii_letter (byte c) \<or> ascii_digit (byte c) \<or>
     c \<in> {CHR ''-'', CHR ''_'', CHR ''.'', CHR ''~''}"

definition upper_hex :: "nat \<Rightarrow> char" where
  "upper_hex n = char_of (if n < 10 then 48 + n else 55 + n)"

definition escape_byte :: "char \<Rightarrow> string" where
  "escape_byte c =
     (if unreserved c then [c]
      else if c = CHR '' '' then ''+''
      else [CHR ''%'', upper_hex (byte c div 16), upper_hex (byte c mod 16)])"

definition QueryEscape :: "string \<Rightarrow> string" where
  "QueryEscape s = concat (map escape_byte s)"

definition unhex :: "char \<Rightarrow> nat" where
  "unhex c = (if ascii_digit (byte c) then byte c - 48
     else if 97 \<le> byte c then byte c - 87 else byte c - 55)"

fun QueryUnescape :: "string \<Rightarrow> string option" where
  "QueryUnescape [] = Some []"
| "QueryUnescape (c # cs) =
     (if c = CHR ''%'' then
        (case cs of
           a # b # rest \<Rightarrow>
             if is_hex_digit a \<and> is_hex_digit b
             then map_option ((#) (char_of (16 * unhex a + unhex b))) (QueryUnescape rest)
             else None
         | _ \<Rightarrow> None)
      else map_option ((#) (if c = CHR ''+'' then CHR '' '' else c)) (QueryUnescape cs))"

text \<open>\<open>url.Values\<close>: a map, as an association list with distinct keys.\<close>

type_synonym url_values = "(string \<times> string list) list"

fun values_Set :: "string \<Rightarrow> string \<Rightarrow> url_values \<Rightarrow> url_values" where
  "values_Set k v [] = [(k, [v])]"
| "values_Set k v ((k', vs) # q) = (if k' = k then (k, [v]) # q else (k', vs) # values_Set k v q)"

fun values_Add :: "string \<Rightarrow> string \<Rightarrow> url_values \<Rightarrow> url_values" where
  "values_Add k v [] = [(k, [v])]"
| "values_Add k v ((k', vs) # q) =
     (if k' = k then (k, vs @ [v]) # q else (k', vs) # values_Add k v q)"

text \<open>\<open>strings.Cut(query, sep)\<close> in a loop: the fields between the separators.\<close>

fun fields_of :: "char \<Rightarrow> string \<Rightarrow> string list" where
  "fields_of sep [] = [[]]"
| "fields_of sep (c # cs) =
     (if c = sep then [] # fields_of sep cs
      else (case fields_of sep cs of [] \<Rightarrow> [[c]] | f # fs \<Rightarrow> (c # f) # fs))"

definition parse_field :: "string \<Rightarrow> (string \<times> string) option" where
  "parse_field f =
     (if f = [] \<or> CHR '';'' \<in> set f then None
      else (case cut_byte (CHR ''='') f of
              None \<Rightarrow> map_option (\<lambda>k. (k, [])) (QueryUnescape f)
            | Some (a, b) \<Rightarrow>
                (case (QueryUnescape a, QueryUnescape b) of
                   (Some k, Some v) \<Rightarrow> Some (k, v) | _ \<Rightarrow> None)))"

definition ParseQuery :: "string \<Rightarrow> url_values" where
  "ParseQuery s = fold (\<lambda>f q. case parse_field f of None \<Rightarrow> q | Some (k, v) \<Rightarrow> values_Add k v q)
     (fields_of (CHR ''&'') s) []"

fun join :: "char \<Rightarrow> string list \<Rightarrow> string" where
  "join sep [] = []"
| "join sep [f] = f"
| "join sep (f # g # fs) = f @ sep # join sep (g # fs)"

definition pairs_of :: "url_values \<Rightarrow> (string \<times> string) list" where
  "pairs_of q = concat (map (\<lambda>(k, vs). map (Pair k) vs) q)"

definition values_Encode :: "url_values \<Rightarrow> string" where
  "values_Encode q = join (CHR ''&'')
     (map (\<lambda>(k, v). QueryEscape k @ CHR ''='' # QueryEscape v) (pairs_of (sort_key fst q)))"

subsection \<open>Escaping round trip\<close>

lemma byte_upper_hex: "n < 16 \<Longrightarrow> byte (upper_hex n) = (if n < 10 then 48 + n else 55 + n)"
  unfolding upper_hex_def by (rule byte_char_of) simp

lemma unhex_upper_hex: "n < 16 \<Longrightarrow> unhex (upper_hex n) = n"
  using byte_upper_hex [of n] by (auto simp: unhex_def ascii_digit_def split: if_splits)

lemma upper_hex_is_hex: "n < 16 \<Longrightarrow> is_hex_digit (upper_hex n)"
  using byte_upper_hex [of n] by (auto simp: is_hex_digit_def ascii_digit_def split: if_splits)

lemma unreserved_not_special: "unreserved c \<Longrightarrow> c \<notin> {CHR ''%'', CHR ''+'', CHR ''&'', CHR ''='', CHR '';''}"
  by (auto simp: unreserved_def ascii_letter_def ascii_digit_def)

lemma unescape_escape_byte:
  "QueryUnescape (escape_byte c @ s) = map_option ((#) c) (QueryUnescape s)"
proof -
  have d: "byte c div 16 < 16" "byte c mod 16 < 16"
    using of_char_mod_256 [of c] by (simp_all add: less_mult_imp_div_less)
  consider "unreserved c" | "\<not> unreserved c" "c = CHR '' ''" | "\<not> unreserved c" "c \<noteq> CHR '' ''" by blast
  then show ?thesis
  proof cases
    case 1
    with unreserved_not_special [OF 1] show ?thesis by (simp add: escape_byte_def)
  next
    case 2
    then show ?thesis by (simp add: escape_byte_def)
  next
    case 3
    have "16 * unhex (upper_hex (byte c div 16)) + unhex (upper_hex (byte c mod 16)) = byte c"
      using d by (simp add: unhex_upper_hex)
    then have "char_of (16 * unhex (upper_hex (byte c div 16)) + unhex (upper_hex (byte c mod 16))) = c"
      by (simp only: char_of_char)
    with 3 d show ?thesis by (simp add: escape_byte_def upper_hex_is_hex)
  qed
qed

lemma unescape_escape: "QueryUnescape (QueryEscape s) = Some s"
proof (induction s)
  case (Cons c s)
  have "QueryEscape (c # s) = escape_byte c @ QueryEscape s" by (simp add: QueryEscape_def)
  then show ?case by (simp only: unescape_escape_byte Cons option.map)
qed (simp add: QueryEscape_def)

subsection \<open>The encoding of a set of parameters parses back to it\<close>

lemma escape_byte_alphabet: "x \<in> set (escape_byte c) \<Longrightarrow> x \<notin> {CHR ''&'', CHR ''='', CHR '';''}"
proof -
  assume x: "x \<in> set (escape_byte c)"
  have d: "byte c div 16 < 16" "byte c mod 16 < 16"
    using of_char_mod_256 [of c] by (simp_all add: less_mult_imp_div_less)
  have h: "upper_hex n \<notin> {CHR ''&'', CHR ''='', CHR '';''}" if "n < 16" for n
    using upper_hex_is_hex [OF that] by (auto simp: is_hex_digit_def ascii_digit_def)
  show ?thesis using x h [OF d(1)] h [OF d(2)] unreserved_not_special [of c]
    by (auto simp: escape_byte_def split: if_splits)
qed

lemma escape_alphabet: "x \<in> set (QueryEscape s) \<Longrightarrow> x \<notin> {CHR ''&'', CHR ''='', CHR '';''}"
  unfolding QueryEscape_def using escape_byte_alphabet by fastforce

definition pair_field :: "string \<times> string \<Rightarrow> string" where
  "pair_field p = QueryEscape (fst p) @ CHR ''='' # QueryEscape (snd p)"

lemma parse_pair_field: "parse_field (pair_field (k, v)) = Some (k, v)"
proof -
  have "CHR '';'' \<notin> set (pair_field (k, v))" "CHR ''='' \<notin> set (QueryEscape k)"
    by (auto simp: pair_field_def dest: escape_alphabet)
  then show ?thesis
    by (simp add: parse_field_def pair_field_def cut_byte_append unescape_escape)
qed

lemma fields_of_plain: "sep \<notin> set f \<Longrightarrow> fields_of sep f = [f]"
  by (induction f) auto

lemma fields_of_append: "sep \<notin> set f \<Longrightarrow> fields_of sep (f @ sep # s) = f # fields_of sep s"
  by (induction f) auto

lemma fields_of_join:
  "fs \<noteq> [] \<Longrightarrow> \<forall>f \<in> set fs. sep \<notin> set f \<Longrightarrow> fields_of sep (join sep fs) = fs"
  by (induction sep fs rule: join.induct) (auto simp: fields_of_plain fields_of_append)

lemma values_Add_new: "k \<notin> fst ` set q \<Longrightarrow> values_Add k v q = q @ [(k, [v])]"
  by (induction k v q rule: values_Add.induct) auto

lemma values_Add_last: "k \<notin> fst ` set q \<Longrightarrow> values_Add k v (q @ [(k, vs)]) = q @ [(k, vs @ [v])]"
  by (induction q) auto

lemma add_group:
  "k \<notin> fst ` set q \<Longrightarrow> fold (\<lambda>(k, v) q. values_Add k v q) (map (Pair k) vs) (q @ [(k, us)]) =
     q @ [(k, us @ vs)]"
  by (induction vs arbitrary: us) (simp_all add: values_Add_last)

lemma add_pairs:
  assumes "distinct (map fst (q @ q'))" "\<forall>(k, vs) \<in> set q'. vs \<noteq> []"
  shows "fold (\<lambda>(k, v) q. values_Add k v q) (pairs_of q') q = q @ q'"
  using assms
proof (induction q' arbitrary: q)
  case (Cons p q')
  obtain k vs where p: "p = (k, vs)" by (cases p)
  with Cons.prems obtain v vs' where v: "vs = v # vs'" by (cases vs) auto
  have k: "k \<notin> fst ` set q" using Cons.prems p by auto
  have "fold (\<lambda>(k, v) q. values_Add k v q) (pairs_of (p # q')) q =
      fold (\<lambda>(k, v) q. values_Add k v q) (pairs_of q')
        (fold (\<lambda>(k, v) q. values_Add k v q) (map (Pair k) vs') (q @ [(k, [v])]))"
    by (simp add: pairs_of_def p v values_Add_new [OF k])
  also have "\<dots> = fold (\<lambda>(k, v) q. values_Add k v q) (pairs_of q') (q @ [(k, vs)])"
    by (simp add: add_group [OF k] v)
  also have "\<dots> = q @ p # q'"
    using Cons.IH [of "q @ [(k, vs)]"] Cons.prems p by auto
  finally show ?case .
qed (simp add: pairs_of_def)

lemma fold_parse_fields:
  "fold (\<lambda>f q. case parse_field f of None \<Rightarrow> q | Some (k, v) \<Rightarrow> values_Add k v q) (map pair_field ps) q =
     fold (\<lambda>(k, v) q. values_Add k v q) ps q"
  by (induction ps arbitrary: q) (auto simp: parse_pair_field)

lemma parse_encode:
  assumes "distinct (map fst q)" "\<forall>(k, vs) \<in> set q. vs \<noteq> []"
  shows "ParseQuery (values_Encode q) = sort_key fst q"
proof -
  let ?ps = "pairs_of (sort_key fst q)"
  have e: "values_Encode q = join (CHR ''&'') (map pair_field ?ps)"
    by (simp add: values_Encode_def pair_field_def [abs_def] case_prod_unfold)
  have d: "distinct (map fst ([] @ sort_key fst q))"
    using assms(1) by (simp add: distinct_map)
  have n: "\<forall>(k, vs) \<in> set (sort_key fst q). vs \<noteq> []" using assms(2) by simp
  have amp: "\<forall>f \<in> set (map pair_field ?ps). CHR ''&'' \<notin> set f"
    by (auto simp: pair_field_def dest: escape_alphabet)
  have "fold (\<lambda>f q. case parse_field f of None \<Rightarrow> q | Some (k, v) \<Rightarrow> values_Add k v q)
      (fields_of (CHR ''&'') (values_Encode q)) [] =
      fold (\<lambda>(k, v) q. values_Add k v q) ?ps []"
  proof (cases "?ps = []")
    case True
    then show ?thesis by (simp add: e parse_field_def)
  next
    case False
    then show ?thesis using amp by (simp add: e fields_of_join fold_parse_fields)
  qed
  also have "\<dots> = sort_key fst q" using add_pairs [OF d n] by simp
  finally show ?thesis by (simp add: ParseQuery_def)
qed

text \<open>What a parsed query looks like, and what \<open>Set\<close> does to it.\<close>

lemma values_Add_keys:
  "distinct (map fst q) \<Longrightarrow> distinct (map fst (values_Add k v q)) \<and>
     fst ` set (values_Add k v q) = insert k (fst ` set q)"
  by (induction k v q rule: values_Add.induct) auto

lemma values_Add_nonempty:
  "\<forall>(k, vs) \<in> set q. vs \<noteq> [] \<Longrightarrow> \<forall>(k, vs) \<in> set (values_Add k v q). vs \<noteq> []"
  by (induction k v q rule: values_Add.induct) auto

lemma ParseQuery_ok:
  "distinct (map fst (ParseQuery s))" "\<forall>(k, vs) \<in> set (ParseQuery s). vs \<noteq> []"
proof -
  have "distinct (map fst (fold (\<lambda>f q. case parse_field f of None \<Rightarrow> q | Some (k, v) \<Rightarrow> values_Add k v q) fs q)) \<and>
    (\<forall>(k, vs) \<in> set (fold (\<lambda>f q. case parse_field f of None \<Rightarrow> q | Some (k, v) \<Rightarrow> values_Add k v q) fs q). vs \<noteq> [])"
    if "distinct (map fst q) \<and> (\<forall>(k, vs) \<in> set q. vs \<noteq> [])" for fs q
    using that
  proof (induction fs arbitrary: q)
    case (Cons f fs)
    show ?case
    proof (cases "parse_field f")
      case None
      then show ?thesis using Cons by simp
    next
      case (Some p)
      then show ?thesis using Cons.IH [of "values_Add (fst p) (snd p) q"] Cons.prems
          values_Add_keys [of q "fst p" "snd p"] values_Add_nonempty [of q "fst p" "snd p"]
        by (simp add: case_prod_unfold)
    qed
  qed simp
  from this [of "[]"] show "distinct (map fst (ParseQuery s))" "\<forall>(k, vs) \<in> set (ParseQuery s). vs \<noteq> []"
    by (simp_all add: ParseQuery_def)
qed

lemma values_Set_lookup:
  "distinct (map fst q) \<Longrightarrow> map_of (values_Set k v q) = (map_of q)(k \<mapsto> [v])"
  by (induction k v q rule: values_Set.induct) (auto simp: fun_eq_iff)

lemma values_Set_ok:
  "distinct (map fst q) \<Longrightarrow> distinct (map fst (values_Set k v q)) \<and>
     fst ` set (values_Set k v q) = insert k (fst ` set q)"
  "\<forall>(k, vs) \<in> set q. vs \<noteq> [] \<Longrightarrow> \<forall>(k, vs) \<in> set (values_Set k v q). vs \<noteq> []"
  by (induction k v q rule: values_Set.induct) auto

lemma map_of_sort_key:
  assumes "distinct (map fst q)"
  shows "map_of (sort_key fst q) = map_of q"
proof -
  have "distinct (map fst (sort_key fst q))" using assms by (simp add: distinct_map)
  then show ?thesis using assms by (intro map_of_inject_set [THEN iffD2]) simp_all
qed

end
