(* ===== verification/GoJson.thy ===== *)
theory GoJson
  imports GoNet
begin

text \<open>
  What the service uses of \<open>encoding/json\<close>: \<open>json.Marshal\<close> of strings, integers, lists, structs
  and string maps, with the escapes of Go's encoder (HTML-safe, invalid UTF-8 replaced), and the
  end-of-stream test of a decoder. Decoding a request body into a struct is a parameter of the
  handlers.
\<close>

datatype json = JNull | JStr string | JInt int | JList "json list" | JObj "(string \<times> json) list"

definition low_hex :: "nat \<Rightarrow> string" where
  "low_hex n = [hex_digit (n div 16), hex_digit (n mod 16)]"

definition json_escape_ascii :: "nat \<Rightarrow> string" where
  "json_escape_ascii b =
     (if b = 0x22 then [CHR 0x5C, CHR 0x22]
      else if b = 0x5C then [CHR 0x5C, CHR 0x5C]
      else if b = 8 then [CHR 0x5C, CHR ''b'']
      else if b = 12 then [CHR 0x5C, CHR ''f'']
      else if b = 10 then [CHR 0x5C, CHR ''n'']
      else if b = 13 then [CHR 0x5C, CHR ''r'']
      else if b = 9 then [CHR 0x5C, CHR ''t'']
      else if b < 32 \<or> b = 0x3C \<or> b = 0x3E \<or> b = 0x26 then CHR 0x5C # ''u00'' @ low_hex b
      else [char_of b])"

text \<open>One rune with the bytes it came from; a bad byte is \<open>U+FFFD\<close> of width one.\<close>

definition json_escape_rune :: "nat \<times> string \<Rightarrow> string" where
  "json_escape_rune p =
     (if fst p < 128 then json_escape_ascii (fst p)
      else if fst p = rune_error \<and> length (snd p) = 1 then CHR 0x5C # ''ufffd''
      else if fst p = 8232 then CHR 0x5C # ''u2028''
      else if fst p = 8233 then CHR 0x5C # ''u2029''
      else snd p)"

definition json_string :: "string \<Rightarrow> string" where
  "json_string s = [CHR 0x22] @ concat (map json_escape_rune (segments s)) @ [CHR 0x22]"

fun comma_sep :: "string list \<Rightarrow> string" where
  "comma_sep [] = []"
| "comma_sep [x] = x"
| "comma_sep (x # y # xs) = x @ '','' @ comma_sep (y # xs)"

fun json_Marshal :: "json \<Rightarrow> string" where
  "json_Marshal JNull = ''null''"
| "json_Marshal (JStr s) = json_string s"
| "json_Marshal (JInt i) = itoa i"
| "json_Marshal (JList xs) = ''['' @ comma_sep (map json_Marshal xs) @ '']''"
| "json_Marshal (JObj kvs) =
     ''{'' @ comma_sep (map (\<lambda>(k, v). json_string k @ '':'' @ json_Marshal v) kvs) @ ''}''"

text \<open>A \<open>map[string]T\<close>: the keys come out sorted.\<close>

definition json_map :: "(string \<times> json) list \<Rightarrow> json" where
  "json_map kvs = JObj (sort_key fst kvs)"

text \<open>\<open>dec.Decode(&struct{}{}) == io.EOF\<close>: only white space is left of the stream.\<close>

definition json_eof :: "string \<Rightarrow> bool" where
  "json_eof rest \<longleftrightarrow> (\<forall>c \<in> set rest. c \<in> {CHR '' '', CHR 0x09, CHR 0x0A, CHR 0x0D})"

lemma json_map_brace: "\<exists>t. json_Marshal (json_map kvs) = CHR ''{'' # t"
  by (simp add: json_map_def)

end
