(* ===== verification/Domain.thy ===== *)
theory Domain
  imports GoText
begin

text \<open>
  Package \<open>internal/domain\<close>: the entities (\<open>user.go\<close>, \<open>token.go\<close>,
  \<open>audit.go\<close>), the sentinel errors (\<open>errors.go\<close>) and the repository and store
  interfaces (\<open>repository.go\<close>). An interface is a record of its methods; a method is a
  state-monad action over the type of the world it acts on. The \<open>context.Context\<close> argument
  is left out: a cancelled context shows as an error of the call.
\<close>

subsection \<open>Errors\<close>

text \<open>
  The sentinels, and the errors of other origin that the code tells apart: a Postgres error with
  its SQLSTATE, \<open>redis.Nil\<close>, the errors of \<open>pkg/uri\<close> and \<open>pkg/validate\<close>, the
  result of \<open>fmt.Errorf\<close> with \<open>%w\<close> (\<open>Wrapped\<close>) and of \<open>errors.Join\<close>; anything
  else is \<open>ErrOther\<close>.
\<close>

datatype err =
    ErrNotFound | ErrConflict | ErrUnauthorized | ErrForbidden | ErrInvalidInput
  | ErrTokenInvalid | ErrTokenExpired | ErrAccountLocked | ErrRateLimited
  | ErrInvalidURL | ErrValidation
  | PgError string | RedisNil | ErrOther string
  | Wrapped string err | Joined "err list"

fun errors_Is :: "err \<Rightarrow> err \<Rightarrow> bool" where
  "errors_Is (Wrapped m e) t = (Wrapped m e = t \<or> errors_Is e t)"
| "errors_Is (Joined es) t = (Joined es = t \<or> (\<exists>e \<in> set es. errors_Is e t))"
| "errors_Is e t = (e = t)"

lemma errors_Is_refl [simp]: "errors_Is e e"
  by (cases e) auto

subsection \<open>Entities\<close>

record User =
  user_ID :: uuid
  user_Email :: string
  user_PasswordHash :: string
  user_EmailVerified :: bool
  user_IsActive :: bool
  user_CreatedAt :: time
  user_UpdatedAt :: time

record AuthProfile =
  prof_UserID :: uuid
  prof_Email :: string
  prof_Roles :: "string list"
  prof_Permissions :: "string list"

record TokenPair =
  AccessToken :: string
  RefreshToken :: string
  ExpiresIn :: int

record Session =
  sess_ID :: uuid
  sess_UserID :: uuid
  sess_Email :: string
  sess_Roles :: "string list"
  sess_Permissions :: "string list"
  sess_FamilyID :: uuid

record RefreshRecord =
  rec_ID :: uuid
  rec_UserID :: uuid
  rec_SessionID :: uuid
  rec_TokenHash :: string
  rec_FamilyID :: uuid
  rec_ExpiresAt :: time

text \<open>\<open>Metadata\<close> is nil or raw JSON. The service never sets \<open>CreatedAt\<close>.\<close>

record AuditEntry =
  audit_UserID :: "uuid option"
  audit_Action :: string
  audit_IPAddress :: string
  audit_UserAgent :: string
  audit_Metadata :: "string option"

record EmailMessage =
  mail_To :: string
  mail_Subject :: string
  mail_Text :: string
  mail_HTML :: string

subsection \<open>Interfaces\<close>

type_synonym ('w, 'a) call = "('w, err + 'a) state"
  \<comment> \<open>a Go call that returns \<open>(T, error)\<close>\<close>

record 'w UserRepository =
  CreateWithRole :: "string \<Rightarrow> string \<Rightarrow> string \<Rightarrow> ('w, User) call"
  GetByEmail :: "string \<Rightarrow> ('w, User) call"
  UpdatePassword :: "uuid \<Rightarrow> string \<Rightarrow> ('w, unit) call"
  MarkEmailVerified :: "uuid \<Rightarrow> ('w, unit) call"
  GetAuthProfile :: "uuid \<Rightarrow> ('w, AuthProfile) call"

text \<open>
  \<open>GetRevokedFamily\<close> is the one method whose caller looks at the pointer and not at the
  error, so it returns both.
\<close>

record 'w RefreshTokenRepository =
  Refresh_Save :: "RefreshRecord \<Rightarrow> ('w, unit) call"
  GetByHash :: "string \<Rightarrow> ('w, RefreshRecord) call"
  GetRevokedFamily :: "string \<Rightarrow> ('w, uuid option \<times> err option) state"
  Revoke :: "string \<Rightarrow> ('w, unit) call"
  RevokeFamily :: "uuid \<Rightarrow> ('w, unit) call"
  RevokeAllForUser :: "uuid \<Rightarrow> ('w, unit) call"

record 'w OneTimeTokenRepository =
  OneTime_Create :: "uuid \<Rightarrow> string \<Rightarrow> time \<Rightarrow> ('w, unit) call"
  OneTime_Consume :: "string \<Rightarrow> ('w, uuid) call"

record 'w AuditRepository =
  Audit_Log :: "AuditEntry \<Rightarrow> ('w, unit) call"

record 'w SessionStore =
  Session_Save :: "Session \<Rightarrow> duration \<Rightarrow> ('w, unit) call"
  Session_Delete :: "uuid \<Rightarrow> uuid \<Rightarrow> ('w, unit) call"
  Session_DeleteAllForUser :: "uuid \<Rightarrow> ('w, unit) call"

record 'w TokenBlacklist =
  Blacklist_Add :: "string \<Rightarrow> duration \<Rightarrow> ('w, unit) call"
  Blacklist_Exists :: "string \<Rightarrow> ('w, bool) call"

record 'w LoginLockout =
  IsLocked :: "string \<Rightarrow> ('w, bool) call"
  RecordFailure :: "string \<Rightarrow> int \<Rightarrow> duration \<Rightarrow> ('w, unit) call"
  Lockout_Clear :: "string \<Rightarrow> ('w, unit) call"

record 'w RateLimiter =
  Allow :: "string \<Rightarrow> int \<Rightarrow> duration \<Rightarrow> ('w, bool) call"

record 'w Mailer =
  Send :: "EmailMessage \<Rightarrow> ('w, unit) call"

end
