(* ===== verification/Uri.thy ===== *)
theory Uri
  imports GoNet Domain
begin

text \<open>
  \<open>pkg/uri/link.go\<close>: \<open>ActionLink\<close> puts a one-time token into the query of a configured
  base URL. \<open>url.Parse\<close> and \<open>URL.String\<close> are parameters; the query itself is the model of
  \<open>GoNet\<close>. The lemmas: only \<open>http\<close> and \<open>https\<close> URLs with a host give a link, and reading
  the query of the link back gives the token and every other parameter of the base.
\<close>

text \<open>
  The fields the code looks at; \<open>url_Rest\<close> stands for the others. \<open>url_Assemble\<close> is the text
  of a URL built from a scheme, user information, a host, a path and a query.
\<close>

record url =
  Scheme :: string
  Host :: string
  RawQuery :: string
  url_Rest :: string

record url_lib =
  url_Parse :: "string \<Rightarrow> url option"
  url_String :: "url \<Rightarrow> string"
  url_Assemble :: "string \<Rightarrow> (string \<times> string) option \<Rightarrow> string \<Rightarrow> string \<Rightarrow> string \<Rightarrow> string"

definition ActionLink :: "url_lib \<Rightarrow> string \<Rightarrow> string \<Rightarrow> err + string" where
  "ActionLink W base token =
     (case url_Parse W base of
        None \<Rightarrow> Inl ErrInvalidURL
      | Some u \<Rightarrow>
          if Scheme u \<noteq> ''http'' \<and> Scheme u \<noteq> ''https'' \<or> Host u = [] then Inl ErrInvalidURL
          else Inr (url_String W (u\<lparr>RawQuery :=
            values_Encode (values_Set ''token'' token (ParseQuery (RawQuery u)))\<rparr>)))"

definition link_query :: "string \<Rightarrow> string \<Rightarrow> string" where
  "link_query query token = values_Encode (values_Set ''token'' token (ParseQuery query))"

lemma ActionLink_ok:
  "ActionLink W base token = Inr l \<longleftrightarrow>
     (\<exists>u. url_Parse W base = Some u \<and> (Scheme u = ''http'' \<or> Scheme u = ''https'') \<and> Host u \<noteq> [] \<and>
       l = url_String W (u\<lparr>RawQuery := link_query (RawQuery u) token\<rparr>))"
  by (auto simp: ActionLink_def link_query_def split: option.splits)

lemma ActionLink_err: "ActionLink W base token = Inl e \<Longrightarrow> e = ErrInvalidURL"
  by (auto simp: ActionLink_def split: option.splits if_splits)

lemma link_query_lookup:
  "map_of (ParseQuery (link_query query token)) =
     (map_of (ParseQuery query))(''token'' \<mapsto> [token])"
proof -
  let ?q = "values_Set ''token'' token (ParseQuery query)"
  have ok: "distinct (map fst ?q)"
    by (rule conjunct1 [OF values_Set_ok(1) [OF ParseQuery_ok(1)]])
  have ne: "\<forall>(k, vs) \<in> set ?q. vs \<noteq> []" by (rule values_Set_ok(2) [OF ParseQuery_ok(2)])
  have "ParseQuery (link_query query token) = sort_key fst ?q"
    unfolding link_query_def by (rule parse_encode [OF ok ne])
  then show ?thesis
    using map_of_sort_key [OF ok] values_Set_lookup [OF ParseQuery_ok(1)] by simp
qed

text \<open>The token of a link, as the page behind it reads it.\<close>

definition token_of_link :: "url \<Rightarrow> string option" where
  "token_of_link u = (case map_of (ParseQuery (RawQuery u)) ''token'' of
     Some (t # _) \<Rightarrow> Some t | _ \<Rightarrow> None)"

lemma token_of_link_query:
  "token_of_link (u\<lparr>RawQuery := link_query (RawQuery u) token\<rparr>) = Some token"
  by (simp add: token_of_link_def link_query_lookup)

lemma ActionLink_link:
  assumes "ActionLink W base tok = Inr l"
  obtains u0 u where "url_Parse W base = Some u0" "l = url_String W u" "u = u0\<lparr>RawQuery := RawQuery u\<rparr>"
    "Scheme u = ''http'' \<or> Scheme u = ''https''" "Host u \<noteq> []" "token_of_link u = Some tok"
    "\<And>k. k \<noteq> ''token'' \<Longrightarrow> map_of (ParseQuery (RawQuery u)) k = map_of (ParseQuery (RawQuery u0)) k"
proof -
  from assms obtain u0 where u0: "url_Parse W base = Some u0" "Scheme u0 = ''http'' \<or> Scheme u0 = ''https''" "Host u0 \<noteq> []"
    "l = url_String W (u0\<lparr>RawQuery := link_query (RawQuery u0) tok\<rparr>)"
    unfolding ActionLink_ok by blast
  from that [OF u0(1), of "u0\<lparr>RawQuery := link_query (RawQuery u0) tok\<rparr>"] u0(2-4) show thesis
    by (simp add: token_of_link_query link_query_lookup)
qed

end
