(* ===== verification/Config.thy ===== *)
theory Config
  imports Uri
begin

text \<open>
  \<open>internal/config/config.go\<close>: the settings, \<open>Validate\<close>, \<open>IsProduction\<close>,
  \<open>ExposeDevTokens\<close>, \<open>Addr\<close>, \<open>DSN\<close>, and the settings of a process that configures
  nothing (\<open>Settings\<close> shows that \<open>Load\<close> comes to them). The lemmas give what a configuration that
  passed \<open>Validate\<close> guarantees.
\<close>

record AppConfig =
  app_Name :: string
  app_Environment :: string
  app_Version :: string

record HTTPConfig =
  http_Host :: string
  http_Port :: int
  http_ReadTimeout :: duration
  http_WriteTimeout :: duration
  http_IdleTimeout :: duration
  http_ShutdownTimeout :: duration
  http_AllowedOrigins :: "string list"
  http_MaxHeaderBytes :: int
  http_MetricsToken :: string
  http_TrustProxy :: bool

record PostgresConfig =
  pg_Host :: string
  pg_Port :: int
  pg_User :: string
  pg_Password :: string
  pg_Database :: string
  pg_SSLMode :: string
  pg_MaxOpenConns :: int
  pg_MaxIdleConns :: int
  pg_ConnMaxLifetime :: duration
  pg_ConnMaxIdleTime :: duration

record RedisConfig =
  redis_Addr :: string
  redis_Password :: string
  redis_DB :: int
  redis_PoolSize :: int
  redis_MinIdleConns :: int
  redis_DialTimeout :: duration
  redis_ReadTimeout :: duration
  redis_WriteTimeout :: duration

record JWTConfig =
  jwt_AccessSecret :: string
  jwt_RefreshSecret :: string
  jwt_AccessTTL :: duration
  jwt_RefreshTTL :: duration
  jwt_Issuer :: string
  jwt_RefreshCookieName :: string
  jwt_RefreshCookieSecure :: bool
  jwt_RefreshCookieDomain :: string
  jwt_RefreshCookiePath :: string
  jwt_RefreshCookieSameSite :: string

record EmailConfig =
  email_Enabled :: bool
  email_APIKey :: string
  email_From :: string
  email_VerifyLinkBase :: string
  email_ResetLinkBase :: string
  email_PerRecipientLimit :: int
  email_PerRecipientWindow :: duration

record SecurityConfig =
  sec_BcryptCost :: int
  sec_RateLimitRPM :: int
  sec_LoginRateLimitRPM :: int
  sec_RegisterRateLimitRPM :: int
  sec_RefreshRateLimitRPM :: int
  sec_SensitiveRateLimitRPM :: int
  sec_LoginMaxAttempts :: int
  sec_LoginLockoutDuration :: duration

record TelemetryConfig =
  tel_LogLevel :: string
  tel_OTLPEndpoint :: string
  tel_OTLPInsecure :: bool
  tel_TracingEnabled :: bool
  tel_MetricsEnabled :: bool

record Config =
  cfg_App :: AppConfig
  cfg_HTTP :: HTTPConfig
  cfg_Postgres :: PostgresConfig
  cfg_Redis :: RedisConfig
  cfg_JWT :: JWTConfig
  cfg_Email :: EmailConfig
  cfg_Security :: SecurityConfig
  cfg_Telemetry :: TelemetryConfig

subsection \<open>Derived settings\<close>

definition HTTPConfig_Addr :: "HTTPConfig \<Rightarrow> string" where
  "HTTPConfig_Addr h = http_Host h @ '':'' @ itoa (http_Port h)"

definition PostgresConfig_DSN :: "url_lib \<Rightarrow> PostgresConfig \<Rightarrow> string" where
  "PostgresConfig_DSN W p = url_Assemble W ''postgres''
     (if pg_User p \<noteq> [] then Some (pg_User p, pg_Password p) else None)
     (JoinHostPort (pg_Host p) (itoa (pg_Port p))) (pg_Database p)
     (values_Encode (values_Set ''sslmode'' (pg_SSLMode p) []))"

definition IsProduction :: "Config \<Rightarrow> bool" where
  "IsProduction c = EqualFold (app_Environment (cfg_App c)) ''production''"

definition ExposeDevTokens :: "Config \<Rightarrow> bool" where
  "ExposeDevTokens c \<longleftrightarrow> \<not> email_Enabled (cfg_Email c) \<or> \<not> IsProduction c"

subsection \<open>Validation\<close>

definition require :: "bool \<Rightarrow> string \<Rightarrow> err + unit \<Rightarrow> err + unit" where
  "require b msg k = (if b then k else Inl (ErrOther msg))"

definition and_then :: "err + unit \<Rightarrow> err + unit \<Rightarrow> err + unit" where
  "and_then r k = (case r of Inl e \<Rightarrow> Inl e | Inr _ \<Rightarrow> k)"

definition requireMinLen :: "string \<Rightarrow> string \<Rightarrow> nat \<Rightarrow> err + unit" where
  "requireMinLen field val n =
     (if length val < n
      then Inl (ErrOther (field @ '' must be at least '' @ itoa (int n) @ '' characters''))
      else Inr ())"

definition requireHTTPSURL :: "url_lib \<Rightarrow> string \<Rightarrow> string \<Rightarrow> err + unit" where
  "requireHTTPSURL W field raw =
     (case url_Parse W raw of
        None \<Rightarrow> Inl (ErrOther (field @ '': invalid url''))
      | Some u \<Rightarrow>
          if Host u = [] then Inl (ErrOther (field @ '': invalid url''))
          else if Scheme u \<noteq> ''http'' \<and> Scheme u \<noteq> ''https''
          then Inl (ErrOther (field @ '': scheme must be http or https''))
          else Inr ())"

fun check_origins :: "string list \<Rightarrow> err + unit" where
  "check_origins [] = Inr ()"
| "check_origins (ori # os) =
     (if ori = ''*'' then Inl (ErrOther ''http.allowed_origins must not contain wildcard when credentials are allowed'')
      else check_origins os)"

fun check_limits :: "(string \<times> int) list \<Rightarrow> err + unit" where
  "check_limits [] = Inr ()"
| "check_limits ((name, v) # ls) =
     (if v < 1 then Inl (ErrOther (name @ '' must be >= 1'')) else check_limits ls)"

definition limits_of :: "SecurityConfig \<Rightarrow> (string \<times> int) list" where
  "limits_of s = [(''security.rate_limit_rpm'', sec_RateLimitRPM s),
     (''security.login_rate_limit_rpm'', sec_LoginRateLimitRPM s),
     (''security.register_rate_limit_rpm'', sec_RegisterRateLimitRPM s),
     (''security.refresh_rate_limit_rpm'', sec_RefreshRateLimitRPM s),
     (''security.sensitive_rate_limit_rpm'', sec_SensitiveRateLimitRPM s)]"

definition check_production :: "Config \<Rightarrow> err + unit" where
  "check_production c =
     (if IsProduction c then
        require (jwt_RefreshCookieSecure (cfg_JWT c))
          ''jwt.refresh_cookie_secure must be true in production''
        (require (http_AllowedOrigins (cfg_HTTP c) \<noteq> [])
          ''http.allowed_origins must be set in production''
        (check_origins (http_AllowedOrigins (cfg_HTTP c))))
      else Inr ())"

definition check_email :: "url_lib \<Rightarrow> EmailConfig \<Rightarrow> err + unit" where
  "check_email W e =
     (if email_Enabled e then
        require (email_APIKey e \<noteq> []) ''email.api_key is required when email.enabled is true''
        (require (email_From e \<noteq> []) ''email.from is required when email.enabled is true''
        (require (email_VerifyLinkBase e \<noteq> [] \<and> email_ResetLinkBase e \<noteq> [])
          ''email.verify_link_base and email.reset_link_base are required when email.enabled is true''
        (and_then (requireHTTPSURL W ''email.verify_link_base'' (email_VerifyLinkBase e))
        (and_then (requireHTTPSURL W ''email.reset_link_base'' (email_ResetLinkBase e))
        (require (1 \<le> email_PerRecipientLimit e) ''email.per_recipient_limit must be >= 1''
        (require (minute \<le> email_PerRecipientWindow e) ''email.per_recipient_window must be >= 1m''
        (Inr ())))))))
      else Inr ())"

definition Config_Validate :: "url_lib \<Rightarrow> Config \<Rightarrow> err + unit" where
  "Config_Validate W c =
     and_then (requireMinLen ''jwt.access_secret'' (jwt_AccessSecret (cfg_JWT c)) 32)
     (and_then (check_production c)
     (require (pg_User (cfg_Postgres c) \<noteq> [] \<and> pg_Database (cfg_Postgres c) \<noteq> [])
       ''postgres.user and postgres.database are required''
     (require (redis_Addr (cfg_Redis c) \<noteq> []) ''redis.addr is required''
     (require (\<not> (IsProduction c \<and> pg_SSLMode (cfg_Postgres c) = ''disable''))
       ''postgres.sslmode must not be disable in production''
     (require (10 \<le> sec_BcryptCost (cfg_Security c) \<and> sec_BcryptCost (cfg_Security c) \<le> 14)
       ''security.bcrypt_cost must be between 10 and 14''
     (and_then (check_email W (cfg_Email c))
     (check_limits (limits_of (cfg_Security c)))))))))"

text \<open>The defaults, with the zero value for a key that has none.\<close>

definition default_config :: Config where
  "default_config = \<lparr>
     cfg_App = \<lparr>app_Name = ''auth-service'', app_Environment = ''development'', app_Version = ''0.1.0''\<rparr>,
     cfg_HTTP = \<lparr>http_Host = ''0.0.0.0'', http_Port = 8080, http_ReadTimeout = 15 * second,
       http_WriteTimeout = 15 * second, http_IdleTimeout = 60 * second,
       http_ShutdownTimeout = 10 * second, http_AllowedOrigins = [''http://localhost:3000''],
       http_MaxHeaderBytes = 1048576, http_MetricsToken = [], http_TrustProxy = False\<rparr>,
     cfg_Postgres = \<lparr>pg_Host = ''localhost'', pg_Port = 5432, pg_User = ''auth'',
       pg_Password = ''auth'', pg_Database = ''auth'', pg_SSLMode = ''disable'',
       pg_MaxOpenConns = 25, pg_MaxIdleConns = 10, pg_ConnMaxLifetime = 30 * minute,
       pg_ConnMaxIdleTime = 5 * minute\<rparr>,
     cfg_Redis = \<lparr>redis_Addr = ''localhost:6379'', redis_Password = [], redis_DB = 0,
       redis_PoolSize = 10, redis_MinIdleConns = 2, redis_DialTimeout = 5 * second,
       redis_ReadTimeout = 3 * second, redis_WriteTimeout = 3 * second\<rparr>,
     cfg_JWT = \<lparr>jwt_AccessSecret = [], jwt_RefreshSecret = [], jwt_AccessTTL = 15 * minute,
       jwt_RefreshTTL = 168 * hour, jwt_Issuer = ''auth-service'',
       jwt_RefreshCookieName = ''refresh_token'', jwt_RefreshCookieSecure = False,
       jwt_RefreshCookieDomain = [], jwt_RefreshCookiePath = ''/'',
       jwt_RefreshCookieSameSite = ''Strict''\<rparr>,
     cfg_Email = \<lparr>email_Enabled = False, email_APIKey = [], email_From = [],
       email_VerifyLinkBase = ''http://localhost:3000/verify-email'',
       email_ResetLinkBase = ''http://localhost:3000/reset-password'',
       email_PerRecipientLimit = 5, email_PerRecipientWindow = hour\<rparr>,
     cfg_Security = \<lparr>sec_BcryptCost = 12, sec_RateLimitRPM = 120, sec_LoginRateLimitRPM = 10,
       sec_RegisterRateLimitRPM = 30, sec_RefreshRateLimitRPM = 20,
       sec_SensitiveRateLimitRPM = 5, sec_LoginMaxAttempts = 5,
       sec_LoginLockoutDuration = 15 * minute\<rparr>,
     cfg_Telemetry = \<lparr>tel_LogLevel = ''info'', tel_OTLPEndpoint = [], tel_OTLPInsecure = True,
       tel_TracingEnabled = False, tel_MetricsEnabled = True\<rparr>\<rparr>"

subsection \<open>What a validated configuration guarantees\<close>

lemma require_ok: "require b m k = Inr u \<longleftrightarrow> b \<and> k = Inr u"
  by (simp add: require_def)

lemma and_then_ok: "and_then r k = Inr u \<longleftrightarrow> r = Inr () \<and> k = Inr u"
  by (cases r) (simp_all add: and_then_def)

lemma requireMinLen_ok: "requireMinLen f v n = Inr u \<longleftrightarrow> n \<le> length v"
  by (simp add: requireMinLen_def not_less)

lemma requireHTTPSURL_ok:
  "requireHTTPSURL W f raw = Inr u \<longleftrightarrow>
     (\<exists>x. url_Parse W raw = Some x \<and> Host x \<noteq> [] \<and> (Scheme x = ''http'' \<or> Scheme x = ''https''))"
  by (auto simp: requireHTTPSURL_def split: option.splits)

lemma check_origins_ok: "check_origins os = Inr u \<longleftrightarrow> ''*'' \<notin> set os"
  by (induction os) auto

lemma check_limits_ok: "check_limits ls = Inr u \<longleftrightarrow> (\<forall>(n, v) \<in> set ls. 1 \<le> v)"
  by (induction ls rule: check_limits.induct) auto

lemmas validate_ok_iffs = require_ok and_then_ok requireMinLen_ok requireHTTPSURL_ok
  check_origins_ok check_limits_ok

lemma validated_production:
  assumes "Config_Validate W c = Inr u" "IsProduction c"
  shows "jwt_RefreshCookieSecure (cfg_JWT c)" "http_AllowedOrigins (cfg_HTTP c) \<noteq> []"
    "''*'' \<notin> set (http_AllowedOrigins (cfg_HTTP c))" "pg_SSLMode (cfg_Postgres c) \<noteq> ''disable''"
  using assms by (simp_all add: Config_Validate_def check_production_def validate_ok_iffs)

lemma validated_always:
  assumes "Config_Validate W c = Inr u"
  shows "32 \<le> length (jwt_AccessSecret (cfg_JWT c))"
    "10 \<le> sec_BcryptCost (cfg_Security c)" "sec_BcryptCost (cfg_Security c) \<le> 14"
    "\<forall>(n, v) \<in> set (limits_of (cfg_Security c)). 1 \<le> v"
  using assms by (simp_all add: Config_Validate_def validate_ok_iffs)

lemma validated_email:
  assumes "Config_Validate W c = Inr u" "email_Enabled (cfg_Email c)"
  shows "\<exists>l. ActionLink W (email_VerifyLinkBase (cfg_Email c)) token = Inr l"
    "\<exists>l. ActionLink W (email_ResetLinkBase (cfg_Email c)) token = Inr l"
    "1 \<le> email_PerRecipientLimit (cfg_Email c)" "minute \<le> email_PerRecipientWindow (cfg_Email c)"
proof -
  have "check_email W (cfg_Email c) = Inr ()"
    using assms(1) by (simp add: Config_Validate_def validate_ok_iffs)
  note e = this [unfolded check_email_def if_P [OF assms(2)] validate_ok_iffs]
  show "\<exists>l. ActionLink W (email_VerifyLinkBase (cfg_Email c)) token = Inr l"
    "\<exists>l. ActionLink W (email_ResetLinkBase (cfg_Email c)) token = Inr l"
    unfolding ActionLink_ok using e by blast+
  show "1 \<le> email_PerRecipientLimit (cfg_Email c)" "minute \<le> email_PerRecipientWindow (cfg_Email c)"
    using e by blast+
qed

end
