(* ===== verification/World.thy ===== *)
theory World
  imports Domain
begin

text \<open>
  The outside world of the process. A request handler meets it through numbered interactions: a
  reading of the clock, a draw of random bytes, a fresh UUID, a call of a library that draws its
  own randomness, a statement sent to Postgres, a mail handed to Resend. The record \<open>env\<close>
  says, for each interaction number, how it turns out; a statement about every \<open>env\<close> is a
  statement about every behaviour of the outside world:
  \<^item> \<open>delay_at n\<close>: the nanoseconds that pass before interaction \<open>n\<close> (the clock never
    goes back);
  \<^item> \<open>fate_at n\<close>: whether a remote call succeeds, is lost before it takes effect, or takes
    effect and then reports an error (a timeout, a broken connection, a cancelled context);
  \<^item> \<open>rnd_at n\<close>: what \<open>crypto/rand.Read\<close> delivers (or that it fails);
  \<^item> \<open>uuid_at n\<close>: the UUID that \<open>uuid.New\<close> or Postgres' \<open>gen_random_uuid\<close> draws.
  The world is polymorphic in the state of the database and of the Redis server. The Go process
  and the database read the same clock; \<open>w_wait\<close> tells the Redis server, whose keys expire on
  its own clock, that time passed.
\<close>

datatype fate = Done | FailBefore string | FailAfter string

record env =
  fate_at :: "nat \<Rightarrow> fate"
  delay_at :: "nat \<Rightarrow> nat"
  rnd_at :: "nat \<Rightarrow> (nat \<Rightarrow> char) option"
  uuid_at :: "nat \<Rightarrow> uuid"

record ('d, 'r) world =
  w_env :: env
  w_ticks :: nat
  w_clock :: time
  w_pg :: 'd
  w_redis :: 'r
  w_wait :: "nat \<Rightarrow> 'r \<Rightarrow> 'r"
  w_outbox :: "(string \<times> EmailMessage) list"

subsection \<open>Interactions\<close>

definition advance :: "('d, 'r) world \<Rightarrow> ('d, 'r) world" where
  "advance w = w\<lparr>w_ticks := Suc (w_ticks w),
     w_clock := w_clock w + int (delay_at (w_env w) (w_ticks w)),
     w_redis := w_wait w (delay_at (w_env w) (w_ticks w)) (w_redis w)\<rparr>"

definition time_Now :: "(('d, 'r) world, time) state" where
  "time_Now = State (\<lambda>w. (w_clock (advance w), advance w))"

definition uuid_New :: "(('d, 'r) world, uuid) state" where
  "uuid_New = State (\<lambda>w. (uuid_at (w_env w) (w_ticks w), advance w))"

text \<open>\<open>rand.Read(b)\<close> with \<open>len(b) = n\<close>.\<close>

definition rand_Read :: "nat \<Rightarrow> (('d, 'r) world, string) call" where
  "rand_Read n = State (\<lambda>w.
     (case rnd_at (w_env w) (w_ticks w) of
        None \<Rightarrow> Inl (ErrOther ''rand'')
      | Some f \<Rightarrow> Inr (map f [0..<n]), advance w))"

text \<open>A library function that draws randomness of its own: it gets the interaction number.\<close>

definition ext_call :: "(nat \<Rightarrow> 'a) \<Rightarrow> (('d, 'r) world, 'a) state" where
  "ext_call f = State (\<lambda>w. (f (w_ticks w), advance w))"

text \<open>
  One SQL statement: it sees the transaction time (\<open>NOW()\<close>), a fresh UUID for a
  \<open>gen_random_uuid()\<close> default, and the tables.
\<close>

definition pg_stmt ::
    "(time \<Rightarrow> uuid \<Rightarrow> 'd \<Rightarrow> (err + 'a) \<times> 'd) \<Rightarrow> (('d, 'r) world, 'a) call" where
  "pg_stmt f = State (\<lambda>w.
     let w1 = advance w; (r, d) = f (w_clock w1) (uuid_at (w_env w) (w_ticks w)) (w_pg w1)
     in case fate_at (w_env w) (w_ticks w) of
          Done \<Rightarrow> (r, w1\<lparr>w_pg := d\<rparr>)
        | FailBefore m \<Rightarrow> (Inl (ErrOther m), w1)
        | FailAfter m \<Rightarrow> (Inl (ErrOther m), w1\<lparr>w_pg := d\<rparr>))"

text \<open>A statement that only reads: its error is the connection's or the one it computes.\<close>

definition pg_query :: "(time \<Rightarrow> 'd \<Rightarrow> err + 'a) \<Rightarrow> (('d, 'r) world, 'a) call" where
  "pg_query f = pg_stmt (\<lambda>now u d. (f now d, d))"

text \<open>
  One round trip of the Redis client: a command, a script or a pipeline acts on the Redis server's
  part of the world. Its faults are the client's own.
\<close>

definition on_redis :: "('r, 'a) state \<Rightarrow> (('d, 'r) world, 'a) state" where
  "on_redis m = State (\<lambda>w. let w1 = advance w in
     case run_state m (w_redis w1) of (x, r) \<Rightarrow> (x, w1\<lparr>w_redis := r\<rparr>))"

definition send_mail :: "string \<Rightarrow> EmailMessage \<Rightarrow> (('d, 'r) world, unit) call" where
  "send_mail from msg = State (\<lambda>w.
     let w1 = advance w; w2 = w1\<lparr>w_outbox := w_outbox w1 @ [(from, msg)]\<rparr>
     in case fate_at (w_env w) (w_ticks w) of
          Done \<Rightarrow> (Inr (), w2)
        | FailBefore m \<Rightarrow> (Inl (ErrOther m), w1)
        | FailAfter m \<Rightarrow> (Inl (ErrOther m), w2))"

subsection \<open>Facts about interactions\<close>

lemma advance_simps [simp]:
  "w_env (advance w) = w_env w"
  "w_ticks (advance w) = Suc (w_ticks w)"
  "w_clock (advance w) = w_clock w + int (delay_at (w_env w) (w_ticks w))"
  "w_pg (advance w) = w_pg w"
  "w_wait (advance w) = w_wait w"
  "w_redis (advance w) = w_wait w (delay_at (w_env w) (w_ticks w)) (w_redis w)"
  "w_outbox (advance w) = w_outbox w"
  by (simp_all add: advance_def)

lemma run_time_Now [run_simps]: "run_state time_Now w = (w_clock (advance w), advance w)"
  by (simp add: time_Now_def)

lemma run_uuid_New [run_simps]:
  "run_state uuid_New w = (uuid_at (w_env w) (w_ticks w), advance w)"
  by (simp add: uuid_New_def)

lemma run_rand_Read [run_simps]:
  "run_state (rand_Read n) w =
     (case rnd_at (w_env w) (w_ticks w) of
        None \<Rightarrow> Inl (ErrOther ''rand'') | Some f \<Rightarrow> Inr (map f [0..<n]), advance w)"
  by (simp add: rand_Read_def)

lemma run_ext_call [run_simps]: "run_state (ext_call f) w = (f (w_ticks w), advance w)"
  by (simp add: ext_call_def)

lemma run_pg_stmt:
  "run_state (pg_stmt f) w =
     (let w1 = advance w; (r, d) = f (w_clock w1) (uuid_at (w_env w) (w_ticks w)) (w_pg w)
      in case fate_at (w_env w) (w_ticks w) of
           Done \<Rightarrow> (r, w1\<lparr>w_pg := d\<rparr>)
         | FailBefore m \<Rightarrow> (Inl (ErrOther m), w1)
         | FailAfter m \<Rightarrow> (Inl (ErrOther m), w1\<lparr>w_pg := d\<rparr>))"
  by (simp add: pg_stmt_def)

lemma run_on_redis [run_simps]:
  "run_state (on_redis m) w =
     (case run_state m (w_redis (advance w)) of (x, r) \<Rightarrow> (x, (advance w)\<lparr>w_redis := r\<rparr>))"
  by (simp add: on_redis_def Let_def)

text \<open>
  A statement that returned a result took effect; one that returned an error took effect, or did
  not and the connection failed.
\<close>

lemma pg_stmt_Inr:
  assumes "run_state (pg_stmt f) w = (Inr x, w')"
  shows "\<exists>d. f (w_clock (advance w)) (uuid_at (w_env w) (w_ticks w)) (w_pg w) = (Inr x, d) \<and>
    w' = (advance w)\<lparr>w_pg := d\<rparr>"
  using assms by (auto simp: run_pg_stmt Let_def split: prod.splits fate.splits)

lemma pg_stmt_Inl:
  assumes "run_state (pg_stmt f) w = (Inl e, w')"
  shows "(\<exists>r d. f (w_clock (advance w)) (uuid_at (w_env w) (w_ticks w)) (w_pg w) = (r, d) \<and>
      w' = (advance w)\<lparr>w_pg := d\<rparr> \<and> (r = Inl e \<or> (\<exists>m. e = ErrOther m)))
    \<or> (w' = advance w \<and> (\<exists>m. e = ErrOther m))"
  using assms by (auto simp: run_pg_stmt Let_def split: prod.splits fate.splits)

lemma world_pg_self [simp]: "(w :: ('d, 'r) world)\<lparr>w_pg := w_pg w\<rparr> = w"
  by simp

lemma pg_query_Inr:
  assumes "run_state (pg_query f) w = (Inr x, w')"
  shows "f (w_clock (advance w)) (w_pg w) = Inr x" "w' = advance w"
  using pg_stmt_Inr [OF assms [unfolded pg_query_def]] by (auto simp: advance_def)

lemma pg_query_world: "snd (run_state (pg_query f) w) = advance w"
  by (simp add: pg_query_def run_pg_stmt advance_def Let_def split: fate.splits)

text \<open>
  \<open>healthy n w\<close>: the next \<open>n\<close> remote calls succeed. Under it a statement is its SQL.
\<close>

definition healthy :: "('d, 'r) world \<Rightarrow> bool" where
  "healthy w \<longleftrightarrow> (\<forall>n \<ge> w_ticks w. fate_at (w_env w) n = Done)"

lemma healthy_advance [simp, intro]: "healthy w \<Longrightarrow> healthy (advance w)"
  by (simp add: healthy_def)

lemma healthy_pg_update [simp]: "healthy (w\<lparr>w_pg := d\<rparr>) = healthy w"
  by (simp add: healthy_def)

lemma healthy_redis_update [simp]: "healthy (w\<lparr>w_redis := r\<rparr>) = healthy w"
  by (simp add: healthy_def)

lemma run_pg_stmt_healthy:
  assumes "healthy w"
  shows "run_state (pg_stmt f) w =
    (case f (w_clock (advance w)) (uuid_at (w_env w) (w_ticks w)) (w_pg w) of
       (r, d) \<Rightarrow> (r, (advance w)\<lparr>w_pg := d\<rparr>))"
proof -
  have "fate_at (w_env w) (w_ticks w) = Done" using assms by (simp add: healthy_def)
  then show ?thesis by (simp add: run_pg_stmt Let_def split: prod.splits)
qed

lemma run_pg_query_healthy:
  "healthy w \<Longrightarrow>
     run_state (pg_query f) w = (f (w_clock (advance w)) (w_pg w), advance w)"
  by (simp add: pg_query_def run_pg_stmt_healthy advance_def)

subsection \<open>What interactions leave alone\<close>

text \<open>\<open>later w w'\<close>: the clock and the interaction counter only move forward.\<close>

definition later :: "('d, 'r) world \<Rightarrow> ('d, 'r) world \<Rightarrow> bool" where
  "later w w' \<longleftrightarrow>
     w_env w' = w_env w \<and> w_wait w' = w_wait w \<and> w_ticks w \<le> w_ticks w' \<and> w_clock w \<le> w_clock w'"

lemma preorder_later [simp, intro]: "preorder_rel later"
  by (auto simp: preorder_rel_def later_def)

lemma later_advance [simp]: "later w (advance w)"
  by (simp add: later_def)

lemma later_refl [simp]: "later w w"
  by (simp add: later_def)

lemma later_trans: "later w w' \<Longrightarrow> later w' w'' \<Longrightarrow> later w w''"
  by (auto simp: later_def)

lemma later_pg [simp]: "later w (w'\<lparr>w_pg := d\<rparr>) = later w w'"
  by (simp add: later_def)

lemma healthy_later: "later w w' \<Longrightarrow> healthy w \<Longrightarrow> healthy w'"
  by (auto simp: later_def healthy_def)

lemma effect_later [keep_intros]:
  "effect later time_Now" "effect later uuid_New" "effect later (rand_Read n)"
  "effect later (ext_call g)" "effect later (pg_stmt f)" "effect later (pg_query q)"
  "effect later (on_redis m)" "effect later (send_mail from msg)"
  by (auto simp: effect_def run_simps run_pg_stmt send_mail_def pg_query_def later_def Let_def
      split: prod.splits fate.splits)


text \<open>
  \<open>pg_rel R\<close>: the tables change only along \<open>R\<close>. Every statement does when its SQL does,
  and what does not go to the database leaves the tables alone.
\<close>

definition pg_rel :: "('d \<Rightarrow> 'd \<Rightarrow> bool) \<Rightarrow> ('d, 'r) world \<Rightarrow> ('d, 'r) world \<Rightarrow> bool" where
  "pg_rel R w w' \<longleftrightarrow> R (w_pg w) (w_pg w')"

lemma preorder_pg_rel [simp, intro]: "preorder_rel R \<Longrightarrow> preorder_rel (pg_rel R)"
  unfolding preorder_rel_def pg_rel_def by blast

lemma preorder_refl: "preorder_rel R \<Longrightarrow> R s s"
  by (simp add: preorder_rel_def)

lemma effect_pg_rel [keep_intros]:
  assumes "preorder_rel R"
  shows "effect (pg_rel R) time_Now" "effect (pg_rel R) uuid_New" "effect (pg_rel R) (rand_Read n)"
    "effect (pg_rel R) (ext_call g)" "effect (pg_rel R) (on_redis m)"
    "effect (pg_rel R) (pg_query q)" "effect (pg_rel R) (send_mail from msg)"
  using preorder_refl [OF assms]
  by (auto simp: effect_def run_simps pg_query_world send_mail_def pg_rel_def Let_def
      split: prod.splits fate.splits)

lemma effect_pg_rel_stmt:
  fixes R :: "'d \<Rightarrow> 'd \<Rightarrow> bool" and f :: "time \<Rightarrow> uuid \<Rightarrow> 'd \<Rightarrow> (err + 'a) \<times> 'd"
  assumes "preorder_rel R" "\<And>now u d. R d (snd (f now u d))"
  shows "effect (pg_rel R) (pg_stmt f)"
proof -
  have "R (w_pg w) (w_pg (snd (run_state (pg_stmt f) w)))" for w :: "('d, 'r') world"
    using preorder_refl [OF assms(1)]
      assms(2) [of "w_pg w" "w_clock (advance w)" "uuid_at (w_env w) (w_ticks w)"]
    by (auto simp: run_pg_stmt Let_def split: prod.splits fate.splits)
  then show ?thesis unfolding effect_def pg_rel_def by blast
qed

end
