(* ===== verification/Tokens.thy ===== *)
theory Tokens
  imports World
begin

text \<open>
  \<open>pkg/token\<close>, \<open>pkg/password\<close> and the use of \<open>google/uuid\<close>. SHA-256, bcrypt and the
  text form of a UUID are parameters (records \<open>crypto_lib\<close> and \<open>uuid_lib\<close>); random bytes
  come from the world. The lemmas give the shape of a token and of a digest: 64 lower-case
  hexadecimal digits, and distinct random bytes give distinct tokens.
\<close>

text \<open>
  \<open>bcrypt_Generate n p cost\<close> draws its salt, so it also gets the number of the interaction;
  \<open>bcrypt_Compare h p\<close> is \<open>None\<close> on a match.
\<close>

record crypto_lib =
  sha256_Sum :: "string \<Rightarrow> string"
  bcrypt_Generate :: "nat \<Rightarrow> string \<Rightarrow> int \<Rightarrow> err + string"
  bcrypt_Compare :: "string \<Rightarrow> string \<Rightarrow> err option"

record uuid_lib =
  uuid_String :: "uuid \<Rightarrow> string"
  uuid_Parse :: "string \<Rightarrow> uuid option"

subsection \<open>Package token\<close>

definition token_Random :: "nat \<Rightarrow> (('d, 'r) world, string) call" where
  "token_Random n = do {
     b \<leftarrow> rand_Read n;
     (case b of
        Inl e \<Rightarrow> fail (Wrapped ''random bytes'' e)
      | Inr bs \<Rightarrow> ok (hex_EncodeToString bs)) }"

definition token_Hash :: "crypto_lib \<Rightarrow> string \<Rightarrow> string" where
  "token_Hash C value = hex_EncodeToString (sha256_Sum C value)"

subsection \<open>Package password\<close>

definition password_Hash :: "crypto_lib \<Rightarrow> string \<Rightarrow> int \<Rightarrow> (('d, 'r) world, string) call" where
  "password_Hash C plain cost = ext_call (\<lambda>n. bcrypt_Generate C n plain cost)"

definition password_Compare :: "crypto_lib \<Rightarrow> string \<Rightarrow> string \<Rightarrow> err option" where
  "password_Compare C hash plain = bcrypt_Compare C hash plain"

subsection \<open>What the code relies on\<close>

definition sha256_spec :: "crypto_lib \<Rightarrow> bool" where
  "sha256_spec C \<longleftrightarrow> (\<forall>v. length (sha256_Sum C v) = 32)"

text \<open>bcrypt refuses more than 72 bytes, and the hash it returns matches the password.\<close>

definition bcrypt_spec :: "crypto_lib \<Rightarrow> bool" where
  "bcrypt_spec C \<longleftrightarrow>
     (\<forall>n p cost. 72 < length p \<longrightarrow> (\<exists>e. bcrypt_Generate C n p cost = Inl (ErrOther e))) \<and>
     (\<forall>n p cost h. bcrypt_Generate C n p cost = Inr h \<longrightarrow> bcrypt_Compare C h p = None)"

subsection \<open>Shape of tokens and digests\<close>

definition token_shape :: "string \<Rightarrow> bool" where
  "token_shape t \<longleftrightarrow> length t = 64 \<and> (\<forall>c \<in> set t. is_hex_digit c)"

lemma token_Random_Inr:
  assumes "run_state (token_Random n) w = (Inr t, w')"
  shows "\<exists>f. rnd_at (w_env w) (w_ticks w) = Some f \<and> t = hex_EncodeToString (map f [0..<n]) \<and>
    w' = advance w"
  using assms by (auto simp: token_Random_def run_simps split: option.splits)

lemma token_Random_Inl:
  "run_state (token_Random n) w = (Inl e, w') \<Longrightarrow>
     e = Wrapped ''random bytes'' (ErrOther ''rand'') \<and> w' = advance w"
  by (auto simp: token_Random_def run_simps split: option.splits)

lemma token_Random_shape:
  assumes "run_state (token_Random 32) w = (Inr t, w')"
  shows "token_shape t"
  using token_Random_Inr [OF assms] by (auto simp: token_shape_def length_hex dest: hex_alphabet)

lemma token_Hash_shape: "sha256_spec C \<Longrightarrow> token_shape (token_Hash C v)"
  by (auto simp: token_shape_def token_Hash_def sha256_spec_def length_hex dest: hex_alphabet)

lemma token_Hash_eq: "token_Hash C a = token_Hash C b \<longleftrightarrow> sha256_Sum C a = sha256_Sum C b"
  by (simp add: token_Hash_def hex_inj)

lemma token_shape_nonempty: "token_shape t \<Longrightarrow> t \<noteq> []"
  by (auto simp: token_shape_def)

lemma token_effects [keep_intros]:
  "effect later (token_Random n)" "effect later (password_Hash C p cost)"
  "preorder_rel R \<Longrightarrow> effect (pg_rel R) (token_Random n)"
  "preorder_rel R \<Longrightarrow> effect (pg_rel R) (password_Hash C p cost)"
  unfolding token_Random_def password_Hash_def
  by (intro keep_intros preorder_later preorder_pg_rel; assumption)+

lemma run_password_Hash [run_simps]:
  "run_state (password_Hash C p cost) w = (bcrypt_Generate C (w_ticks w) p cost, advance w)"
  by (simp add: password_Hash_def run_simps)

end
