(* ===== verification/Jwt.thy ===== *)
theory Jwt
  imports Config Tokens
begin

text \<open>
  \<open>internal/infrastructure/jwt/jwt.go\<close> (access tokens) and \<open>internal/infrastructure/resend\<close>
  (outbound mail). The JWT library is a parameter: \<open>jwt_lib\<close> has \<open>SignedString\<close> and
  \<open>ParseWithClaims\<close>, and \<open>jwt_spec\<close> is its documented behaviour: a parsed token was signed
  with the key the key function returned, under an accepted method, carries the required issuer
  (an empty one is not checked) and has not expired; and what was signed parses back. \<open>genuine\<close> says which claims a token
  carries under a method and a key.
\<close>

record Claims =
  claim_UserID :: string
  claim_Email :: string
  claim_Role :: string
  claim_Permissions :: "string list"
  claim_SessionID :: string
  claim_ID :: string
  claim_Issuer :: string
  claim_Subject :: string
  claim_IssuedAt :: "time option"
  claim_ExpiresAt :: "time option"

record jwt_lib =
  SignedString :: "string \<Rightarrow> string \<Rightarrow> Claims \<Rightarrow> err + string"
  ParseWithClaims :: "string \<Rightarrow> (string \<Rightarrow> err + string) \<Rightarrow> string list \<Rightarrow> string \<Rightarrow> time \<Rightarrow> err + Claims \<times> bool"
  genuine :: "string \<Rightarrow> string \<Rightarrow> string \<Rightarrow> Claims \<Rightarrow> bool"

text \<open>\<open>jwt.NewNumericDate\<close> keeps whole seconds.\<close>

definition NumericDate :: "time \<Rightarrow> time" where
  "NumericDate t = (t div nanos) * nanos"

definition claims_plain :: "Claims \<Rightarrow> bool" where
  "claims_plain c \<longleftrightarrow>
     (\<forall>t. claim_IssuedAt c = Some t \<or> claim_ExpiresAt c = Some t \<longrightarrow> NumericDate t = t) \<and>
     valid_utf8 (claim_Email c) \<and> valid_utf8 (claim_Role c) \<and>
     (\<forall>p \<in> set (claim_Permissions c). valid_utf8 p) \<and> valid_utf8 (claim_Issuer c) \<and>
     valid_utf8 (claim_UserID c) \<and> valid_utf8 (claim_SessionID c) \<and> valid_utf8 (claim_ID c) \<and>
     valid_utf8 (claim_Subject c)"

definition jwt_spec :: "jwt_lib \<Rightarrow> bool" where
  "jwt_spec J \<longleftrightarrow>
     (\<forall>tok kf ms iss now c v. ParseWithClaims J tok kf ms iss now = Inr (c, v) \<longrightarrow>
        v \<and> (iss \<noteq> [] \<longrightarrow> claim_Issuer c = iss) \<and> (\<forall>e. claim_ExpiresAt c = Some e \<longrightarrow> now < e) \<and>
        (\<exists>alg key. alg \<in> set ms \<and> kf alg = Inr key \<and> genuine J alg key tok c)) \<and>
     (\<forall>alg key tok c kf ms now. SignedString J alg key c = Inr tok \<and> claims_plain c \<and>
        alg \<in> set ms \<and> kf alg = Inr key \<and> (\<forall>e. claim_ExpiresAt c = Some e \<longrightarrow> now < e) \<longrightarrow>
        ParseWithClaims J tok kf ms (claim_Issuer c) now = Inr (c, True))"

subsection \<open>The service\<close>

record JwtService =
  jwts_secret :: string
  jwts_accessTTL :: duration
  jwts_refreshTTL :: duration
  jwts_issuer :: string

definition jwt_NewService :: "JWTConfig \<Rightarrow> JwtService" where
  "jwt_NewService c = \<lparr>jwts_secret = jwt_AccessSecret c, jwts_accessTTL = jwt_AccessTTL c,
     jwts_refreshTTL = jwt_RefreshTTL c, jwts_issuer = jwt_Issuer c\<rparr>"

record IssueInput =
  iss_UserID :: uuid
  iss_Email :: string
  iss_Role :: string
  iss_Permissions :: "string list"
  iss_SessionID :: uuid

definition access_claims ::
    "uuid_lib \<Rightarrow> JwtService \<Rightarrow> IssueInput \<Rightarrow> time \<Rightarrow> uuid \<Rightarrow> Claims" where
  "access_claims V s i now jti =
     \<lparr>claim_UserID = uuid_String V (iss_UserID i), claim_Email = iss_Email i, claim_Role = iss_Role i,
      claim_Permissions = iss_Permissions i, claim_SessionID = uuid_String V (iss_SessionID i),
      claim_ID = uuid_String V jti, claim_Issuer = jwts_issuer s,
      claim_Subject = uuid_String V (iss_UserID i), claim_IssuedAt = Some (NumericDate now),
      claim_ExpiresAt = Some (NumericDate (now + jwts_accessTTL s))\<rparr>"

definition jwt_IssueAccess ::
    "jwt_lib \<Rightarrow> uuid_lib \<Rightarrow> JwtService \<Rightarrow> IssueInput \<Rightarrow> (('d, 'r) world, string \<times> time) call" where
  "jwt_IssueAccess J V s i = do {
     now \<leftarrow> time_Now;
     jti \<leftarrow> uuid_New;
     (case SignedString J ''HS256'' (jwts_secret s) (access_claims V s i now jti) of
        Inl e \<Rightarrow> fail e
      | Inr tok \<Rightarrow> ok (tok, now + jwts_accessTTL s)) }"

definition keyfunc :: "JwtService \<Rightarrow> string \<Rightarrow> err + string" where
  "keyfunc s alg =
     (if alg \<noteq> ''HS256'' then Inl (ErrOther ''unexpected signing method'') else Inr (jwts_secret s))"

definition jwt_ParseAccess ::
    "jwt_lib \<Rightarrow> JwtService \<Rightarrow> string \<Rightarrow> (('d, 'r) world, Claims) call" where
  "jwt_ParseAccess J s tok = do {
     now \<leftarrow> time_Now;
     (case ParseWithClaims J tok (keyfunc s) [''HS256''] (jwts_issuer s) now of
        Inl e \<Rightarrow> fail e
      | Inr (claims, valid) \<Rightarrow>
          if \<not> valid then fail (ErrOther ''invalid token'') else ok claims) }"

subsection \<open>Outbound mail\<close>

definition resend_Send :: "string \<Rightarrow> EmailMessage \<Rightarrow> (('d, 'r) world, unit) call" where
  "resend_Send from msg =
     guard_err (mail_To msg = [] \<or> mail_Subject msg = []) (ErrOther ''resend: missing to or subject'')
     (do { r \<leftarrow> send_mail from msg;
       (case r of Inl e \<Rightarrow> fail (Wrapped ''resend send'' e) | Inr _ \<Rightarrow> ok ()) })"

definition resend_Mailer :: "string \<Rightarrow> ('d, 'r) world Mailer" where
  "resend_Mailer from = \<lparr>Send = resend_Send from\<rparr>"

lemma resend_Mailer_simps [simp]: "Send (resend_Mailer from) = resend_Send from"
  by (simp add: resend_Mailer_def)

subsection \<open>Access tokens\<close>

lemma NumericDate_le: "NumericDate t \<le> t" "t < NumericDate t + nanos"
proof -
  have "t = (t div nanos) * nanos + t mod nanos" by simp
  moreover have "0 \<le> t mod nanos" "t mod nanos < nanos" by simp_all
  ultimately show "NumericDate t \<le> t" "t < NumericDate t + nanos" unfolding NumericDate_def by linarith+
qed

lemma NumericDate_idem [simp]: "NumericDate (NumericDate t) = NumericDate t"
  by (simp add: NumericDate_def)

text \<open>A parsed token carries the service's signature and issuer and is still running.\<close>

lemma ParseAccess_Inr:
  assumes "jwt_spec J" "run_state (jwt_ParseAccess J s tok) w = (Inr c, w')"
  shows "genuine J ''HS256'' (jwts_secret s) tok c" "jwts_issuer s \<noteq> [] \<longrightarrow> claim_Issuer c = jwts_issuer s"
    "\<forall>e. claim_ExpiresAt c = Some e \<longrightarrow> w_clock w' < e" "w' = advance w"
proof -
  from assms(2) obtain v where
    p: "ParseWithClaims J tok (keyfunc s) [''HS256''] (jwts_issuer s) (w_clock (advance w)) = Inr (c, v)"
    and w': "w' = advance w"
    by (auto simp: jwt_ParseAccess_def run_simps split: sum.splits prod.splits if_splits)
  from p assms(1) have "jwts_issuer s \<noteq> [] \<longrightarrow> claim_Issuer c = jwts_issuer s"
    "\<forall>e. claim_ExpiresAt c = Some e \<longrightarrow> w_clock (advance w) < e"
    "\<exists>alg key. alg \<in> set [''HS256''] \<and> keyfunc s alg = Inr key \<and> genuine J alg key tok c"
    unfolding jwt_spec_def by blast+
  then show "genuine J ''HS256'' (jwts_secret s) tok c" "jwts_issuer s \<noteq> [] \<longrightarrow> claim_Issuer c = jwts_issuer s"
    "\<forall>e. claim_ExpiresAt c = Some e \<longrightarrow> w_clock w' < e"
    using w' by (auto simp: keyfunc_def)
  show "w' = advance w" by (rule w')
qed

lemma IssueAccess_Inr:
  assumes "run_state (jwt_IssueAccess J V s i) w = (Inr (tok, exp), w')"
  shows "w' = advance (advance w)" "exp = w_clock (advance w) + jwts_accessTTL s"
    "SignedString J ''HS256'' (jwts_secret s)
       (access_claims V s i (w_clock (advance w)) (uuid_at (w_env w) (Suc (w_ticks w)))) = Inr tok"
  using assms by (auto simp: jwt_IssueAccess_def run_simps split: sum.splits)

lemma jwt_completeD:
  assumes "jwt_spec J" "SignedString J alg key c = Inr tok" "claims_plain c" "alg \<in> set ms"
    "kf alg = Inr key" "\<forall>e. claim_ExpiresAt c = Some e \<longrightarrow> now < e"
  shows "ParseWithClaims J tok kf ms (claim_Issuer c) now = Inr (c, True)"
  using assms unfolding jwt_spec_def by blast

lemma issued_parses:
  assumes "jwt_spec J" "run_state (jwt_IssueAccess J V s i) w = (Inr (tok, exp), w1)"
    and "claims_plain (access_claims V s i (w_clock (advance w)) (uuid_at (w_env w) (Suc (w_ticks w))))"
    and "w_clock (advance w2) < NumericDate exp"
  shows "run_state (jwt_ParseAccess J s tok) w2 =
    (Inr (access_claims V s i (w_clock (advance w)) (uuid_at (w_env w) (Suc (w_ticks w)))), advance w2)"
proof -
  let ?c = "access_claims V s i (w_clock (advance w)) (uuid_at (w_env w) (Suc (w_ticks w)))"
  note i = IssueAccess_Inr [OF assms(2)]
  have "\<forall>e. claim_ExpiresAt ?c = Some e \<longrightarrow> w_clock (advance w2) < e"
    using assms(4) i(2) by (simp add: access_claims_def)
  from jwt_completeD [OF assms(1) i(3) assms(3) _ _ this, of "[''HS256'']" "keyfunc s"]
  have "ParseWithClaims J tok (keyfunc s) [''HS256''] (jwts_issuer s) (w_clock (advance w2))
      = Inr (?c, True)"
    by (simp add: keyfunc_def access_claims_def)
  then show ?thesis by (simp add: jwt_ParseAccess_def run_simps)
qed

lemma jwt_effects [keep_intros]:
  "preorder_rel R \<Longrightarrow> effect (pg_rel R) (jwt_IssueAccess J V s i)"
  "preorder_rel R \<Longrightarrow> effect (pg_rel R) (jwt_ParseAccess J s tok)"
  "preorder_rel R \<Longrightarrow> effect (pg_rel R) (resend_Send from msg)"
  "effect later (jwt_IssueAccess J V s i)" "effect later (jwt_ParseAccess J s tok)"
  "effect later (resend_Send from msg)"
  unfolding jwt_IssueAccess_def jwt_ParseAccess_def resend_Send_def
  by (intro keep_intros preorder_later preorder_pg_rel; assumption)+

end
