(* ===== verification/RedisClient.thy ===== *)
theory RedisClient
  imports World
begin

text \<open>
  The Redis client the stores are given (\<open>github.com/redis/go-redis/v9\<close> and the server behind
  it). It is not part of the repository, so it is a parameter: the record \<open>Client\<close> holds the
  commands the source calls, over an unknown server state. What the source relies on is the locale
  \<open>redis_server\<close>: seen through an abstraction to a \<open>keyspace\<close> (keys, values, expiry
  times, the server's clock), a command either does what the Redis documentation says and returns
  the documented reply, or it reports an error and was executed or not. The functions
  \<open>ks_*\<close> state the documented effect of the commands.

  \<open>mem_client\<close> is an in-memory server with faults; it shows that the locale has a model and is
  what concrete runs are evaluated on.
\<close>

subsection \<open>Documented behaviour of the commands\<close>

datatype rvalue = RStr string | RCount int | RSet "string list"

record keyspace =
  ks_now :: time
  ks_entries :: "string \<Rightarrow> (rvalue \<times> time option) option"

abbreviation millis :: int where "millis \<equiv> 1000000"

definition unexpired :: "time \<Rightarrow> (rvalue \<times> time option) \<Rightarrow> bool" where
  "unexpired now p \<longleftrightarrow> (case snd p of None \<Rightarrow> True | Some e \<Rightarrow> now < e)"

definition ks_entry :: "keyspace \<Rightarrow> string \<Rightarrow> (rvalue \<times> time option) option" where
  "ks_entry S k = (case ks_entries S k of
     None \<Rightarrow> None | Some p \<Rightarrow> if unexpired (ks_now S) p then Some p else None)"

definition ks_live :: "keyspace \<Rightarrow> string \<Rightarrow> rvalue option" where
  "ks_live S k = map_option fst (ks_entry S k)"

definition ks_wait :: "nat \<Rightarrow> keyspace \<Rightarrow> keyspace" where
  "ks_wait n S = S\<lparr>ks_now := ks_now S + int n\<rparr>"

definition ks_put :: "string \<Rightarrow> (rvalue \<times> time option) option \<Rightarrow> keyspace \<Rightarrow> keyspace" where
  "ks_put k p S = S\<lparr>ks_entries := (ks_entries S)(k := p)\<rparr>"

text \<open>
  A TTL is sent in milliseconds (at least one), and \<open>EXPIRE\<close> in seconds (at least one). A TTL
  of zero or less means no expiry, but for \<open>KeepTTL\<close> (minus one nanosecond).
\<close>

definition ttl_millis :: "duration \<Rightarrow> duration" where
  "ttl_millis d = (if d < millis then millis else (d div millis) * millis)"

definition ttl_seconds :: "duration \<Rightarrow> int" where
  "ttl_seconds d = (if 0 < d \<and> d < nanos then 1 else whole_seconds d)"

definition ks_ttl :: "string \<Rightarrow> duration \<Rightarrow> keyspace \<Rightarrow> time option" where
  "ks_ttl k d S =
     (if 0 < d then Some (ks_now S + ttl_millis d)
      else if d = -1 then (case ks_entry S k of None \<Rightarrow> None | Some p \<Rightarrow> snd p)
      else None)"

definition ks_set :: "string \<Rightarrow> string \<Rightarrow> duration \<Rightarrow> keyspace \<Rightarrow> (err + unit) \<times> keyspace" where
  "ks_set k v d S = (Inr (), ks_put k (Some (RStr v, ks_ttl k d S)) S)"

definition ks_setnx :: "string \<Rightarrow> string \<Rightarrow> duration \<Rightarrow> keyspace \<Rightarrow> (err + bool) \<times> keyspace" where
  "ks_setnx k v d S =
     (if ks_entry S k = None then (Inr True, ks_put k (Some (RStr v, ks_ttl k d S)) S)
      else (Inr False, S))"

definition wrong_type :: err where "wrong_type = ErrOther ''WRONGTYPE''"

definition ks_get :: "string \<Rightarrow> keyspace \<Rightarrow> (err + string) \<times> keyspace" where
  "ks_get k S = (case ks_live S k of
     None \<Rightarrow> Inl RedisNil | Some (RStr v) \<Rightarrow> Inr v | Some _ \<Rightarrow> Inl wrong_type, S)"

definition ks_exists :: "string \<Rightarrow> keyspace \<Rightarrow> (err + int) \<times> keyspace" where
  "ks_exists k S = (Inr (if ks_live S k = None then 0 else 1), S)"

definition ks_del :: "string \<Rightarrow> keyspace \<Rightarrow> (err + int) \<times> keyspace" where
  "ks_del k S = (Inr (if ks_live S k = None then 0 else 1), ks_put k None S)"

definition ks_sadd :: "string \<Rightarrow> string \<Rightarrow> keyspace \<Rightarrow> (err + int) \<times> keyspace" where
  "ks_sadd k m S = (case ks_entry S k of
     None \<Rightarrow> (Inr 1, ks_put k (Some (RSet [m], None)) S)
   | Some (RSet xs, e) \<Rightarrow>
       if m \<in> set xs then (Inr 0, S) else (Inr 1, ks_put k (Some (RSet (xs @ [m]), e)) S)
   | Some _ \<Rightarrow> (Inl wrong_type, S))"

definition ks_srem :: "string \<Rightarrow> string \<Rightarrow> keyspace \<Rightarrow> (err + int) \<times> keyspace" where
  "ks_srem k m S = (case ks_entry S k of
     None \<Rightarrow> (Inr 0, S)
   | Some (RSet xs, e) \<Rightarrow>
       if m \<in> set xs
       then (Inr 1, ks_put k (if removeAll m xs = [] then None else Some (RSet (removeAll m xs), e)) S)
       else (Inr 0, S)
   | Some _ \<Rightarrow> (Inl wrong_type, S))"

definition ks_smembers :: "string \<Rightarrow> keyspace \<Rightarrow> (err + string list) \<times> keyspace" where
  "ks_smembers k S = (case ks_live S k of
     None \<Rightarrow> Inr [] | Some (RSet xs) \<Rightarrow> Inr xs | Some _ \<Rightarrow> Inl wrong_type, S)"

definition ks_expire_secs :: "string \<Rightarrow> int \<Rightarrow> keyspace \<Rightarrow> (err + int) \<times> keyspace" where
  "ks_expire_secs k secs S = (case ks_entry S k of
     None \<Rightarrow> (Inr 0, S)
   | Some (v, _) \<Rightarrow>
       (Inr 1, ks_put k (if secs \<le> 0 then None else Some (v, Some (ks_now S + secs * nanos))) S))"

definition ks_expire :: "string \<Rightarrow> duration \<Rightarrow> keyspace \<Rightarrow> (err + bool) \<times> keyspace" where
  "ks_expire k d S = (case ks_expire_secs k (ttl_seconds d) S of
     (r, S') \<Rightarrow> (map_sum id (\<lambda>n. 0 < n) r, S'))"

definition ks_incr :: "string \<Rightarrow> keyspace \<Rightarrow> (err + int) \<times> keyspace" where
  "ks_incr k S = (case ks_entry S k of
     None \<Rightarrow> (Inr 1, ks_put k (Some (RCount 1, None)) S)
   | Some (RCount n, e) \<Rightarrow> (Inr (n + 1), ks_put k (Some (RCount (n + 1), e)) S)
   | Some _ \<Rightarrow> (Inl wrong_type, S))"

subsection \<open>The client\<close>

text \<open>
  \<open>s_INCR\<close> and \<open>s_EXPIRE\<close> are \<open>redis.call\<close> inside a Lua script, \<open>c_Script\<close> is
  \<open>Script.Run\<close> of a script body.
\<close>

record 'r Client =
  c_Set :: "string \<Rightarrow> string \<Rightarrow> duration \<Rightarrow> ('r, unit) call"
  c_SetNX :: "string \<Rightarrow> string \<Rightarrow> duration \<Rightarrow> ('r, bool) call"
  c_Get :: "string \<Rightarrow> ('r, string) call"
  c_Exists :: "string \<Rightarrow> ('r, int) call"
  c_Del :: "string \<Rightarrow> ('r, int) call"
  c_SAdd :: "string \<Rightarrow> string \<Rightarrow> ('r, int) call"
  c_SRem :: "string \<Rightarrow> string \<Rightarrow> ('r, int) call"
  c_SMembers :: "string \<Rightarrow> ('r, string list) call"
  c_Expire :: "string \<Rightarrow> duration \<Rightarrow> ('r, bool) call"
  s_INCR :: "string \<Rightarrow> ('r, int) call"
  s_EXPIRE :: "string \<Rightarrow> int \<Rightarrow> ('r, int) call"
  c_Script :: "('r, int) call \<Rightarrow> ('r, int) call"

text \<open>
  \<open>executes view m f\<close>: the command \<open>m\<close> has the documented effect and reply \<open>f\<close>, or it
  reports an error, which is not \<open>redis.Nil\<close>, and was executed or not.
\<close>

definition executes ::
    "('r \<Rightarrow> keyspace) \<Rightarrow> ('r, 'a) call \<Rightarrow> (keyspace \<Rightarrow> (err + 'a) \<times> keyspace) \<Rightarrow> bool" where
  "executes view m f \<longleftrightarrow> (\<forall>s r s'. run_state m s = (r, s') \<longrightarrow>
     (r = fst (f (view s)) \<and> view s' = snd (f (view s))) \<or>
     ((\<exists>e. r = Inl e \<and> \<not> errors_Is e RedisNil) \<and> (view s' = view s \<or> view s' = snd (f (view s)))))"

definition exactly ::
    "('r \<Rightarrow> keyspace) \<Rightarrow> ('r, 'a) call \<Rightarrow> (keyspace \<Rightarrow> (err + 'a) \<times> keyspace) \<Rightarrow> bool" where
  "exactly view m f \<longleftrightarrow> (\<forall>s r s'. run_state m s = (r, s') \<longrightarrow>
     r = fst (f (view s)) \<and> view s' = snd (f (view s)))"

lemma executes_Inr:
  "executes view m f \<Longrightarrow> run_state m s = (Inr x, s') \<Longrightarrow> f (view s) = (Inr x, view s')"
  unfolding executes_def by (metis Inl_Inr_False prod.collapse)

lemma executes_cases:
  assumes "executes view m f" "run_state m s = (r, s')"
  shows "view s' = view s \<or> view s' = snd (f (view s))"
  using assms unfolding executes_def by blast

locale redis_server =
  fixes c :: "'r Client"
    and view :: "'r \<Rightarrow> keyspace"
    and elapse :: "nat \<Rightarrow> 'r \<Rightarrow> 'r"
  assumes set: "executes view (c_Set c k v d) (ks_set k v d)"
    and setnx: "executes view (c_SetNX c k v d) (ks_setnx k v d)"
    and get: "executes view (c_Get c k) (ks_get k)"
    and exists: "executes view (c_Exists c k) (ks_exists k)"
    and del: "executes view (c_Del c k) (ks_del k)"
    and sadd: "executes view (c_SAdd c k m) (ks_sadd k m)"
    and srem: "executes view (c_SRem c k m) (ks_srem k m)"
    and smembers: "executes view (c_SMembers c k) (ks_smembers k)"
    and expire: "executes view (c_Expire c k d) (ks_expire k d)"
    and script_incr: "exactly view (s_INCR c k) (ks_incr k)"
    and script_expire: "exactly view (s_EXPIRE c k secs) (ks_expire_secs k secs)"
    and script: "exactly view body f \<Longrightarrow> executes view (c_Script c body) f"
    and view_elapse: "view (elapse n s) = ks_wait n (view s)"

subsection \<open>Facts about keyspaces\<close>

lemma ks_put_now [simp]: "ks_now (ks_put k p S) = ks_now S"
  by (simp add: ks_put_def)

lemma ks_entry_put:
  "ks_entry (ks_put k p S) k' =
     (if k' = k then (case p of None \<Rightarrow> None | Some q \<Rightarrow> if unexpired (ks_now S) q then Some q else None)
      else ks_entry S k')"
  by (simp add: ks_entry_def ks_put_def split: option.splits)

lemma ks_live_put:
  "ks_live (ks_put k p S) k' =
     (if k' = k then (case p of None \<Rightarrow> None
        | Some q \<Rightarrow> if unexpired (ks_now S) q then Some (fst q) else None)
      else ks_live S k')"
  by (simp add: ks_live_def ks_entry_put split: option.splits)

lemma ttl_millis_bounds: "0 < d \<Longrightarrow> 0 < ttl_millis d \<and> d - millis < ttl_millis d"
  by (auto simp: ttl_millis_def)

lemma ttl_millis_le: "millis \<le> d \<Longrightarrow> ttl_millis d \<le> d"
  by (simp add: ttl_millis_def)

lemma ks_entry_live: "ks_entry S k = Some p \<Longrightarrow> unexpired (ks_now S) p"
  by (auto simp: ks_entry_def split: option.splits if_splits)

lemma unexpired_ttl: "unexpired (ks_now S) (v, ks_ttl k d S)"
proof (cases "ks_entry S k")
  case None
  then show ?thesis using ttl_millis_bounds [of d] by (simp add: unexpired_def ks_ttl_def)
next
  case (Some p)
  then show ?thesis using ttl_millis_bounds [of d] ks_entry_live [OF Some]
    by (auto simp: unexpired_def ks_ttl_def)
qed

lemma live_after_set: "ks_live (snd (ks_set k v d S)) k = Some (RStr v)"
  by (simp add: ks_set_def ks_live_put unexpired_ttl)

lemma live_set_other: "k' \<noteq> k \<Longrightarrow> ks_live (snd (ks_set k v d S)) k' = ks_live S k'"
  by (simp add: ks_set_def ks_live_put)

lemma live_after_del: "ks_live (snd (ks_del k S)) k = None"
  by (simp add: ks_del_def ks_live_put)

lemma live_del_other: "k' \<noteq> k \<Longrightarrow> ks_live (snd (ks_del k S)) k' = ks_live S k'"
  by (simp add: ks_del_def ks_live_put)

subsection \<open>An in-memory server\<close>

text \<open>The server's keyspace and the fates of the next commands; with none left they succeed.\<close>

record mem =
  mem_keys :: keyspace
  mem_fates :: "fate list"

definition mem_run ::
    "(keyspace \<Rightarrow> (err + 'a) \<times> keyspace) \<Rightarrow> (mem, 'a) call" where
  "mem_run f = State (\<lambda>s. case f (mem_keys s) of (r, S) \<Rightarrow>
     (case mem_fates s of
        [] \<Rightarrow> (r, s\<lparr>mem_keys := S\<rparr>)
      | Done # fs \<Rightarrow> (r, s\<lparr>mem_keys := S, mem_fates := fs\<rparr>)
      | FailBefore m # fs \<Rightarrow> (Inl (ErrOther m), s\<lparr>mem_fates := fs\<rparr>)
      | FailAfter m # fs \<Rightarrow> (Inl (ErrOther m), s\<lparr>mem_keys := S, mem_fates := fs\<rparr>)))"

definition mem_exact ::
    "(keyspace \<Rightarrow> (err + 'a) \<times> keyspace) \<Rightarrow> (mem, 'a) call" where
  "mem_exact f = State (\<lambda>s. case f (mem_keys s) of (r, S) \<Rightarrow> (r, s\<lparr>mem_keys := S\<rparr>))"

definition mem_script :: "(mem, int) call \<Rightarrow> (mem, int) call" where
  "mem_script body = State (\<lambda>s. case run_state body s of (r, s') \<Rightarrow>
     (case mem_fates s of
        [] \<Rightarrow> (r, s'\<lparr>mem_fates := []\<rparr>)
      | Done # fs \<Rightarrow> (r, s'\<lparr>mem_fates := fs\<rparr>)
      | FailBefore m # fs \<Rightarrow> (Inl (ErrOther m), s\<lparr>mem_fates := fs\<rparr>)
      | FailAfter m # fs \<Rightarrow> (Inl (ErrOther m), s'\<lparr>mem_fates := fs\<rparr>)))"

definition mem_client :: "mem Client" where
  "mem_client = \<lparr>c_Set = \<lambda>k v d. mem_run (ks_set k v d), c_SetNX = \<lambda>k v d. mem_run (ks_setnx k v d),
     c_Get = \<lambda>k. mem_run (ks_get k), c_Exists = \<lambda>k. mem_run (ks_exists k),
     c_Del = \<lambda>k. mem_run (ks_del k), c_SAdd = \<lambda>k m. mem_run (ks_sadd k m),
     c_SRem = \<lambda>k m. mem_run (ks_srem k m), c_SMembers = \<lambda>k. mem_run (ks_smembers k),
     c_Expire = \<lambda>k d. mem_run (ks_expire k d),
     s_INCR = \<lambda>k. mem_exact (ks_incr k), s_EXPIRE = \<lambda>k n. mem_exact (ks_expire_secs k n),
     c_Script = mem_script\<rparr>"

definition mem_elapse :: "nat \<Rightarrow> mem \<Rightarrow> mem" where
  "mem_elapse n s = s\<lparr>mem_keys := ks_wait n (mem_keys s)\<rparr>"

definition mem_empty :: "time \<Rightarrow> mem" where
  "mem_empty now = \<lparr>mem_keys = \<lparr>ks_now = now, ks_entries = \<lambda>_. None\<rparr>, mem_fates = []\<rparr>"

lemma executes_mem_run: "executes mem_keys (mem_run f) f"
  by (auto simp: executes_def mem_run_def split: prod.splits list.splits fate.splits)

lemma exactly_mem_exact: "exactly mem_keys (mem_exact f) f"
  by (auto simp: exactly_def mem_exact_def split: prod.splits)

lemma executes_mem_script:
  assumes "exactly mem_keys body f"
  shows "executes mem_keys (mem_script body) f"
  unfolding executes_def
proof (intro allI impI)
  fix s r s'
  assume run: "run_state (mem_script body) s = (r, s')"
  obtain r0 s0 where b: "run_state body s = (r0, s0)" by fastforce
  with assms have "r0 = fst (f (mem_keys s))" "mem_keys s0 = snd (f (mem_keys s))"
    unfolding exactly_def by blast+
  with run b show "(r = fst (f (mem_keys s)) \<and> mem_keys s' = snd (f (mem_keys s))) \<or>
      ((\<exists>e. r = Inl e \<and> \<not> errors_Is e RedisNil) \<and> (mem_keys s' = mem_keys s \<or> mem_keys s' = snd (f (mem_keys s))))"
    by (auto simp: mem_script_def split: list.splits fate.splits)
qed

interpretation mem: redis_server mem_client mem_keys mem_elapse
  by unfold_locales
    (simp_all add: mem_client_def executes_mem_run exactly_mem_exact executes_mem_script
      mem_elapse_def)

end
