(* ===== verification/RedisStores.thy ===== *)
theory RedisStores
  imports RedisClient Tokens
begin

text \<open>
  \<open>internal/infrastructure/redis/stores.go\<close>: sessions, the blacklist of access tokens, the
  login lockout, the rate limiter and the idempotency cache, each over the Redis client \<open>c\<close> it
  is built on. For the lockout, the blacklist and the rate limiter a locale states the contract
  their clients use; \<open>redis_server\<close> is shown to give all three (\<open>sublocale\<close>), and the
  interpretation of \<open>redis_server\<close> carries over.
\<close>

subsection \<open>Keys\<close>

definition keySession :: "string \<Rightarrow> string" where "keySession x = ''session:'' @ x"
definition keyUserSession :: "string \<Rightarrow> string" where "keyUserSession x = ''user_sessions:'' @ x"
definition keyBlacklist :: "string \<Rightarrow> string" where "keyBlacklist x = ''blacklist:'' @ x"
definition keyLockout :: "string \<Rightarrow> string" where "keyLockout x = ''lockout:'' @ x"
definition keyIdem :: "string \<Rightarrow> string" where "keyIdem x = ''idem:'' @ x"
definition keyLoginFail :: "string \<Rightarrow> string" where "keyLoginFail x = ''login_fail:'' @ x"
definition keyRateLimit :: "string \<Rightarrow> string" where "keyRateLimit x = ''ratelimit:'' @ x"

lemmas key_defs = keySession_def keyUserSession_def keyBlacklist_def keyLockout_def keyIdem_def
  keyLoginFail_def keyRateLimit_def

text \<open>Key prefixes keep the namespaces apart.\<close>

lemma keys_disjoint [simp]:
  "keySession a \<noteq> keyUserSession b" "keySession a \<noteq> keyBlacklist b" "keySession a \<noteq> keyLockout b"
  "keySession a \<noteq> keyIdem b" "keySession a \<noteq> keyLoginFail b" "keySession a \<noteq> keyRateLimit b"
  "keyUserSession a \<noteq> keySession b" "keyUserSession a \<noteq> keyBlacklist b"
  "keyUserSession a \<noteq> keyLockout b" "keyUserSession a \<noteq> keyIdem b"
  "keyUserSession a \<noteq> keyLoginFail b" "keyUserSession a \<noteq> keyRateLimit b"
  "keyBlacklist a \<noteq> keySession b" "keyBlacklist a \<noteq> keyUserSession b"
  "keyBlacklist a \<noteq> keyLockout b" "keyBlacklist a \<noteq> keyIdem b"
  "keyBlacklist a \<noteq> keyLoginFail b" "keyBlacklist a \<noteq> keyRateLimit b"
  "keyLockout a \<noteq> keySession b" "keyLockout a \<noteq> keyUserSession b" "keyLockout a \<noteq> keyBlacklist b"
  "keyLockout a \<noteq> keyIdem b" "keyLockout a \<noteq> keyLoginFail b" "keyLockout a \<noteq> keyRateLimit b"
  "keyIdem a \<noteq> keySession b" "keyIdem a \<noteq> keyUserSession b" "keyIdem a \<noteq> keyBlacklist b"
  "keyIdem a \<noteq> keyLockout b" "keyIdem a \<noteq> keyLoginFail b" "keyIdem a \<noteq> keyRateLimit b"
  "keyLoginFail a \<noteq> keySession b" "keyLoginFail a \<noteq> keyUserSession b"
  "keyLoginFail a \<noteq> keyBlacklist b" "keyLoginFail a \<noteq> keyLockout b"
  "keyLoginFail a \<noteq> keyIdem b" "keyLoginFail a \<noteq> keyRateLimit b"
  "keyRateLimit a \<noteq> keySession b" "keyRateLimit a \<noteq> keyUserSession b"
  "keyRateLimit a \<noteq> keyBlacklist b" "keyRateLimit a \<noteq> keyLockout b"
  "keyRateLimit a \<noteq> keyIdem b" "keyRateLimit a \<noteq> keyLoginFail b"
  by (simp_all add: key_defs)

lemma keys_inj [simp]:
  "keySession a = keySession b \<longleftrightarrow> a = b" "keyUserSession a = keyUserSession b \<longleftrightarrow> a = b"
  "keyBlacklist a = keyBlacklist b \<longleftrightarrow> a = b" "keyLockout a = keyLockout b \<longleftrightarrow> a = b"
  "keyIdem a = keyIdem b \<longleftrightarrow> a = b" "keyLoginFail a = keyLoginFail b \<longleftrightarrow> a = b"
  "keyRateLimit a = keyRateLimit b \<longleftrightarrow> a = b"
  by (simp_all add: key_defs)

subsection \<open>Counters and pipelines\<close>

text \<open>The Lua script: \<open>INCR\<close>, and \<open>EXPIRE\<close> on the first hit.\<close>

definition incrWithExpire :: "'r Client \<Rightarrow> string \<Rightarrow> int \<Rightarrow> ('r, int) call" where
  "incrWithExpire c key secs =
     or_return (s_INCR c key) (\<lambda>n.
     if n = 1 then or_return (s_EXPIRE c key secs) (\<lambda>_. ok n) else ok n)"

definition runIncrExpire :: "'r Client \<Rightarrow> string \<Rightarrow> duration \<Rightarrow> ('r, int) call" where
  "runIncrExpire c key ttl =
     (let secs = whole_seconds ttl; secs = (if secs < 1 then 1 else secs)
      in c_Script c (incrWithExpire c key secs))"

text \<open>
  \<open>pipe.Exec\<close>: the queued commands are sent in order, the reply is the first error. A pipeline
  is not a transaction: a command after a failed one may still be executed.
\<close>

fun pipe_Exec :: "('r, unit) call list \<Rightarrow> ('r, unit) call" where
  "pipe_Exec [] = ok ()"
| "pipe_Exec (m # ms) = do {
     r \<leftarrow> m;
     rs \<leftarrow> pipe_Exec ms;
     State_Monad.return (case r of Inl e \<Rightarrow> Inl e | Inr _ \<Rightarrow> rs) }"

definition queued :: "('r, 'a) call \<Rightarrow> ('r, unit) call" where
  "queued m = or_return m (\<lambda>_. ok ())"

subsection \<open>Sessions\<close>

record sessionDTO =
  dto_user_id :: string
  dto_email :: string
  dto_roles :: "string list"
  dto_permissions :: "string list"
  dto_family_id :: string

text \<open>\<open>J\<close> is \<open>json.Marshal\<close> of the session blob, which the service never reads back.\<close>

definition SessionStore_Save ::
    "'r Client \<Rightarrow> uuid_lib \<Rightarrow> (sessionDTO \<Rightarrow> err + string) \<Rightarrow> Session \<Rightarrow> duration \<Rightarrow>
     (('d, 'r) world, unit) call" where
  "SessionStore_Save c V J session ttl =
     (case J \<lparr>dto_user_id = uuid_String V (sess_UserID session), dto_email = sess_Email session,
          dto_roles = sess_Roles session, dto_permissions = sess_Permissions session,
          dto_family_id = uuid_String V (sess_FamilyID session)\<rparr> of
        Inl e \<Rightarrow> fail e
      | Inr b \<Rightarrow> on_redis (pipe_Exec
          [queued (c_Set c (keySession (uuid_String V (sess_ID session))) b ttl),
           queued (c_SAdd c (keyUserSession (uuid_String V (sess_UserID session)))
             (uuid_String V (sess_ID session))),
           queued (c_Expire c (keyUserSession (uuid_String V (sess_UserID session))) ttl)]))"

definition SessionStore_Delete ::
    "'r Client \<Rightarrow> uuid_lib \<Rightarrow> uuid \<Rightarrow> uuid \<Rightarrow> (('d, 'r) world, unit) call" where
  "SessionStore_Delete c V sessionID userID = on_redis (pipe_Exec
     [queued (c_Del c (keySession (uuid_String V sessionID))),
      queued (c_SRem c (keyUserSession (uuid_String V userID)) (uuid_String V sessionID))])"

definition SessionStore_DeleteAllForUser ::
    "'r Client \<Rightarrow> uuid_lib \<Rightarrow> uuid \<Rightarrow> (('d, 'r) world, unit) call" where
  "SessionStore_DeleteAllForUser c V userID =
     (let userKey = keyUserSession (uuid_String V userID)
      in or_return (on_redis (c_SMembers c userKey)) (\<lambda>ids.
         if ids = [] then ok ()
         else on_redis (pipe_Exec
           (map (\<lambda>i. queued (c_Del c (keySession i))) ids @ [queued (c_Del c userKey)]))))"

definition RedisSessionStore ::
    "'r Client \<Rightarrow> uuid_lib \<Rightarrow> (sessionDTO \<Rightarrow> err + string) \<Rightarrow> ('d, 'r) world SessionStore" where
  "RedisSessionStore c V J = \<lparr>Session_Save = SessionStore_Save c V J,
     Session_Delete = SessionStore_Delete c V,
     Session_DeleteAllForUser = SessionStore_DeleteAllForUser c V\<rparr>"

subsection \<open>Blacklist\<close>

definition Blacklist_add :: "'r Client \<Rightarrow> string \<Rightarrow> duration \<Rightarrow> (('d, 'r) world, unit) call" where
  "Blacklist_add c jti ttl = on_redis (c_Set c (keyBlacklist jti) ''1'' ttl)"

definition Blacklist_exists :: "'r Client \<Rightarrow> string \<Rightarrow> (('d, 'r) world, bool) call" where
  "Blacklist_exists c jti =
     or_return (on_redis (c_Exists c (keyBlacklist jti))) (\<lambda>n. ok (0 < n))"

definition RedisBlacklist :: "'r Client \<Rightarrow> ('d, 'r) world TokenBlacklist" where
  "RedisBlacklist c =
     \<lparr>Blacklist_Add = Blacklist_add c, Blacklist_Exists = Blacklist_exists c\<rparr>"

subsection \<open>Login lockout\<close>

definition Lockout_IsLocked :: "'r Client \<Rightarrow> string \<Rightarrow> (('d, 'r) world, bool) call" where
  "Lockout_IsLocked c key = 
     or_return (on_redis (c_Exists c (keyLockout key))) (\<lambda>n. ok (0 < n))"

definition Lockout_RecordFailure ::
    "'r Client \<Rightarrow> string \<Rightarrow> int \<Rightarrow> duration \<Rightarrow> (('d, 'r) world, unit) call" where
  "Lockout_RecordFailure c key maxi lockout =
     or_return (on_redis (runIncrExpire c (keyLoginFail key) lockout)) (\<lambda>count.
     if maxi \<le> count then on_redis (c_Set c (keyLockout key) ''1'' lockout) else ok ())"

definition Lockout_clear :: "'r Client \<Rightarrow> string \<Rightarrow> (('d, 'r) world, unit) call" where
  "Lockout_clear c key = on_redis (pipe_Exec
     [queued (c_Del c (keyLockout key)), queued (c_Del c (keyLoginFail key))])"

definition RedisLockout :: "'r Client \<Rightarrow> ('d, 'r) world LoginLockout" where
  "RedisLockout c = \<lparr>IsLocked = Lockout_IsLocked c, RecordFailure = Lockout_RecordFailure c,
     Lockout_Clear = Lockout_clear c\<rparr>"

subsection \<open>Rate limiter\<close>

definition RateLimiter_Allow ::
    "'r Client \<Rightarrow> string \<Rightarrow> int \<Rightarrow> duration \<Rightarrow> (('d, 'r) world, bool) call" where
  "RateLimiter_Allow c key limit window =
     or_return (on_redis (runIncrExpire c (keyRateLimit key) window)) (\<lambda>count. ok (count \<le> limit))"

definition RedisRateLimiter :: "'r Client \<Rightarrow> ('d, 'r) world RateLimiter" where
  "RedisRateLimiter c = \<lparr>Allow = RateLimiter_Allow c\<rparr>"

subsection \<open>Idempotency cache\<close>

text \<open>\<open>redis.Nil\<close> is a miss; every other error is returned.\<close>

definition Idempotency_Get :: "'r Client \<Rightarrow> string \<Rightarrow> (('d, 'r) world, string option) call" where
  "Idempotency_Get c key = do {
     b \<leftarrow> on_redis (c_Get c (keyIdem key));
     (case b of
        Inl e \<Rightarrow> if errors_Is e RedisNil then ok None else fail e
      | Inr v \<Rightarrow> ok (Some v)) }"

definition Idempotency_SetNX ::
    "'r Client \<Rightarrow> string \<Rightarrow> string \<Rightarrow> duration \<Rightarrow> (('d, 'r) world, bool) call" where
  "Idempotency_SetNX c key v ttl = on_redis (c_SetNX c (keyIdem key) v ttl)"

definition Idempotency_Set ::
    "'r Client \<Rightarrow> string \<Rightarrow> string \<Rightarrow> duration \<Rightarrow> (('d, 'r) world, unit) call" where
  "Idempotency_Set c key v ttl = on_redis (c_Set c (keyIdem key) v ttl)"

definition Idempotency_Delete :: "'r Client \<Rightarrow> string \<Rightarrow> (('d, 'r) world, unit) call" where
  "Idempotency_Delete c key = or_return (on_redis (c_Del c (keyIdem key))) (\<lambda>_. ok ())"

lemma redis_store_simps [simp]:
  "Session_Save (RedisSessionStore c V J) = SessionStore_Save c V J"
  "Session_Delete (RedisSessionStore c V J) = SessionStore_Delete c V"
  "Session_DeleteAllForUser (RedisSessionStore c V J) = SessionStore_DeleteAllForUser c V"
  "Blacklist_Add (RedisBlacklist c) = Blacklist_add c"
  "Blacklist_Exists (RedisBlacklist c) = Blacklist_exists c"
  "IsLocked (RedisLockout c) = Lockout_IsLocked c"
  "RecordFailure (RedisLockout c) = Lockout_RecordFailure c"
  "Lockout_Clear (RedisLockout c) = Lockout_clear c"
  "Allow (RedisRateLimiter c) = RateLimiter_Allow c"
  by (simp_all add: RedisSessionStore_def RedisBlacklist_def RedisLockout_def RedisRateLimiter_def)

text \<open>The stores only talk to Redis.\<close>

lemmas redis_store_defs =
  SessionStore_Save_def SessionStore_Delete_def SessionStore_DeleteAllForUser_def
  Blacklist_add_def Blacklist_exists_def Lockout_IsLocked_def Lockout_RecordFailure_def
  Lockout_clear_def RateLimiter_Allow_def Idempotency_Get_def Idempotency_SetNX_def
  Idempotency_Set_def Idempotency_Delete_def

lemma redis_store_pg [keep_intros]:
  assumes "preorder_rel R"
  shows "effect (pg_rel R) (SessionStore_Save c V J s ttl)"
    "effect (pg_rel R) (SessionStore_Delete c V i u)"
    "effect (pg_rel R) (SessionStore_DeleteAllForUser c V u)"
    "effect (pg_rel R) (Blacklist_add c jti ttl)" "effect (pg_rel R) (Blacklist_exists c jti)"
    "effect (pg_rel R) (Lockout_IsLocked c k)" "effect (pg_rel R) (Lockout_RecordFailure c k m d)"
    "effect (pg_rel R) (Lockout_clear c k)" "effect (pg_rel R) (RateLimiter_Allow c k n d)"
    "effect (pg_rel R) (Idempotency_Get c k)" "effect (pg_rel R) (Idempotency_SetNX c k v ttl)"
    "effect (pg_rel R) (Idempotency_Set c k v ttl)" "effect (pg_rel R) (Idempotency_Delete c k)"
  using assms unfolding redis_store_defs Let_def
  by (auto intro!: keep_intros preorder_pg_rel split: sum.splits)

lemma redis_store_later [keep_intros]:
  "effect later (SessionStore_Save c V J s ttl)" "effect later (SessionStore_Delete c V i u)"
  "effect later (SessionStore_DeleteAllForUser c V u)" "effect later (Blacklist_add c jti ttl)"
  "effect later (Blacklist_exists c jti)" "effect later (Lockout_IsLocked c k)"
  "effect later (Lockout_RecordFailure c k m d)" "effect later (Lockout_clear c k)"
  "effect later (RateLimiter_Allow c k n d)" "effect later (Idempotency_Get c k)"
  "effect later (Idempotency_SetNX c k v ttl)" "effect later (Idempotency_Set c k v ttl)"
  "effect later (Idempotency_Delete c k)"
  unfolding redis_store_defs Let_def
  by (auto intro!: keep_intros split: sum.splits)

end
