(* ===== verification/RedisContracts.thy ===== *)
theory RedisContracts
  imports RedisStores
begin

text \<open>
  What the Redis stores promise to the service, over any server that behaves as documented
  (\<open>redis_server\<close>). Three locales are the contracts of the token blacklist, of the rate limiter
  and of the login lockout, with the lemmas their clients use; \<open>redis_server\<close> gives each of them
  for the code of \<open>RedisStores\<close> (\<open>sublocale\<close>), and the in-memory server gives an instance.
  Times are on the process clock; \<open>skew\<close> is the constant offset of the Redis server's clock.
\<close>

subsection \<open>Keys that an operation leaves alone\<close>

definition skew :: "('r \<Rightarrow> keyspace) \<Rightarrow> ('d, 'r) world \<Rightarrow> int" where
  "skew view w = ks_now (view (w_redis w)) - w_clock w"

definition stored :: "('r \<Rightarrow> keyspace) \<Rightarrow> ('d, 'r) world \<Rightarrow> string \<Rightarrow> (rvalue \<times> time option) option"
  where "stored view w k = ks_entries (view (w_redis w)) k"

definition ks_frame :: "('r \<Rightarrow> keyspace) \<Rightarrow> string set \<Rightarrow> 'r \<Rightarrow> 'r \<Rightarrow> bool" where
  "ks_frame view K s s' \<longleftrightarrow> ks_now (view s') = ks_now (view s) \<and>
     (\<forall>k \<in> K. ks_entries (view s') k = ks_entries (view s) k)"

definition redis_frame ::
    "('r \<Rightarrow> keyspace) \<Rightarrow> (nat \<Rightarrow> 'r \<Rightarrow> 'r) \<Rightarrow> string set \<Rightarrow> ('d, 'r) world \<Rightarrow> ('d, 'r) world \<Rightarrow> bool"
  where "redis_frame view elapse K w w' \<longleftrightarrow> (w_wait w = elapse \<longrightarrow>
     w_wait w' = elapse \<and> skew view w' = skew view w \<and> w_clock w \<le> w_clock w' \<and>
     (\<forall>k \<in> K. stored view w' k = stored view w k))"

definition touches :: "string set \<Rightarrow> (keyspace \<Rightarrow> (err + 'a) \<times> keyspace) \<Rightarrow> bool" where
  "touches K f \<longleftrightarrow> (\<forall>S. ks_now (snd (f S)) = ks_now S \<and>
     (\<forall>k. k \<notin> K \<longrightarrow> ks_entries (snd (f S)) k = ks_entries S k))"

lemma preorder_ks_frame [simp, intro]: "preorder_rel (ks_frame view K)"
  by (auto simp: preorder_rel_def ks_frame_def)

lemma preorder_redis_frame [simp, intro]: "preorder_rel (redis_frame view elapse K)"
  by (auto simp: preorder_rel_def redis_frame_def)

lemma ks_put_entries: "ks_entries (ks_put k p S) k' = (if k' = k then p else ks_entries S k')"
  by (simp add: ks_put_def)

lemma touches_commands:
  "touches {k} (ks_set k v d)" "touches {k} (ks_setnx k v d)" "touches {} (ks_get k)"
  "touches {} (ks_exists k)" "touches {k} (ks_del k)" "touches {k} (ks_sadd k m)"
  "touches {k} (ks_srem k m)" "touches {} (ks_smembers k)" "touches {k} (ks_expire_secs k n)"
  "touches {k} (ks_incr k)"
  by (auto simp: touches_def ks_set_def ks_setnx_def ks_get_def ks_exists_def ks_del_def
      ks_sadd_def ks_srem_def ks_smembers_def ks_expire_secs_def ks_incr_def ks_put_entries
      split: option.splits rvalue.splits)

lemma touches_expire: "touches {k} (ks_expire k d)"
  using touches_commands(9) [of k "ttl_seconds d"]
  by (simp add: touches_def ks_expire_def case_prod_unfold)

lemma frame_executes:
  assumes "executes view m f" "touches T f" "K \<inter> T = {}"
  shows "effect (ks_frame view K) m"
proof -
  have "ks_frame view K s (snd (run_state m s))" for s
  proof -
    obtain r s' where "run_state m s = (r, s')" by fastforce
    moreover have "k \<notin> T" if "k \<in> K" for k using assms(3) that by blast
    ultimately show ?thesis using executes_cases [OF assms(1), of s r s'] assms(2)
      by (auto simp: ks_frame_def touches_def)
  qed
  then show ?thesis by (simp add: effect_def)
qed

lemma effect_queued [keep_intros]: "preorder_rel R \<Longrightarrow> effect R m \<Longrightarrow> effect R (queued m)"
  unfolding queued_def by (intro keep_intros)

lemma effect_pipe [keep_intros]:
  "preorder_rel R \<Longrightarrow> (\<And>m. m \<in> set ms \<Longrightarrow> effect R m) \<Longrightarrow> effect R (pipe_Exec ms)"
proof (induction ms)
  case Nil
  then show ?case by (simp add: effect_ok)
next
  case (Cons m ms)
  then show ?case by (auto intro!: keep_intros)
qed

context redis_server
begin

lemmas commands = set setnx get exists del sadd srem smembers expire

lemma command_frames [keep_intros]:
  "k \<notin> K \<Longrightarrow> effect (ks_frame view K) (c_Set c k v d)"
  "k \<notin> K \<Longrightarrow> effect (ks_frame view K) (c_SetNX c k v d)"
  "effect (ks_frame view K) (c_Get c k)" "effect (ks_frame view K) (c_Exists c k)"
  "k \<notin> K \<Longrightarrow> effect (ks_frame view K) (c_Del c k)"
  "k \<notin> K \<Longrightarrow> effect (ks_frame view K) (c_SAdd c k m)"
  "k \<notin> K \<Longrightarrow> effect (ks_frame view K) (c_SRem c k m)"
  "effect (ks_frame view K) (c_SMembers c k)"
  "k \<notin> K \<Longrightarrow> effect (ks_frame view K) (c_Expire c k d)"
  by (rule frame_executes [OF set touches_commands(1)]
      frame_executes [OF setnx touches_commands(2)] frame_executes [OF get touches_commands(3)]
      frame_executes [OF exists touches_commands(4)] frame_executes [OF del touches_commands(5)]
      frame_executes [OF sadd touches_commands(6)] frame_executes [OF srem touches_commands(7)]
      frame_executes [OF smembers touches_commands(8)] frame_executes [OF expire touches_expire],
      simp)+

text \<open>Time passing moves the server's clock along, and a round trip changes what it may.\<close>

lemma advance_view:
  "w_wait w = elapse \<Longrightarrow> view (w_redis (advance w)) =
     ks_wait (delay_at (w_env w) (w_ticks w)) (view (w_redis w))"
  by (simp add: view_elapse)

lemma advance_frame: "redis_frame view elapse K w (advance w)"
  by (auto simp: redis_frame_def skew_def stored_def view_elapse ks_wait_def)

lemma advance_stored:
  assumes "w_wait w = elapse"
  shows "stored view (advance w) k = stored view w k" "skew view (advance w) = skew view w"
  using assms by (simp_all add: skew_def stored_def view_elapse ks_wait_def)

lemma frame_then:
  "ks_frame view K (w_redis w) s' \<Longrightarrow> redis_frame view elapse K w (w\<lparr>w_redis := s'\<rparr>)"
  by (auto simp: redis_frame_def ks_frame_def skew_def stored_def)

lemma effect_on_redis [keep_intros]:
  fixes m :: "('r, 'a) state"
  assumes "effect (ks_frame view K) m"
  shows "effect (redis_frame view elapse K) (on_redis m :: (('d, 'r) world, 'a) state)"
  unfolding effect_def
proof
  fix w :: "('d, 'r) world"
  obtain x s' where r: "run_state m (w_redis (advance w)) = (x, s')" by fastforce
  have "ks_frame view K (w_redis (advance w)) s'" using assms r by (rule effectD)
  then have "redis_frame view elapse K (advance w) ((advance w)\<lparr>w_redis := s'\<rparr>)" by (rule frame_then)
  moreover have "redis_frame view elapse K w (advance w)" by (rule advance_frame)
  ultimately have "redis_frame view elapse K w ((advance w)\<lparr>w_redis := s'\<rparr>)"
    using preorder_redis_frame [of view elapse K] unfolding preorder_rel_def by blast
  then show "redis_frame view elapse K w (snd (run_state (on_redis m) w))"
    using r by (simp add: run_on_redis)
qed

lemma effect_local_frame [keep_intros]:
  "effect (redis_frame view elapse K) time_Now" "effect (redis_frame view elapse K) uuid_New"
  "effect (redis_frame view elapse K) (rand_Read n)"
  "effect (redis_frame view elapse K) (ext_call g)"
  "effect (redis_frame view elapse K) (pg_stmt f)" "effect (redis_frame view elapse K) (pg_query q)"
  "effect (redis_frame view elapse K) (send_mail from msg)"
proof -
  note fr = advance_frame [of K, unfolded redis_frame_def skew_def stored_def]
  show "effect (redis_frame view elapse K) time_Now" "effect (redis_frame view elapse K) uuid_New"
    "effect (redis_frame view elapse K) (rand_Read n)" "effect (redis_frame view elapse K) (ext_call g)"
    by (auto simp: effect_def run_simps advance_frame)
  show "effect (redis_frame view elapse K) (pg_stmt f)" "effect (redis_frame view elapse K) (pg_query q)"
    "effect (redis_frame view elapse K) (send_mail from msg)"
    using fr
    by (auto simp: effect_def pg_query_def run_pg_stmt send_mail_def Let_def redis_frame_def skew_def
        stored_def split: prod.splits fate.splits)
qed

end

subsection \<open>The stores and the keys they leave alone\<close>

text \<open>
  \<open>K\<close> is any set of keys outside the namespace the store writes to. The script of the counters,
  as one command: \<open>ks_incr_expire\<close>.
\<close>

definition avoids :: "(string \<Rightarrow> string) \<Rightarrow> string set \<Rightarrow> bool" where
  "avoids key K \<longleftrightarrow> (\<forall>x. key x \<notin> K)"

definition ks_incr_expire :: "string \<Rightarrow> int \<Rightarrow> keyspace \<Rightarrow> (err + int) \<times> keyspace" where
  "ks_incr_expire k secs S = (case ks_incr k S of
     (Inl e, S1) \<Rightarrow> (Inl e, S1)
   | (Inr n, S1) \<Rightarrow> if n = 1 then (case ks_expire_secs k secs S1 of
         (Inl e, S2) \<Rightarrow> (Inl e, S2) | (Inr _, S2) \<Rightarrow> (Inr n, S2))
       else (Inr n, S1))"

definition script_secs :: "duration \<Rightarrow> int" where
  "script_secs ttl = (if whole_seconds ttl < 1 then 1 else whole_seconds ttl)"

lemma touches_incr_expire: "touches {k} (ks_incr_expire k secs)"
proof -
  have 1: "ks_now (snd (ks_incr k S)) = ks_now S"
    "\<forall>k'. k' \<noteq> k \<longrightarrow> ks_entries (snd (ks_incr k S)) k' = ks_entries S k'" for S
    using touches_commands(10) [of k] by (auto simp: touches_def)
  have 2: "ks_now (snd (ks_expire_secs k secs S)) = ks_now S"
    "\<forall>k'. k' \<noteq> k \<longrightarrow> ks_entries (snd (ks_expire_secs k secs S)) k' = ks_entries S k'" for S
    using touches_commands(9) [of k secs] by (auto simp: touches_def)
  show ?thesis unfolding touches_def ks_incr_expire_def
    by (intro allI) (use 1 2 in \<open>auto simp: case_prod_unfold split: sum.splits\<close>)
qed

text \<open>The counter under a live key goes up by one and keeps its expiry; a first hit sets it.\<close>

lemma incr_expire_live:
  "ks_entry S k = Some (RCount j, Some e) \<Longrightarrow> j \<noteq> 0 \<Longrightarrow>
     ks_incr_expire k secs S = (Inr (j + 1), ks_put k (Some (RCount (j + 1), Some e)) S)"
  by (simp add: ks_incr_expire_def ks_incr_def)

lemma ks_put_put [simp]: "ks_put k p (ks_put k q S) = ks_put k p S"
  by (simp add: ks_put_def)

lemma incr_expire_first:
  "ks_entry S k = None \<Longrightarrow> 0 < secs \<Longrightarrow>
     ks_incr_expire k secs S = (Inr 1, ks_put k (Some (RCount 1, Some (ks_now S + secs * nanos))) S)"
  by (simp add: ks_incr_expire_def ks_incr_def ks_expire_secs_def ks_entry_put unexpired_def)

context redis_server
begin

lemma exactly_incrWithExpire:
  "exactly view (incrWithExpire c k secs) (ks_incr_expire k secs)"
  unfolding exactly_def
proof (intro allI impI)
  fix s r s'
  assume run: "run_state (incrWithExpire c k secs) s = (r, s')"
  obtain a s1 where a: "run_state (s_INCR c k) s = (a, s1)" by fastforce
  obtain b s2 where b: "run_state (s_EXPIRE c k secs) s1 = (b, s2)" by fastforce
  have "a = fst (ks_incr k (view s))" "view s1 = snd (ks_incr k (view s))"
    using script_incr a unfolding exactly_def by blast+
  then have ks1: "ks_incr k (view s) = (a, view s1)" by simp
  have "b = fst (ks_expire_secs k secs (view s1))" "view s2 = snd (ks_expire_secs k secs (view s1))"
    using script_expire b unfolding exactly_def by blast+
  then have ks2: "ks_expire_secs k secs (view s1) = (b, view s2)" by simp
  show "r = fst (ks_incr_expire k secs (view s)) \<and> view s' = snd (ks_incr_expire k secs (view s))"
    using run a b ks1 ks2
    by (auto simp: incrWithExpire_def run_simps ks_incr_expire_def split: sum.splits if_splits)
qed

lemma executes_runIncrExpire:
  "executes view (runIncrExpire c k ttl) (ks_incr_expire k (script_secs ttl))"
proof -
  have "runIncrExpire c k ttl = c_Script c (incrWithExpire c k (script_secs ttl))"
    by (simp add: runIncrExpire_def script_secs_def Let_def)
  then show ?thesis by (simp add: script exactly_incrWithExpire)
qed

lemma frame_runIncrExpire [keep_intros]:
  "k \<notin> K \<Longrightarrow> effect (ks_frame view K) (runIncrExpire c k ttl)"
  by (rule frame_executes [OF executes_runIncrExpire touches_incr_expire]) simp

lemma store_frames:
  "avoids keySession K \<Longrightarrow> avoids keyUserSession K \<Longrightarrow>
     effect (redis_frame view elapse K) (SessionStore_Save c V J s ttl)"
  "avoids keySession K \<Longrightarrow> avoids keyUserSession K \<Longrightarrow>
     effect (redis_frame view elapse K) (SessionStore_Delete c V i u)"
  "avoids keySession K \<Longrightarrow> avoids keyUserSession K \<Longrightarrow>
     effect (redis_frame view elapse K) (SessionStore_DeleteAllForUser c V u)"
  "keyBlacklist jti \<notin> K \<Longrightarrow> effect (redis_frame view elapse K) (Blacklist_add c jti ttl)"
  "effect (redis_frame view elapse K) (Blacklist_exists c jti)"
  "effect (redis_frame view elapse K) (Lockout_IsLocked c k)"
  "keyLockout k \<notin> K \<Longrightarrow> keyLoginFail k \<notin> K \<Longrightarrow>
     effect (redis_frame view elapse K) (Lockout_RecordFailure c k m d)"
  "keyLockout k \<notin> K \<Longrightarrow> keyLoginFail k \<notin> K \<Longrightarrow>
     effect (redis_frame view elapse K) (Lockout_clear c k)"
  "keyRateLimit k \<notin> K \<Longrightarrow> effect (redis_frame view elapse K) (RateLimiter_Allow c k n d)"
  unfolding redis_store_defs Let_def avoids_def
  by (auto intro!: keep_intros split: sum.splits)

end

subsection \<open>Counters and expiring keys\<close>

text \<open>
  \<open>counted view w k j e\<close>: the counter at \<open>k\<close> stands at \<open>j\<close> and expires at \<open>e\<close> of the
  process clock; \<open>until view w k e\<close>: the key \<open>k\<close> is set and expires at \<open>e\<close>;
  \<open>absent view w k\<close>: no live key.
\<close>

definition counted :: "('r \<Rightarrow> keyspace) \<Rightarrow> ('d, 'r) world \<Rightarrow> string \<Rightarrow> int \<Rightarrow> time \<Rightarrow> bool" where
  "counted view w k j e \<longleftrightarrow> 0 < j \<and> stored view w k = Some (RCount j, Some (e + skew view w))"

definition until :: "('r \<Rightarrow> keyspace) \<Rightarrow> ('d, 'r) world \<Rightarrow> string \<Rightarrow> time \<Rightarrow> bool" where
  "until view w k e \<longleftrightarrow> (\<exists>v. stored view w k = Some (v, Some (e + skew view w)))"

definition absent :: "('r \<Rightarrow> keyspace) \<Rightarrow> ('d, 'r) world \<Rightarrow> string \<Rightarrow> bool" where
  "absent view w k \<longleftrightarrow> ks_entry (view (w_redis w)) k = None"

lemma stored_entry:
  "stored view w k = Some (v, Some (e + skew view w)) \<Longrightarrow>
     ks_entry (view (w_redis w)) k = (if w_clock w < e then Some (v, Some (e + skew view w)) else None)"
  by (auto simp: ks_entry_def stored_def unexpired_def skew_def)

lemma until_frame:
  "redis_frame view elapse K w w' \<Longrightarrow> w_wait w = elapse \<Longrightarrow> k \<in> K \<Longrightarrow> until view w k e \<Longrightarrow> until view w' k e"
  "redis_frame view elapse K w w' \<Longrightarrow> w_wait w = elapse \<Longrightarrow> k \<in> K \<Longrightarrow> counted view w k j e \<Longrightarrow>
     counted view w' k j e"
  by (auto simp: redis_frame_def until_def counted_def)

lemma absent_frame:
  "redis_frame view elapse K w w' \<Longrightarrow> w_wait w = elapse \<Longrightarrow> k \<in> K \<Longrightarrow> absent view w k \<Longrightarrow> absent view w' k"
  by (auto simp: redis_frame_def absent_def ks_entry_def stored_def unexpired_def skew_def
      split: option.splits if_splits)

context redis_server
begin

lemma on_redis_cases:
  assumes "executes view m f" "run_state (on_redis m) w = (r, w')"
  obtains s where "w' = (advance w)\<lparr>w_redis := s\<rparr>"
    "(r = fst (f (view (w_redis (advance w)))) \<and> view s = snd (f (view (w_redis (advance w))))) \<or>
     ((\<exists>e. r = Inl e \<and> \<not> errors_Is e RedisNil) \<and> (view s = view (w_redis (advance w)) \<or> view s = snd (f (view (w_redis (advance w))))))"
proof -
  obtain x s where x: "run_state m (w_redis (advance w)) = (x, s)" by fastforce
  have "r = x" and "w' = (advance w)\<lparr>w_redis := s\<rparr>"
    using assms(2) unfolding run_on_redis x prod.case by simp_all
  moreover have "(x = fst (f (view (w_redis (advance w)))) \<and> view s = snd (f (view (w_redis (advance w))))) \<or>
     ((\<exists>e. x = Inl e \<and> \<not> errors_Is e RedisNil) \<and> (view s = view (w_redis (advance w)) \<or> view s = snd (f (view (w_redis (advance w))))))"
    using assms(1) x unfolding executes_def by blast
  ultimately show ?thesis using that by blast
qed

lemma redis_step_time:
  assumes "w_wait w = elapse" "run_state (on_redis m) w = (r, w')"
  shows "w_wait w' = elapse" "w_clock w' = w_clock (advance w)"
  using assms by (auto simp: run_on_redis split: prod.splits)

text \<open>One hit of a counter.\<close>

lemma hit_counted:
  assumes wt: "w_wait w = elapse" and run: "run_state (on_redis (runIncrExpire c k ttl)) w = (r, w')"
    and cnt: "counted view w k j e" and early: "w_clock w' < e"
  shows "(r = Inr (j + 1) \<and> counted view w' k (j + 1) e) \<or>
    ((\<exists>m. r = Inl m) \<and> (counted view w' k j e \<or> counted view w' k (j + 1) e))"
proof -
  let ?S = "view (w_redis (advance w))"
  obtain s where w': "w' = (advance w)\<lparr>w_redis := s\<rparr>" and
    c: "(r = fst (ks_incr_expire k (script_secs ttl) ?S) \<and> view s = snd (ks_incr_expire k (script_secs ttl) ?S)) \<or>
     ((\<exists>e. r = Inl e \<and> \<not> errors_Is e RedisNil) \<and> (view s = ?S \<or> view s = snd (ks_incr_expire k (script_secs ttl) ?S)))"
    by (rule on_redis_cases [OF executes_runIncrExpire run])
  have sk: "skew view (advance w) = skew view w" "stored view (advance w) k = stored view w k"
    by (simp_all add: advance_stored wt)
  from cnt have j: "0 < j" and st: "stored view (advance w) k = Some (RCount j, Some (e + skew view (advance w)))"
    by (auto simp: counted_def sk)
  have "ks_entry ?S k = Some (RCount j, Some (e + skew view (advance w)))"
    using stored_entry [OF st] early w' by simp
  then have f: "ks_incr_expire k (script_secs ttl) ?S =
      (Inr (j + 1), ks_put k (Some (RCount (j + 1), Some (e + skew view (advance w)))) ?S)"
    using j by (intro incr_expire_live) auto
  have up: "counted view w' k (j + 1) e" if "view s = snd (ks_incr_expire k (script_secs ttl) ?S)"
    using that j unfolding f w' by (simp add: counted_def stored_def skew_def ks_put_entries)
  have same: "counted view w' k j e" if "view s = ?S"
    using that j st unfolding w' by (simp add: counted_def stored_def skew_def)
  show ?thesis using c up same f by auto
qed

lemma hit_first:
  assumes wt: "w_wait w = elapse" and run: "run_state (on_redis (runIncrExpire c k ttl)) w = (r, w')"
    and abs: "absent view w k"
  shows "(r = Inr 1 \<and> counted view w' k 1 (w_clock w' + script_secs ttl * nanos)) \<or>
    ((\<exists>m. r = Inl m) \<and> (absent view w' k \<or> counted view w' k 1 (w_clock w' + script_secs ttl * nanos)))"
proof -
  let ?S = "view (w_redis (advance w))"
  obtain s where w': "w' = (advance w)\<lparr>w_redis := s\<rparr>" and
    c: "(r = fst (ks_incr_expire k (script_secs ttl) ?S) \<and> view s = snd (ks_incr_expire k (script_secs ttl) ?S)) \<or>
     ((\<exists>e. r = Inl e \<and> \<not> errors_Is e RedisNil) \<and> (view s = ?S \<or> view s = snd (ks_incr_expire k (script_secs ttl) ?S)))"
    by (rule on_redis_cases [OF executes_runIncrExpire run])
  have a: "ks_entry ?S k = None"
    using absent_frame [OF advance_frame [of UNIV w] wt UNIV_I abs] by (simp add: absent_def)
  have "0 < script_secs ttl" by (simp add: script_secs_def)
  with a have f: "ks_incr_expire k (script_secs ttl) ?S =
      (Inr 1, ks_put k (Some (RCount 1, Some (ks_now ?S + script_secs ttl * nanos))) ?S)"
    by (rule incr_expire_first)
  have up: "counted view w' k 1 (w_clock w' + script_secs ttl * nanos)"
    if "view s = snd (ks_incr_expire k (script_secs ttl) ?S)"
    using that unfolding f w' by (simp add: counted_def stored_def skew_def ks_put_entries)
  have same: "absent view w' k" if "view s = ?S" using that a unfolding w' by (simp add: absent_def)
  show ?thesis using c up same f by auto
qed

text \<open>Setting a key with a TTL, and asking for it.\<close>

lemma set_until:
  assumes wt: "w_wait w = elapse" and run: "run_state (on_redis (c_Set c k v d)) w = (Inr u, w')"
    and d: "0 < d"
  shows "until view w' k (w_clock w' + ttl_millis d)"
proof -
  let ?S = "view (w_redis (advance w))"
  obtain s where w': "w' = (advance w)\<lparr>w_redis := s\<rparr>" and c: "view s = snd (ks_set k v d ?S)"
    by (rule on_redis_cases [OF set run]) auto
  show ?thesis using d unfolding w'
    by (simp add: until_def stored_def skew_def c ks_set_def ks_put_entries ks_ttl_def)
qed

lemma exists_until:
  assumes wt: "w_wait w = elapse" and un: "until view w k e"
    and run: "run_state (on_redis (c_Exists c k)) w = (Inr n, w')" and early: "w_clock w' < e"
  shows "0 < n"
proof -
  let ?S = "view (w_redis (advance w))"
  obtain s where w': "w' = (advance w)\<lparr>w_redis := s\<rparr>" and c: "Inr n = fst (ks_exists k ?S)"
    by (rule on_redis_cases [OF exists run]) auto
  obtain v where "stored view (advance w) k = Some (v, Some (e + skew view (advance w)))"
    using un by (auto simp: until_def advance_stored wt)
  from stored_entry [OF this] early w' have "ks_live ?S k = Some v" by (simp add: ks_live_def)
  with c show ?thesis by (simp add: ks_exists_def)
qed

lemma exists_absent:
  assumes wt: "w_wait w = elapse" and un: "absent view w k"
    and run: "run_state (on_redis (c_Exists c k)) w = (Inr n, w')"
  shows "n = 0"
proof -
  let ?S = "view (w_redis (advance w))"
  obtain s where w': "w' = (advance w)\<lparr>w_redis := s\<rparr>" and c: "Inr n = fst (ks_exists k ?S)"
    by (rule on_redis_cases [OF exists run]) auto
  have "ks_entry ?S k = None"
    using absent_frame [OF advance_frame [of UNIV w] wt UNIV_I un] by (simp add: absent_def)
  with c show ?thesis by (simp add: ks_exists_def ks_live_def)
qed

end

subsection \<open>The contracts\<close>

text \<open>
  \<open>calls m other w rs w'\<close>: from \<open>w\<close> to \<open>w'\<close> the action \<open>m\<close> was run with the results
  \<open>rs\<close>, and before each run other things happened, along \<open>other\<close>.
\<close>

inductive calls ::
    "('w, 'a) state \<Rightarrow> ('w \<Rightarrow> 'w \<Rightarrow> bool) \<Rightarrow> 'w \<Rightarrow> 'a list \<Rightarrow> 'w \<Rightarrow> bool"
  for m other w where
  none: "calls m other w [] w"
| again: "calls m other w rs w1 \<Longrightarrow> other w1 w2 \<Longrightarrow> run_state m w2 = (r, w3) \<Longrightarrow>
    calls m other w (rs @ [r]) w3"

locale token_blacklist =
  fixes B :: "'w TokenBlacklist" and inv :: "'w \<Rightarrow> bool" and clock :: "'w \<Rightarrow> time"
    and barred :: "'w \<Rightarrow> string \<Rightarrow> time \<Rightarrow> bool"
  assumes add_bars: "inv w \<Longrightarrow> run_state (Blacklist_Add B jti ttl) w = (Inr u, w') \<Longrightarrow> 0 < ttl \<Longrightarrow>
      \<exists>e. barred w' jti e \<and> clock w' + ttl - millis < e"
    and exists_barred: "inv w \<Longrightarrow> barred w jti e \<Longrightarrow>
      run_state (Blacklist_Exists B jti) w = (Inr b, w') \<Longrightarrow> clock w' < e \<Longrightarrow> b"
begin

text \<open>Whatever happens in between, as long as the entry is kept.\<close>

lemma barred_until:
  assumes "inv w" "run_state (Blacklist_Add B jti ttl) w = (Inr u, w1)" "0 < ttl"
    and kept: "\<And>e. barred w1 jti e \<Longrightarrow> barred w2 jti e" and "inv w2"
    and run: "run_state (Blacklist_Exists B jti) w2 = (r, w3)"
    and soon: "clock w3 \<le> clock w1 + ttl - millis"
  shows "r \<noteq> Inr False"
proof
  assume r: "r = Inr False"
  obtain e where "barred w1 jti e" "clock w1 + ttl - millis < e"
    using add_bars assms(1-3) by blast
  with exists_barred [OF assms(5) kept] run r soon show False by force
qed

end

locale rate_limiter =
  fixes A :: "'w RateLimiter" and inv :: "'w \<Rightarrow> bool" and clock :: "'w \<Rightarrow> time"
    and unused :: "'w \<Rightarrow> string \<Rightarrow> bool" and used :: "'w \<Rightarrow> string \<Rightarrow> int \<Rightarrow> time \<Rightarrow> bool"
  assumes allow_inv: "inv w \<Longrightarrow> run_state (Allow A k n d) w = (r, w') \<Longrightarrow> inv w' \<and> clock w \<le> clock w'"
    and allow_first: "inv w \<Longrightarrow> unused w k \<Longrightarrow> run_state (Allow A k n d) w = (Inr b, w') \<Longrightarrow>
      used w' k 1 (clock w' + script_secs d * nanos) \<and> b = (1 \<le> n)"
    and allow_next: "inv w \<Longrightarrow> used w k j e \<Longrightarrow> run_state (Allow A k n d) w = (r, w') \<Longrightarrow> clock w' < e \<Longrightarrow>
      (used w' k (j + 1) e \<and> r = Inr (j + 1 \<le> n)) \<or>
      ((\<exists>m. r = Inl m) \<and> (used w' k j e \<or> used w' k (j + 1) e))"
begin

lemma calls_used:
  assumes "calls (Allow A k n d) other w rs w'" "inv w" "used w k j e" "clock w' < e" "0 \<le> j"
    and other: "\<And>u v i. other u v \<Longrightarrow> inv u \<Longrightarrow> inv v \<and> clock u \<le> clock v \<and> (used u k i e \<longrightarrow> used v k i e)"
  shows "inv w' \<and> (\<exists>i. used w' k i e \<and> j + int (length (filter (\<lambda>r. r = Inr True) rs)) \<le> i \<and>
    int (length (filter (\<lambda>r. r = Inr True) rs)) \<le> max 0 (n - j))"
  using assms(1,4)
proof (induction rule: calls.induct)
  case none
  then show ?case using assms by auto
next
  case (again rs w1 w2 r w3)
  have order: "inv w2 \<Longrightarrow> clock w2 \<le> clock w3" "inv w1 \<Longrightarrow> clock w1 \<le> clock w2"
    using allow_inv again.hyps(3) other [OF again.hyps(2)] by blast+
  have inv1: "inv w1"
    using again.hyps(1)
  proof (induction rule: calls.induct)
    case (again rs w1 w2 r w3)
    then show ?case using other allow_inv by blast
  qed (rule assms(2))
  have inv2: "inv w2" using other [OF again.hyps(2) inv1] by simp
  with inv1 order again.prems have "clock w1 < e" by linarith
  from again.IH [OF this] obtain i where i: "used w1 k i e"
    "j + int (length (filter (\<lambda>r. r = Inr True) rs)) \<le> i"
    "int (length (filter (\<lambda>r. r = Inr True) rs)) \<le> max 0 (n - j)" by blast
  have "used w2 k i e" using other [OF again.hyps(2) inv1] i(1) by blast
  from allow_next [OF inv2 this again.hyps(3) again.prems] i(2,3)
  show ?case using allow_inv [OF inv2 again.hyps(3)] by fastforce
qed

text \<open>At most \<open>n\<close> calls are let through in a window, whatever happens between them.\<close>

lemma at_most_limit:
  assumes "inv w" "unused w k" "run_state (Allow A k n d) w = (Inr b, w1)"
    and "calls (Allow A k n d) other w1 rs w2" "clock w2 < clock w1 + script_secs d * nanos"
    and "\<And>u v i e. other u v \<Longrightarrow> inv u \<Longrightarrow> inv v \<and> clock u \<le> clock v \<and> (used u k i e \<longrightarrow> used v k i e)"
  shows "int (length (filter (\<lambda>r. r = Inr True) (Inr b # rs))) \<le> max 0 n"
proof -
  have u: "used w1 k 1 (clock w1 + script_secs d * nanos)" and b: "b = (1 \<le> n)"
    using allow_first assms(1-3) by blast+
  have "inv w1" using allow_inv assms(1,3) by blast
  from calls_used [OF assms(4) this u assms(5)] assms(6) b show ?thesis by fastforce
qed

end

locale login_lockout =
  fixes L :: "'w LoginLockout" and inv :: "'w \<Rightarrow> bool" and clock :: "'w \<Rightarrow> time"
    and clear :: "'w \<Rightarrow> string \<Rightarrow> bool" and failures :: "'w \<Rightarrow> string \<Rightarrow> int \<Rightarrow> time \<Rightarrow> bool"
    and locked :: "'w \<Rightarrow> string \<Rightarrow> time \<Rightarrow> bool"
  assumes record_inv: "inv w \<Longrightarrow> run_state (RecordFailure L k m d) w = (r, w') \<Longrightarrow>
      inv w' \<and> clock w \<le> clock w'"
    and record_first: "inv w \<Longrightarrow> clear w k \<Longrightarrow> run_state (RecordFailure L k m d) w = (Inr u, w') \<Longrightarrow>
      \<exists>e. failures w' k 1 e \<and> clock w + script_secs d * nanos \<le> e"
    and record_next: "inv w \<Longrightarrow> failures w k j e \<Longrightarrow> run_state (RecordFailure L k m d) w = (Inr u, w') \<Longrightarrow>
      clock w' < e \<Longrightarrow> failures w' k (j + 1) e"
    and record_locks: "inv w \<Longrightarrow> (clear w k \<and> j = 0) \<or> (failures w k j e \<and> clock w' < e) \<Longrightarrow>
      run_state (RecordFailure L k m d) w = (Inr u, w') \<Longrightarrow> m \<le> j + 1 \<Longrightarrow> 0 < d \<Longrightarrow>
      \<exists>e'. locked w' k e' \<and> clock w' + d - millis < e'"
    and check_locked: "inv w \<Longrightarrow> locked w k e \<Longrightarrow> run_state (IsLocked L k) w = (Inr b, w') \<Longrightarrow>
      clock w' < e \<Longrightarrow> b"
    and check_inv: "inv w \<Longrightarrow> run_state (IsLocked L k) w = (q, w') \<Longrightarrow> inv w' \<and> clock w \<le> clock w'"
begin

text \<open>Failures that were recorded add up, and the last of \<open>m\<close> locks.\<close>

lemma failures_add_up:
  assumes "calls (RecordFailure L k m d) other w rs w'" "inv w" "failures w k j e" "clock w' < e"
    and "\<forall>r \<in> set rs. \<exists>u. r = Inr u"
    and other: "\<And>u v i. other u v \<Longrightarrow> inv u \<Longrightarrow> inv v \<and> clock u \<le> clock v \<and>
      (failures u k i e \<longrightarrow> failures v k i e)"
  shows "inv w' \<and> failures w' k (j + int (length rs)) e"
  using assms(1,4,5)
proof (induction rule: calls.induct)
  case none
  then show ?case using assms by simp
next
  case (again rs w1 w2 r w3)
  have inv1: "inv w1"
    using again.hyps(1)
  proof (induction rule: calls.induct)
    case (again rs w1 w2 r w3)
    then show ?case using other record_inv by blast
  qed (rule assms(2))
  have inv2: "inv w2" "clock w1 \<le> clock w2" using other [OF again.hyps(2) inv1] by auto
  have inv3: "inv w3" "clock w2 \<le> clock w3" using record_inv [OF inv2(1) again.hyps(3)] by auto
  obtain u where u: "r = Inr u" using again.prems(2) by auto
  have "failures w1 k (j + int (length rs)) e" using again.IH again.prems inv2 inv3 by auto
  then have "failures w2 k (j + int (length rs)) e" using other [OF again.hyps(2) inv1] by blast
  from record_next [OF inv2(1) this again.hyps(3) [unfolded u] again.prems(1)] inv3(1)
  show ?case by (simp add: algebra_simps)
qed

lemma locks_at_limit:
  assumes "inv w" "clear w k" "run_state (RecordFailure L k m d) w = (Inr u, w1)"
    and "calls (RecordFailure L k m d) other w1 rs w2" "\<forall>r \<in> set rs. \<exists>u. r = Inr u"
    and "other w2 w3" "run_state (RecordFailure L k m d) w3 = (Inr v, w4)"
    and "m \<le> 2 + int (length rs)" "0 < d" "clock w4 < clock w + script_secs d * nanos"
    and other: "\<And>u v i e. other u v \<Longrightarrow> inv u \<Longrightarrow> inv v \<and> clock u \<le> clock v \<and>
      (failures u k i e \<longrightarrow> failures v k i e)"
  shows "\<exists>e. locked w4 k e \<and> clock w4 + d - millis < e"
proof -
  obtain e where f: "failures w1 k 1 e" "clock w + script_secs d * nanos \<le> e"
    using record_first assms(1-3) by blast
  have inv1: "inv w1" using record_inv assms(1,3) by blast
  have inv2: "inv w2"
    using assms(4)
  proof (induction rule: calls.induct)
    case (again rs w1 w2 r w3)
    then show ?case using other record_inv by blast
  qed (rule inv1)
  have inv3: "inv w3" "clock w2 \<le> clock w3" using other [OF assms(6) inv2] by auto
  have "clock w3 \<le> clock w4" using record_inv inv3(1) assms(7) by blast
  then have early: "clock w4 < e" "clock w2 < e" using inv3(2) assms(10) f(2) by linarith+
  from failures_add_up [OF assms(4) inv1 f(1) early(2) assms(5) other]
  have "failures w2 k (1 + int (length rs)) e" by blast
  then have "failures w3 k (1 + int (length rs)) e" using other [OF assms(6) inv2] by blast
  with record_locks [OF inv3(1) _ assms(7), of "1 + int (length rs)" e] early(1) assms(8,9)
  show ?thesis by auto
qed

end

subsection \<open>The code keeps the contracts\<close>

context redis_server
begin

lemma blacklist_adds:
  assumes "w_wait w = elapse" "run_state (Blacklist_add c jti ttl) w = (Inr u, w')" "0 < ttl"
  shows "\<exists>e. until view w' (keyBlacklist jti) e \<and> w_clock w' + ttl - millis < e"
  using set_until [OF assms(1) assms(2) [unfolded Blacklist_add_def] assms(3)]
    ttl_millis_bounds [OF assms(3)] by (intro exI conjI) auto

lemma blacklist_exists:
  assumes "w_wait w = elapse" "until view w (keyBlacklist jti) e"
    "run_state (Blacklist_exists c jti) w = (Inr b, w')" "w_clock w' < e"
  shows b
proof -
  obtain n where "run_state (on_redis (c_Exists c (keyBlacklist jti))) w = (Inr n, w')" "b = (0 < n)"
    using assms(3) by (auto simp: Blacklist_exists_def or_return_ok_iff run_ok)
  with exists_until [OF assms(1,2) _ assms(4)] show ?thesis by blast
qed

lemma allow_cases:
  assumes "run_state (RateLimiter_Allow c k n d) w = (r, w')"
  obtains a where "run_state (on_redis (runIncrExpire c (keyRateLimit k) d)) w = (a, w')"
    "r = map_sum id (\<lambda>i. i \<le> n) a"
  using assms by (auto simp: RateLimiter_Allow_def run_or_return run_ok
      split: prod.splits sum.splits)

lemma record_cases:
  assumes "run_state (Lockout_RecordFailure c k m d) w = (Inr u, w')"
  obtains i w1 where "run_state (on_redis (runIncrExpire c (keyLoginFail k) d)) w = (Inr i, w1)"
    "i < m \<Longrightarrow> w' = w1"
    "m \<le> i \<Longrightarrow> run_state (on_redis (c_Set c (keyLockout k) ''1'' d)) w1 = (Inr u, w')"
  using assms by (auto simp: Lockout_RecordFailure_def or_return_ok_iff run_ok split: if_splits)

lemma store_inv:
  assumes "effect (redis_frame view elapse {}) m" "w_wait w = elapse" "run_state m w = (r, w')"
  shows "w_wait w' = elapse \<and> w_clock w \<le> w_clock w'"
  using effectD [OF assms(1,3)] assms(2) by (auto simp: redis_frame_def)

lemma record_kept:
  assumes "run_state (on_redis (c_Set c (keyLockout k) v d)) w1 = (q, w')" "w_wait w1 = elapse"
  shows "counted view w1 (keyLoginFail k) j e \<Longrightarrow> counted view w' (keyLoginFail k) j e"
proof -
  have "effect (ks_frame view {keyLoginFail k}) (c_Set c (keyLockout k) v d)"
    by (rule command_frames) simp
  from effectD [OF effect_on_redis [OF this] assms(1)]
  have "redis_frame view elapse {keyLoginFail k} w1 w'" .
  then show "counted view w1 (keyLoginFail k) j e \<Longrightarrow> counted view w' (keyLoginFail k) j e"
    using assms(2) by (rule until_frame(2)) simp
qed

lemma record_count:
  assumes "w_wait w = elapse" "run_state (Lockout_RecordFailure c k m d) w = (Inr u, w')"
    and "(absent view w (keyLoginFail k) \<and> j = 0) \<or>
      (counted view w (keyLoginFail k) j e \<and> w_clock w' < e)"
  shows "\<exists>e'. counted view w' (keyLoginFail k) (j + 1) e' \<and>
      (if j = 0 then w_clock w + script_secs d * nanos \<le> e' else e' = e)"
    and "m \<le> j + 1 \<Longrightarrow> 0 < d \<Longrightarrow>
      \<exists>e'. until view w' (keyLockout k) e' \<and> w_clock w' + d - millis < e'"
proof -
  obtain i w1 where hit: "run_state (on_redis (runIncrExpire c (keyLoginFail k) d)) w = (Inr i, w1)"
    and low: "i < m \<Longrightarrow> w' = w1"
    and high: "m \<le> i \<Longrightarrow> run_state (on_redis (c_Set c (keyLockout k) ''1'' d)) w1 = (Inr u, w')"
    by (rule record_cases [OF assms(2)]) blast
  have t1: "w_wait w1 = elapse" "w_clock w \<le> w_clock w1"
    using redis_step_time [OF assms(1) hit] by simp_all
  have t2: "w_clock w1 \<le> w_clock w'" using redis_step_time(2) [OF t1(1) high] low
    by (cases "i < m") auto
  have c1: "i = j + 1 \<and> (\<exists>e'. counted view w1 (keyLoginFail k) (j + 1) e' \<and>
      (if j = 0 then w_clock w + script_secs d * nanos \<le> e' else e' = e))"
    using assms(3)
  proof
    assume "absent view w (keyLoginFail k) \<and> j = 0"
    with hit_first [OF assms(1) hit] t1(2) show ?thesis by auto
  next
    assume a: "counted view w (keyLoginFail k) j e \<and> w_clock w' < e"
    then have "0 < j" by (simp add: counted_def)
    with hit_counted [OF assms(1) hit] a t2 show ?thesis by fastforce
  qed
  then obtain e' where e': "counted view w1 (keyLoginFail k) (j + 1) e'"
    "if j = 0 then w_clock w + script_secs d * nanos \<le> e' else e' = e" by blast
  have "counted view w' (keyLoginFail k) (j + 1) e'"
    using e'(1) low record_kept [OF high t1(1)] by (cases "i < m") auto
  with e'(2) show "\<exists>e'. counted view w' (keyLoginFail k) (j + 1) e' \<and>
      (if j = 0 then w_clock w + script_secs d * nanos \<le> e' else e' = e)" by blast
  assume m: "m \<le> j + 1" and d: "0 < d"
  with c1 high set_until [OF t1(1) _ d] have "until view w' (keyLockout k) (w_clock w' + ttl_millis d)"
    by blast
  with ttl_millis_bounds [OF d] show "\<exists>e'. until view w' (keyLockout k) e' \<and> w_clock w' + d - millis < e'"
    by (intro exI conjI) auto
qed

lemma locked_check:
  assumes "w_wait w = elapse" "until view w (keyLockout k) e"
    "run_state (Lockout_IsLocked c k) w = (Inr b, w')" "w_clock w' < e"
  shows b
proof -
  obtain n where "run_state (on_redis (c_Exists c (keyLockout k))) w = (Inr n, w')" "b = (0 < n)"
    using assms(3) by (auto simp: Lockout_IsLocked_def or_return_ok_iff run_ok)
  with exists_until [OF assms(1,2) _ assms(4)] show ?thesis by blast
qed

end

sublocale redis_server \<subseteq> bl: token_blacklist "RedisBlacklist c" "\<lambda>w. w_wait w = elapse" w_clock
    "\<lambda>w jti e. until view w (keyBlacklist jti) e"
proof (unfold_locales, goal_cases)
  case (1 w jti ttl u w')
  then show ?case unfolding redis_store_simps by (rule blacklist_adds)
next
  case (2 w jti e b w')
  then show ?case unfolding redis_store_simps by (rule blacklist_exists)
qed

sublocale redis_server \<subseteq> rl: rate_limiter "RedisRateLimiter c" "\<lambda>w. w_wait w = elapse" w_clock
    "\<lambda>w k. absent view w (keyRateLimit k)" "\<lambda>w k. counted view w (keyRateLimit k)"
proof (unfold_locales, goal_cases)
  case (1 w k n d r w')
  have "effect (redis_frame view elapse {}) (RateLimiter_Allow c k n d)" by (rule store_frames) simp
  then show ?case using 1 unfolding redis_store_simps by (rule store_inv)
next
  case (2 w k n d b w')
  then have "run_state (RateLimiter_Allow c k n d) w = (Inr b, w')" by simp
  then obtain a where "run_state (on_redis (runIncrExpire c (keyRateLimit k) d)) w = (a, w')"
    "Inr b = map_sum id (\<lambda>i. i \<le> n) a" by (rule allow_cases)
  with hit_first [OF 2(1) _ 2(2)] show ?case by fastforce
next
  case (3 w k j e n d r w')
  then have "run_state (RateLimiter_Allow c k n d) w = (r, w')" by simp
  then obtain a where "run_state (on_redis (runIncrExpire c (keyRateLimit k) d)) w = (a, w')"
    "r = map_sum id (\<lambda>i. i \<le> n) a" by (rule allow_cases)
  with hit_counted [OF 3(1) _ 3(2) 3(4)] show ?case by fastforce
qed

sublocale redis_server \<subseteq> lo: login_lockout "RedisLockout c" "\<lambda>w. w_wait w = elapse" w_clock
    "\<lambda>w k. absent view w (keyLoginFail k)" "\<lambda>w k. counted view w (keyLoginFail k)"
    "\<lambda>w k. until view w (keyLockout k)"
proof (unfold_locales, goal_cases)
  case (1 w k m d r w')
  have "effect (redis_frame view elapse {}) (Lockout_RecordFailure c k m d)"
    by (rule store_frames) simp_all
  then show ?case using 1 unfolding redis_store_simps by (rule store_inv)
next
  case (2 w k m d u w')
  with record_count(1) [of w k m d u w' 0] show ?case by fastforce
next
  case (3 w k j e m d u w')
  then have "0 < j" by (simp add: counted_def)
  with 3 record_count(1) [of w k m d u w' j e] show ?case by fastforce
next
  case (4 w k j e w' m d u)
  with record_count(2) [of w k m d u w' j e] show ?case by fastforce
next
  case (5 w k e b w')
  then show ?case unfolding redis_store_simps by (rule locked_check)
next
  case (6 w k q w')
  have "effect (redis_frame view elapse {}) (Lockout_IsLocked c k)" by (rule store_frames)
  then show ?case using 6 unfolding redis_store_simps by (rule store_inv)
qed

end
