(* ===== verification/Httputil.thy ===== *)
theory Httputil
  imports GoJson Jwt RedisContracts
begin

text \<open>
  \<open>pkg/httputil\<close>: JSON responses and stable API errors (\<open>error.go\<close>), the refresh cookie
  (\<open>cookie.go\<close>), client address, bearer token, request bodies and idempotency (\<open>http.go\<close>). A
  handler runs on the world together with the response under construction. The locale
  \<open>idempotency_store\<close> is the contract of the cache behind \<open>RunIdempotent\<close>.
\<close>

subsection \<open>Requests and responses\<close>

text \<open>
  \<open>req_broken\<close>: the body cannot be read to its end. The claims and the trace identifiers are
  the context values that middleware sets.
\<close>

record request =
  req_method :: string
  req_path :: string
  req_header :: "string \<Rightarrow> string"
  req_cookie :: "string \<Rightarrow> string option"
  req_remote :: string
  req_body :: string
  req_broken :: bool
  req_claims :: "Claims option"
  req_request_id :: string
  req_correlation_id :: string

record cookie =
  ck_Name :: string
  ck_Value :: string
  ck_Path :: string
  ck_Domain :: string
  ck_Secure :: bool
  ck_HttpOnly :: bool
  ck_SameSite :: string
  ck_MaxAge :: int

record response =
  resp_status :: "int option"
  resp_header :: "(string \<times> string) list"
  resp_cookies :: "cookie list"
  resp_body :: string

definition no_response :: response where
  "no_response = \<lparr>resp_status = None, resp_header = [], resp_cookies = [], resp_body = []\<rparr>"

type_synonym ('w, 'a) http = "('w \<times> response, 'a) state"

definition service :: "('w, 'a) state \<Rightarrow> ('w, 'a) http" where
  "service m = State (\<lambda>(w, p). case run_state m w of (x, w') \<Rightarrow> (x, (w', p)))"

definition respond :: "(response \<Rightarrow> response) \<Rightarrow> ('w, unit) http" where
  "respond f = State (\<lambda>(w, p). ((), (w, f p)))"

text \<open>Headers count until the status is written, the first status counts, and a body implies 200.\<close>

definition header_Set :: "string \<Rightarrow> string \<Rightarrow> ('w, unit) http" where
  "header_Set k v = respond (\<lambda>p. if resp_status p = None
     then p\<lparr>resp_header := (k, v) # filter (\<lambda>h. fst h \<noteq> k) (resp_header p)\<rparr> else p)"

definition WriteHeader :: "int \<Rightarrow> ('w, unit) http" where
  "WriteHeader st = respond (\<lambda>p. if resp_status p = None then p\<lparr>resp_status := Some st\<rparr> else p)"

definition write_body :: "string \<Rightarrow> ('w, unit) http" where
  "write_body b = respond (\<lambda>p. p\<lparr>resp_body := resp_body p @ b,
     resp_status := (case resp_status p of None \<Rightarrow> Some 200 | Some st \<Rightarrow> Some st)\<rparr>)"

definition write_JSON :: "int \<Rightarrow> json \<Rightarrow> ('w, unit) http" where
  "write_JSON status payload = do {
     header_Set ''Content-Type'' ''application/json'';
     WriteHeader status;
     write_body (json_Marshal payload @ [CHR 0x0A]) }"

definition WriteBytes :: "int \<Rightarrow> string \<Rightarrow> ('w, unit) http" where
  "WriteBytes status body = do {
     header_Set ''Content-Type'' ''application/json'';
     WriteHeader status;
     write_body body }"

definition write_Message :: "int \<Rightarrow> string \<Rightarrow> ('w, unit) http" where
  "write_Message status msg = write_JSON status (json_map [(''message'', JStr msg)])"

subsection \<open>Errors\<close>

record APIError =
  api_Code :: string
  api_Message :: string

text \<open>\<open>Details\<close> is never set, and \<open>omitempty\<close> leaves it out.\<close>

definition json_APIError :: "APIError \<Rightarrow> json" where
  "json_APIError e = JObj [(''code'', JStr (api_Code e)), (''message'', JStr (api_Message e))]"

definition MapError :: "err \<Rightarrow> int \<times> APIError" where
  "MapError e =
     (if errors_Is e ErrInvalidInput
      then (400, \<lparr>api_Code = ''invalid_request'', api_Message = ''Invalid request''\<rparr>)
      else if errors_Is e ErrConflict
      then (409, \<lparr>api_Code = ''conflict'', api_Message = ''Resource already exists''\<rparr>)
      else if errors_Is e ErrUnauthorized \<or> errors_Is e ErrTokenInvalid \<or> errors_Is e ErrTokenExpired
      then (401, \<lparr>api_Code = ''unauthorized'', api_Message = ''Unauthorized''\<rparr>)
      else if errors_Is e ErrForbidden
      then (403, \<lparr>api_Code = ''forbidden'', api_Message = ''Forbidden''\<rparr>)
      else if errors_Is e ErrAccountLocked
      then (429, \<lparr>api_Code = ''account_locked'', api_Message = ''Account temporarily locked''\<rparr>)
      else if errors_Is e ErrRateLimited
      then (429, \<lparr>api_Code = ''rate_limited'', api_Message = ''Rate limit exceeded''\<rparr>)
      else if errors_Is e ErrNotFound
      then (404, \<lparr>api_Code = ''not_found'', api_Message = ''Not found''\<rparr>)
      else (500, \<lparr>api_Code = ''internal'', api_Message = ''Internal server error''\<rparr>))"

definition WriteError :: "err \<Rightarrow> ('w, unit) http" where
  "WriteError e = (case MapError e of (status, apiErr) \<Rightarrow> write_JSON status (json_APIError apiErr))"

definition WriteDecodeError :: "('w, unit) http" where
  "WriteDecodeError = write_JSON 400
     (json_APIError \<lparr>api_Code = ''invalid_json'', api_Message = ''Invalid JSON body''\<rparr>)"

subsection \<open>The refresh cookie\<close>

definition parseSameSite :: "string \<Rightarrow> string" where
  "parseSameSite v =
     (if v = ''Lax'' \<or> v = ''lax'' then ''Lax''
      else if v = ''None'' \<or> v = ''none'' then ''None'' else ''Strict'')"

definition refreshCookie :: "JWTConfig \<Rightarrow> string \<Rightarrow> int \<Rightarrow> cookie" where
  "refreshCookie cfg val maxAge =
     (let path = (if jwt_RefreshCookiePath cfg = [] then ''/'' else jwt_RefreshCookiePath cfg)
      in \<lparr>ck_Name = jwt_RefreshCookieName cfg, ck_Value = val, ck_Path = path,
          ck_Domain = jwt_RefreshCookieDomain cfg, ck_Secure = jwt_RefreshCookieSecure cfg,
          ck_HttpOnly = True, ck_SameSite = parseSameSite (jwt_RefreshCookieSameSite cfg),
          ck_MaxAge = maxAge\<rparr>)"

text \<open>\<open>http.SetCookie\<close> drops a cookie whose name is not a token.\<close>

definition token_char :: "char \<Rightarrow> bool" where
  "token_char c \<longleftrightarrow> ascii_letter (byte c) \<or> ascii_digit (byte c) \<or>
     c \<in> set ''!#$%&*+-.^_|~'' \<or> c = CHR 0x27 \<or> c = CHR 0x60"

definition http_SetCookie :: "cookie \<Rightarrow> ('w, unit) http" where
  "http_SetCookie ck = respond (\<lambda>p.
     if ck_Name ck \<noteq> [] \<and> (\<forall>c \<in> set (ck_Name ck). token_char c) \<and> resp_status p = None
     then p\<lparr>resp_cookies := resp_cookies p @ [ck]\<rparr> else p)"

definition SetRefreshCookie :: "JWTConfig \<Rightarrow> string \<Rightarrow> ('w, unit) http" where
  "SetRefreshCookie cfg refresh =
     (if refresh = [] then State_Monad.return ()
      else http_SetCookie (refreshCookie cfg refresh (whole_seconds (jwt_RefreshTTL cfg))))"

definition ClearRefreshCookie :: "JWTConfig \<Rightarrow> ('w, unit) http" where
  "ClearRefreshCookie cfg = http_SetCookie (refreshCookie cfg [] (-1))"

definition RefreshFromCookie :: "request \<Rightarrow> JWTConfig \<Rightarrow> string" where
  "RefreshFromCookie r cfg =
     (case req_cookie r (jwt_RefreshCookieName cfg) of None \<Rightarrow> [] | Some v \<Rightarrow> v)"

subsection \<open>Reading requests\<close>

definition MaxBody :: nat where "MaxBody = 1048576"

definition ClientIP :: "request \<Rightarrow> string" where
  "ClientIP r =
     (case SplitHostPort (TrimSpace (req_remote r)) of
        None \<Rightarrow> trim_bytes ''[]'' (TrimSpace (req_remote r))
      | Some (host, _) \<Rightarrow> trim_bytes ''[]'' host)"

definition BearerToken :: "string \<Rightarrow> string" where
  "BearerToken header =
     (case cut_byte (CHR '' '') header of
        None \<Rightarrow> []
      | Some (scheme, rest) \<Rightarrow>
          if \<not> EqualFold scheme ''Bearer'' then [] else TrimSpace rest)"

definition body_read :: "request \<Rightarrow> string option" where
  "body_read r = (if req_broken r \<or> MaxBody < length (req_body r) then None else Some (req_body r))"

text \<open>
  \<open>dec s\<close> is the JSON decoder on the stream \<open>s\<close>, unknown fields disallowed: the value it reads and
  what it leaves of the stream.
\<close>

definition httputil_Decode ::
    "(string \<Rightarrow> ('a \<times> string) option) \<Rightarrow> request \<Rightarrow> ('a \<Rightarrow> ('w, unit) http) \<Rightarrow> ('w, unit) http" where
  "httputil_Decode dec r k =
     (case body_read r of
        None \<Rightarrow> WriteDecodeError
      | Some body \<Rightarrow>
          (case dec body of
             None \<Rightarrow> WriteDecodeError
           | Some (x, rest) \<Rightarrow> if json_eof rest then k x else WriteDecodeError))"

definition ReadBodyHash :: "crypto_lib \<Rightarrow> request \<Rightarrow> (string \<times> string) option" where
  "ReadBodyHash C r = (case body_read r of
     None \<Rightarrow> None | Some raw \<Rightarrow> Some (raw, hex_EncodeToString (sha256_Sum C raw)))"

definition WriteTokenPair :: "TokenPair \<Rightarrow> ('w, unit) http" where
  "WriteTokenPair pair = write_JSON 200 (json_map
     [(''access_token'', JStr (AccessToken pair)), (''expires_in'', JInt (ExpiresIn pair)),
      (''token_type'', JStr ''Bearer'')])"

definition MessageWithDevToken :: "bool \<Rightarrow> string \<Rightarrow> string \<Rightarrow> string \<Rightarrow> (string \<times> json) list" where
  "MessageWithDevToken expose message tokenKey token =
     [(''message'', JStr message)] @ (if expose \<and> token \<noteq> [] then [(tokenKey, JStr token)] else [])"

subsection \<open>Idempotency\<close>

record 'w IdempotencyStore =
  Idem_Get :: "string \<Rightarrow> ('w, string option) call"
  Idem_Set :: "string \<Rightarrow> string \<Rightarrow> duration \<Rightarrow> ('w, unit) call"
  Idem_SetNX :: "string \<Rightarrow> string \<Rightarrow> duration \<Rightarrow> ('w, bool) call"
  Idem_Delete :: "string \<Rightarrow> ('w, unit) call"

definition RedisIdempotency :: "'r Client \<Rightarrow> ('d, 'r) world IdempotencyStore" where
  "RedisIdempotency c = \<lparr>Idem_Get = Idempotency_Get c, Idem_Set = Idempotency_Set c,
     Idem_SetNX = Idempotency_SetNX c, Idem_Delete = Idempotency_Delete c\<rparr>"

definition idemTTL :: duration where "idemTTL = 5 * minute"

definition writeCached :: "'w IdempotencyStore \<Rightarrow> string \<Rightarrow> ('w, bool) http" where
  "writeCached store key = do {
     r \<leftarrow> service (Idem_Get store key);
     (case r of
        Inl _ \<Rightarrow> State_Monad.return False
      | Inr None \<Rightarrow> State_Monad.return False
      | Inr (Some b) \<Rightarrow>
          if b = [] \<or> hd b \<noteq> CHR ''{'' then State_Monad.return False
          else do { WriteBytes 201 b; State_Monad.return True }) }"

definition RunIdempotent ::
    "'w IdempotencyStore \<Rightarrow> string \<Rightarrow> ('w, string) call \<Rightarrow> ('w, unit) http" where
  "RunIdempotent store cacheKey fn = do {
     hit \<leftarrow> writeCached store cacheKey;
     if hit then State_Monad.return ()
     else do {
       let lockKey = cacheKey @ '':lock'';
       a \<leftarrow> service (Idem_SetNX store lockKey ''1'' idemTTL);
       if a \<noteq> Inr True then do {
         hit2 \<leftarrow> writeCached store cacheKey;
         if hit2 then State_Monad.return () else WriteError ErrConflict }
       else do {
         r \<leftarrow> service fn;
         (case r of
            Inl e \<Rightarrow> do {
              _ \<leftarrow> service (Idem_Delete store lockKey);
              WriteError e }
          | Inr body \<Rightarrow> do {
              _ \<leftarrow> service (Idem_Set store cacheKey body idemTTL);
              _ \<leftarrow> service (Idem_Delete store lockKey);
              WriteBytes 201 body }) } } }"

definition maxIdempotencyKey :: nat where "maxIdempotencyKey = 128"

fun keep_safe :: "unicode \<Rightarrow> nat list \<Rightarrow> string \<Rightarrow> string" where
  "keep_safe U [] b = b"
| "keep_safe U (r # rs) b =
     (if maxIdempotencyKey \<le> length b then b
      else keep_safe U rs
        (if IsLetter U r \<or> IsDigit U r \<or> r = 95 \<or> r = 45 then b @ encode_rune r else b))"

definition SanitizeIdempotencyKey :: "unicode \<Rightarrow> string \<Rightarrow> string" where
  "SanitizeIdempotencyKey U key = keep_safe U (runes (TrimSpace key)) []"

subsection \<open>Running the writers\<close>

lemma run_service [run_simps]:
  "run_state (service m) (w, p) = (case run_state m w of (x, w') \<Rightarrow> (x, (w', p)))"
  by (simp add: service_def)

lemma run_respond [run_simps]: "run_state (respond f) (w, p) = ((), (w, f p))"
  by (simp add: respond_def)

text \<open>What a writer leaves, from a response that is still empty.\<close>

definition json_headers :: "(string \<times> string) list \<Rightarrow> (string \<times> string) list" where
  "json_headers hs = (''Content-Type'', ''application/json'') # filter (\<lambda>h. fst h \<noteq> ''Content-Type'') hs"

definition written :: "response \<Rightarrow> int \<Rightarrow> string \<Rightarrow> response" where
  "written p status body = p\<lparr>resp_header := json_headers (resp_header p), resp_status := Some status,
     resp_body := resp_body p @ body\<rparr>"

lemma run_WriteBytes [run_simps]:
  "resp_status p = None \<Longrightarrow> run_state (WriteBytes st b) (w, p) = ((), (w, written p st b))"
  by (simp add: WriteBytes_def header_Set_def WriteHeader_def write_body_def run_respond written_def
      json_headers_def)

lemma run_write_JSON [run_simps]:
  "resp_status p = None \<Longrightarrow>
     run_state (write_JSON st j) (w, p) = ((), (w, written p st (json_Marshal j @ [CHR 0x0A])))"
  by (simp add: write_JSON_def header_Set_def WriteHeader_def write_body_def run_respond written_def
      json_headers_def)

definition error_response :: "response \<Rightarrow> err \<Rightarrow> response" where
  "error_response p e = written p (fst (MapError e))
     (json_Marshal (json_APIError (snd (MapError e))) @ [CHR 0x0A])"

lemma run_WriteError [run_simps]:
  "resp_status p = None \<Longrightarrow> run_state (WriteError e) (w, p) = ((), (w, error_response p e))"
  by (simp add: WriteError_def case_prod_unfold run_write_JSON error_response_def)

lemma written_status [simp]: "resp_status (written p st b) = Some st"
  by (simp add: written_def)

lemma written_cookies [simp]: "resp_cookies (written p st b) = resp_cookies p"
  by (simp add: written_def)

lemma error_response_status [simp]: "resp_status (error_response p e) = Some (fst (MapError e))"
  by (simp add: error_response_def)

subsection \<open>Errors do not leak\<close>

lemma MapError_table:
  "MapError e \<in> {(400, \<lparr>api_Code = ''invalid_request'', api_Message = ''Invalid request''\<rparr>),
     (409, \<lparr>api_Code = ''conflict'', api_Message = ''Resource already exists''\<rparr>),
     (401, \<lparr>api_Code = ''unauthorized'', api_Message = ''Unauthorized''\<rparr>),
     (403, \<lparr>api_Code = ''forbidden'', api_Message = ''Forbidden''\<rparr>),
     (429, \<lparr>api_Code = ''account_locked'', api_Message = ''Account temporarily locked''\<rparr>),
     (429, \<lparr>api_Code = ''rate_limited'', api_Message = ''Rate limit exceeded''\<rparr>),
     (404, \<lparr>api_Code = ''not_found'', api_Message = ''Not found''\<rparr>),
     (500, \<lparr>api_Code = ''internal'', api_Message = ''Internal server error''\<rparr>)}"
  by (simp add: MapError_def)

lemma MapError_sentinels [simp]:
  "fst (MapError ErrInvalidInput) = 400" "fst (MapError ErrConflict) = 409"
  "fst (MapError ErrUnauthorized) = 401" "fst (MapError ErrTokenInvalid) = 401"
  "fst (MapError ErrTokenExpired) = 401" "fst (MapError ErrForbidden) = 403"
  "fst (MapError ErrAccountLocked) = 429" "fst (MapError ErrRateLimited) = 429"
  "fst (MapError ErrNotFound) = 404"
  by (simp_all add: MapError_def)

definition public_errors :: "err list" where
  "public_errors = [ErrInvalidInput, ErrConflict, ErrUnauthorized, ErrTokenInvalid, ErrTokenExpired,
     ErrForbidden, ErrAccountLocked, ErrRateLimited, ErrNotFound]"

text \<open>What a client sees depends only on which sentinels the error wraps.\<close>

lemma MapError_no_leak:
  assumes "\<And>t. t \<in> set public_errors \<Longrightarrow> errors_Is e t = errors_Is e' t"
  shows "MapError e = MapError e'"
  using assms by (simp add: MapError_def public_errors_def)

lemma MapError_internal:
  "fst (MapError e) = 500 \<longleftrightarrow> (\<forall>t \<in> set public_errors. \<not> errors_Is e t)"
  by (simp add: MapError_def public_errors_def)

subsection \<open>Addresses, tokens, cookies\<close>

lemma trim_bytes_id: "\<forall>c \<in> set s. c \<notin> set cutset \<Longrightarrow> trim_bytes cutset s = s"
proof -
  assume a: "\<forall>c \<in> set s. c \<notin> set cutset"
  have d: "dropWhile (\<lambda>c. c \<in> set cutset) xs = xs" if "\<forall>c \<in> set xs. c \<notin> set cutset" for xs
    using that by (cases xs) auto
  show ?thesis using a by (simp add: trim_bytes_def d)
qed

lemma ClientIP_join:
  assumes "req_remote r = JoinHostPort host port" "TrimSpace (req_remote r) = req_remote r"
    and "CHR ''['' \<notin> set host" "CHR '']'' \<notin> set host"
    and "CHR '':'' \<notin> set port" "CHR ''['' \<notin> set port" "CHR '']'' \<notin> set port"
  shows "ClientIP r = host"
proof -
  have "SplitHostPort (TrimSpace (req_remote r)) = Some (host, port)"
    unfolding assms(2) unfolding assms(1) by (rule split_join) (rule assms)+
  moreover have "trim_bytes ''[]'' host = host" using assms(3,4) by (intro trim_bytes_id) auto
  ultimately show ?thesis by (simp add: ClientIP_def)
qed

lemma bearer_no_space:
  assumes "EqualFold scheme ''Bearer''"
  shows "CHR '' '' \<notin> set scheme"
proof
  assume "CHR '' '' \<in> set scheme"
  then have "lower_byte (CHR '' '') \<in> set (map lower_byte scheme)" by simp
  then have "lower_byte (CHR '' '') \<in> set (map lower_byte ''Bearer'')"
    unfolding assms [unfolded EqualFold_def] .
  moreover have "\<not> lower_byte (CHR '' '') \<in> set (map lower_byte ''Bearer'')" by code_simp
  ultimately show False by contradiction
qed

lemma BearerToken_ok:
  assumes "EqualFold scheme ''Bearer''"
  shows "BearerToken (scheme @ CHR '' '' # rest) = TrimSpace rest"
  using cut_byte_append [OF bearer_no_space [OF assms], of rest] assms
  by (simp add: BearerToken_def)

lemma BearerToken_some:
  assumes "BearerToken header \<noteq> []"
  obtains scheme rest where "header = scheme @ CHR '' '' # rest"
    "EqualFold scheme ''Bearer''" "BearerToken header = TrimSpace rest"
proof (cases "cut_byte (CHR '' '') header")
  case None
  with assms show ?thesis by (simp add: BearerToken_def)
next
  case (Some p)
  obtain scheme rest where p: "p = (scheme, rest)" by (cases p)
  with Some have h: "header = scheme @ CHR '' '' # rest" by (simp add: cut_byte_Some)
  from assms Some p have "EqualFold scheme ''Bearer''"
    by (cases "EqualFold scheme ''Bearer''") (simp_all add: BearerToken_def)
  with that h BearerToken_ok show thesis by blast
qed

lemma refreshCookie_flags [simp]:
  "ck_HttpOnly (refreshCookie cfg v m)" "ck_Secure (refreshCookie cfg v m) = jwt_RefreshCookieSecure cfg"
  "ck_Path (refreshCookie cfg v m) \<noteq> []" "ck_Value (refreshCookie cfg v m) = v"
  "ck_MaxAge (refreshCookie cfg v m) = m"
  "ck_SameSite (refreshCookie cfg v m) \<in> {''Lax'', ''None'', ''Strict''}"
  by (simp_all add: refreshCookie_def Let_def parseSameSite_def)

subsection \<open>Idempotent requests\<close>

lemma writeCached_hit:
  assumes "run_state (Idem_Get store key) w = (Inr (Some (CHR ''{'' # b)), w')" "resp_status p = None"
  shows "run_state (writeCached store key) (w, p) = (True, (w', written p 201 (CHR ''{'' # b)))"
  using assms by (simp add: writeCached_def run_simps)

lemma writeCached_miss:
  assumes "run_state (Idem_Get store key) w = (r, w')" "\<forall>b. r \<noteq> Inr (Some (CHR ''{'' # b))"
  shows "run_state (writeCached store key) (w, p) = (False, (w', p))"
proof -
  have "b = [] \<or> hd b \<noteq> CHR ''{''" if "r = Inr (Some b)" for b
    using assms(2) that by (cases b) auto
  then show ?thesis using assms(1)
    by (auto simp: writeCached_def run_simps split: sum.splits option.splits)
qed

text \<open>
  The contract of the cache, and what it gives: while an entry lives, a repeated request is
  answered from it, whatever the operation behind it would do.
\<close>

locale idempotency_store =
  fixes S :: "'w IdempotencyStore" and inv :: "'w \<Rightarrow> bool" and clock :: "'w \<Rightarrow> time"
    and cached :: "'w \<Rightarrow> string \<Rightarrow> string \<Rightarrow> time \<Rightarrow> bool"
  assumes set_caches: "inv w \<Longrightarrow> run_state (Idem_Set S k v d) w = (Inr u, w') \<Longrightarrow> 0 < d \<Longrightarrow>
      inv w' \<and> (\<exists>e. cached w' k v e \<and> clock w' + d - millis < e)"
    and get_cached: "inv w \<Longrightarrow> cached w k v e \<Longrightarrow> run_state (Idem_Get S k) w = (Inr r, w') \<Longrightarrow>
      clock w' < e \<Longrightarrow> r = Some v"
    and delete_keeps: "inv w \<Longrightarrow> cached w k v e \<Longrightarrow> k' \<noteq> k \<Longrightarrow>
      run_state (Idem_Delete S k') w = (q, w') \<Longrightarrow> inv w' \<and> cached w' k v e \<and> clock w \<le> clock w'"
begin

lemma replayed:
  assumes "inv w" "cached w key (CHR ''{'' # b) e" "run_state (Idem_Get S key) w = (Inr r, w')"
    "clock w' < e" "resp_status p = None"
  shows "run_state (RunIdempotent S key fn) (w, p) = ((), (w', written p 201 (CHR ''{'' # b)))"
proof -
  have "r = Some (CHR ''{'' # b)" using get_cached assms(1-4) by blast
  with writeCached_hit [of S key w b w' p] assms(3,5) show ?thesis
    by (simp add: RunIdempotent_def)
qed

text \<open>The first request: nothing cached, the lock taken, the operation succeeds, its body is stored.\<close>

lemma first_request:
  assumes miss: "run_state (Idem_Get S key) w = (Inr None, w1)"
    and lock: "run_state (Idem_SetNX S (key @ '':lock'') ''1'' idemTTL) w1 = (Inr True, w2)"
    and run: "run_state fn w2 = (Inr body, w3)" and i: "inv w3"
    and store: "run_state (Idem_Set S key body idemTTL) w3 = (Inr u, w4)"
    and p: "resp_status p = None"
  obtains w5 e where
    "run_state (RunIdempotent S key fn) (w, p) = ((), (w5, written p 201 body))"
    "inv w5" "cached w5 key body e" "clock w4 + idemTTL - millis < e" "clock w4 \<le> clock w5"
proof -
  obtain q w5 where del: "run_state (Idem_Delete S (key @ '':lock'')) w4 = (q, w5)" by fastforce
  have "0 < idemTTL" by (simp add: idemTTL_def minute_def)
  with set_caches [OF i store] obtain e where e: "inv w4" "cached w4 key body e"
    "clock w4 + idemTTL - millis < e" by blast
  have "key @ '':lock'' \<noteq> key" by simp
  with delete_keeps [OF e(1,2) _ del] have k: "inv w5" "cached w5 key body e" "clock w4 \<le> clock w5"
    by blast+
  have "run_state (RunIdempotent S key fn) (w, p) = ((), (w5, written p 201 body))"
    using writeCached_miss [OF miss, of p] lock run store del p
    by (simp add: RunIdempotent_def run_simps Let_def)
  with that e k show thesis by blast
qed

end

context redis_server
begin

lemma idem_set:
  assumes "w_wait w = elapse" "run_state (Idempotency_Set c k v d) w = (Inr u, w')" "0 < d"
  shows "stored view w' (keyIdem k) = Some (RStr v, Some (w_clock w' + ttl_millis d + skew view w'))"
proof -
  let ?S = "view (w_redis (advance w))"
  obtain s where w': "w' = (advance w)\<lparr>w_redis := s\<rparr>" and c: "view s = snd (ks_set (keyIdem k) v d ?S)"
    by (rule on_redis_cases [OF set assms(2) [unfolded Idempotency_Set_def]]) auto
  show ?thesis using assms(3) unfolding w'
    by (simp add: stored_def skew_def c ks_set_def ks_put_entries ks_ttl_def)
qed

lemma idem_get:
  assumes wt: "w_wait w = elapse" and st: "stored view w (keyIdem k) = Some (RStr v, Some (e + skew view w))"
    and run: "run_state (Idempotency_Get c k) w = (Inr r, w')" and early: "w_clock w' < e"
  shows "r = Some v"
proof -
  let ?S = "view (w_redis (advance w))"
  obtain b where b: "run_state (on_redis (c_Get c (keyIdem k))) w = (b, w')"
    and r: "\<And>e. b = Inl e \<Longrightarrow> errors_Is e RedisNil" "\<And>x. b = Inr x \<Longrightarrow> r = Some x"
    using run by (auto simp: Idempotency_Get_def run_ok run_fail split: prod.splits sum.splits if_splits)
  obtain s where w': "w' = (advance w)\<lparr>w_redis := s\<rparr>" and
    c: "b = fst (ks_get (keyIdem k) ?S) \<or> (\<exists>e. b = Inl e \<and> \<not> errors_Is e RedisNil)"
    by (rule on_redis_cases [OF get b]) blast
  have "stored view (advance w) (keyIdem k) = Some (RStr v, Some (e + skew view (advance w)))"
    using st by (simp add: advance_stored wt)
  from stored_entry [OF this] early w' have "ks_live ?S (keyIdem k) = Some (RStr v)"
    by (simp add: ks_live_def)
  then have "fst (ks_get (keyIdem k) ?S) = Inr v" by (simp add: ks_get_def)
  with c r show ?thesis by metis
qed

lemma idem_delete_frame:
  "keyIdem k' \<notin> K \<Longrightarrow> effect (redis_frame view elapse K) (Idempotency_Delete c k')"
  unfolding Idempotency_Delete_def by (auto intro!: keep_intros)

end

sublocale redis_server \<subseteq> idem: idempotency_store "RedisIdempotency c" "\<lambda>w. w_wait w = elapse" w_clock
    "\<lambda>w k v e. stored view w (keyIdem k) = Some (RStr v, Some (e + skew view w))"
proof (unfold_locales, goal_cases)
  case (1 w k v d u w')
  then have run: "run_state (Idempotency_Set c k v d) w = (Inr u, w')"
    by (simp add: RedisIdempotency_def)
  have "w_wait w' = elapse"
    using redis_step_time(1) [OF 1(1) run [unfolded Idempotency_Set_def]] .
  then show ?case using idem_set [OF 1(1) run 1(3)] ttl_millis_bounds [OF 1(3)] by auto
next
  case (2 w k v e r w')
  then show ?case using idem_get [of w k v e r w'] by (simp add: RedisIdempotency_def)
next
  case (3 w k v e k' q w')
  then have run: "run_state (Idempotency_Delete c k') w = (q, w')"
    by (simp add: RedisIdempotency_def)
  have "effect (redis_frame view elapse {keyIdem k}) (Idempotency_Delete c k')"
    by (rule idem_delete_frame) (use 3(3) in simp)
  from effectD [OF this run] 3(1,2) show ?case by (simp add: redis_frame_def)
qed

subsection \<open>Idempotency keys\<close>

definition safe_key_rune :: "unicode \<Rightarrow> nat \<Rightarrow> bool" where
  "safe_key_rune U r \<longleftrightarrow> IsLetter U r \<or> IsDigit U r \<or> r = 95 \<or> r = 45"

lemma encode_rune_width: "1 \<le> length (encode_rune r)" "length (encode_rune r) \<le> 4"
  by (simp_all add: encode_rune_def)

lemma keep_safe_length: "length b < 132 \<Longrightarrow> length (keep_safe U rs b) < 132"
proof (induction U rs b rule: keep_safe.induct)
  case (2 U r rs b)
  then show ?case using encode_rune_width(2) [of r] by (auto simp: maxIdempotencyKey_def)
qed simp

lemma keep_safe_shape:
  "\<exists>n. keep_safe U rs b = b @ concat (map encode_rune (take n (filter (safe_key_rune U) rs)))"
proof (induction U rs b rule: keep_safe.induct)
  case (1 U b)
  show ?case by simp
next
  case (2 U r rs b)
  show ?case
  proof (cases "maxIdempotencyKey \<le> length b")
    case True
    then show ?thesis by (intro exI [of _ 0]) simp
  next
    case False
    show ?thesis
    proof (cases "safe_key_rune U r")
      case True
      then have k: "IsLetter U r \<or> IsDigit U r \<or> r = 95 \<or> r = 45" by (simp add: safe_key_rune_def)
      from 2 [OF False] k obtain n where
        "keep_safe U rs (b @ encode_rune r) = (b @ encode_rune r) @ concat (map encode_rune (take n (filter (safe_key_rune U) rs)))"
        by auto
      with False k True show ?thesis by (intro exI [of _ "Suc n"]) simp
    next
      case no: False
      then have k: "\<not> (IsLetter U r \<or> IsDigit U r \<or> r = 95 \<or> r = 45)" by (simp add: safe_key_rune_def)
      from 2 [OF False] k obtain n where
        "keep_safe U rs b = b @ concat (map encode_rune (take n (filter (safe_key_rune U) rs)))" by auto
      with False k no show ?thesis by (intro exI [of _ n]) simp
    qed
  qed
qed

lemma sanitized_key_runes:
  "\<forall>r \<in> set (runes (SanitizeIdempotencyKey U key)). safe_key_rune U r"
proof -
  obtain n where n: "SanitizeIdempotencyKey U key =
      concat (map encode_rune (take n (filter (safe_key_rune U) (runes (TrimSpace key)))))"
    using keep_safe_shape [of U "runes (TrimSpace key)" "[]"] by (auto simp: SanitizeIdempotencyKey_def)
  have v: "\<forall>r \<in> set (take n (filter (safe_key_rune U) (runes (TrimSpace key)))). valid_rune r"
    by (auto dest!: in_set_takeD intro: runes_valid)
  show ?thesis unfolding n runes_encode [OF v] by (auto dest!: in_set_takeD)
qed

lemma sanitized_key_length: "length (SanitizeIdempotencyKey U key) < 132"
  unfolding SanitizeIdempotencyKey_def by (rule keep_safe_length) simp

end
