(* ===== verification/Validation.thy ===== *)
theory Validation
  imports RedisContracts
begin

text \<open>
  \<open>pkg/validate\<close> and the input DTOs of \<open>internal/usecase/auth.go\<close> with their validator tags.
  The built-in tags belong to \<open>go-playground/validator\<close>; they are a parameter (record
  \<open>validator_lib\<close>), and \<open>validator_spec\<close> is what its documentation says of them: lengths
  of strings are counted in characters. The custom tags \<open>safe_text\<close> and \<open>safe_password\<close>
  are the code of the package. The lemmas show that the scans by rune are scans by byte, what an
  accepted text cannot contain, and what \<open>SanitizeLogValue\<close> leaves of a header.
\<close>

subsection \<open>Scanning strings\<close>

definition hints :: "string list" where
  "hints = [''%3b'', ''%7c'', ''%26'', ''%60'', ''%24'', ''%28'', ''%29'',
     ''$('', ''${'', [CHR 0x60], ''eval('', ''exec('', ''system('',
     ''/bin/sh'', ''/bin/bash'', ''cmd.exe'', ''powershell'']"

definition shell_meta :: string where
  "shell_meta = [CHR ''|'', CHR ''&'', CHR '';'', CHR 0x60, CHR ''$'', CHR ''('', CHR '')'',
     CHR ''<'', CHR ''>'', CHR 0x22, CHR 0x27, CHR 0x5C, CHR 0x0A, CHR 0x0D]"

definition hasDisallowedControl :: "string \<Rightarrow> bool" where
  "hasDisallowedControl s \<longleftrightarrow>
     (\<exists>r \<in> set (runes s). (r < 32 \<and> r \<noteq> 9) \<or> r = 127) \<or> char_of (0::nat) \<in> set s"

definition containsShellMeta :: "string \<Rightarrow> bool" where
  "containsShellMeta s = ContainsAny s shell_meta"

definition containsEncodedInjectionHint :: "unicode \<Rightarrow> string \<Rightarrow> bool" where
  "containsEncodedInjectionHint U s \<longleftrightarrow> (\<exists>h \<in> set hints. strings_Contains (ToLower U s) h)"

definition IsSafeText :: "unicode \<Rightarrow> string \<Rightarrow> bool" where
  "IsSafeText U s =
     (if s = [] \<or> hasDisallowedControl s then False
      else \<not> containsShellMeta s \<and> \<not> containsEncodedInjectionHint U s)"

definition IsSafePassword :: "string \<Rightarrow> bool" where
  "IsSafePassword s =
     (if char_of (0::nat) \<in> set s then False else \<not> (\<exists>r \<in> set (runes s). r = 10 \<or> r = 13))"

text \<open>\<open>s[:maxLen]\<close> cuts bytes, not runes.\<close>

definition SanitizeLogValue :: "unicode \<Rightarrow> string \<Rightarrow> int \<Rightarrow> string" where
  "SanitizeLogValue U s maxLen =
     (let s = strings_Map (\<lambda>r. if r < 32 \<or> r = 127 \<or> \<not> IsPrint U r then None else Some r) s
      in if 0 < maxLen \<and> maxLen < int (length s) then take (nat maxLen) s else s)"

subsection \<open>Tags\<close>

datatype tag =
  Required | Email | MaxLen nat | MinLen nat | ExactLen nat | Hexadecimal | SafeText | SafePassword

record validator_lib =
  tag_required :: "string \<Rightarrow> bool"
  tag_email :: "string \<Rightarrow> bool"
  tag_max :: "nat \<Rightarrow> string \<Rightarrow> bool"
  tag_min :: "nat \<Rightarrow> string \<Rightarrow> bool"
  tag_len :: "nat \<Rightarrow> string \<Rightarrow> bool"
  tag_hexadecimal :: "string \<Rightarrow> bool"

fun tag_holds :: "validator_lib \<Rightarrow> unicode \<Rightarrow> string \<Rightarrow> tag \<Rightarrow> bool" where
  "tag_holds T U s Required = tag_required T s"
| "tag_holds T U s Email = tag_email T s"
| "tag_holds T U s (MaxLen n) = tag_max T n s"
| "tag_holds T U s (MinLen n) = tag_min T n s"
| "tag_holds T U s (ExactLen n) = tag_len T n s"
| "tag_holds T U s Hexadecimal = tag_hexadecimal T s"
| "tag_holds T U s SafeText = IsSafeText U s"
| "tag_holds T U s SafePassword = IsSafePassword s"

text \<open>A DTO is the list of its tagged fields, those of an embedded struct included.\<close>

definition validate_Struct ::
    "validator_lib \<Rightarrow> unicode \<Rightarrow> (string \<times> tag list) list \<Rightarrow> err + unit" where
  "validate_Struct T U fs =
     (if \<forall>(s, ts) \<in> set fs. \<forall>t \<in> set ts. tag_holds T U s t then Inr ()
      else Inl (Wrapped ''validation failed'' ErrValidation))"

record RegisterInput =
  reg_Email :: string
  reg_Password :: string

record LoginInput =
  login_Email :: string
  login_Password :: string

record ForgotPasswordInput =
  forgot_Email :: string

record TokenInput =
  in_Token :: string

record ResetPasswordInput =
  reset_TokenInput :: TokenInput
  reset_NewPassword :: string

definition register_fields :: "RegisterInput \<Rightarrow> (string \<times> tag list) list" where
  "register_fields i = [(reg_Email i, [Required, Email, MaxLen 255, SafeText]),
     (reg_Password i, [Required, MinLen 8, MaxLen 72, SafePassword])]"

definition login_fields :: "LoginInput \<Rightarrow> (string \<times> tag list) list" where
  "login_fields i = [(login_Email i, [Required, Email, SafeText]),
     (login_Password i, [Required, MaxLen 72, SafePassword])]"

definition forgot_fields :: "ForgotPasswordInput \<Rightarrow> (string \<times> tag list) list" where
  "forgot_fields i = [(forgot_Email i, [Required, Email, SafeText])]"

definition token_fields :: "TokenInput \<Rightarrow> (string \<times> tag list) list" where
  "token_fields i = [(in_Token i, [Required, ExactLen 64, Hexadecimal])]"

definition reset_fields :: "ResetPasswordInput \<Rightarrow> (string \<times> tag list) list" where
  "reset_fields i = token_fields (reset_TokenInput i) @
     [(reset_NewPassword i, [Required, MinLen 8, MaxLen 72, SafePassword])]"

definition requireInput ::
    "validator_lib \<Rightarrow> unicode \<Rightarrow> (string \<times> tag list) list \<Rightarrow> err + unit" where
  "requireInput T U fs =
     (case validate_Struct T U fs of Inl _ \<Rightarrow> Inl ErrInvalidInput | Inr _ \<Rightarrow> Inr ())"

text \<open>The documented meaning of the built-in tags.\<close>

definition validator_spec :: "validator_lib \<Rightarrow> bool" where
  "validator_spec T \<longleftrightarrow>
     (\<forall>s. tag_required T s \<longleftrightarrow> s \<noteq> []) \<and>
     (\<forall>n s. tag_max T n s \<longleftrightarrow> length (runes s) \<le> n) \<and>
     (\<forall>n s. tag_min T n s \<longleftrightarrow> n \<le> length (runes s)) \<and>
     (\<forall>n s. tag_len T n s \<longleftrightarrow> length (runes s) = n) \<and>
     (\<forall>s. s \<noteq> [] \<and> (\<forall>c \<in> set s. is_hex_digit c) \<longrightarrow> tag_hexadecimal T s)"

subsection \<open>What the scans decide\<close>

text \<open>The loops over runes see exactly the ASCII bytes, also in text that is not UTF-8.\<close>

lemma nul_bytes: "char_of (0::nat) \<in> set s \<longleftrightarrow> (\<exists>c \<in> set s. byte c = 0)"
proof -
  have z: "byte (char_of (0::nat)) = 0" by (rule byte_char_of) (rule zero_less_numeral)
  have "c = char_of (0::nat)" if "byte c = 0" for c
    using that z by (metis of_char_eq_iff)
  with z show ?thesis by metis
qed

lemma control_bytes:
  "hasDisallowedControl s \<longleftrightarrow> (\<exists>c \<in> set s. (byte c < 32 \<and> byte c \<noteq> 9) \<or> byte c = 127)"
proof -
  have "(\<exists>r \<in> set (runes s). (r < 32 \<and> r \<noteq> 9) \<or> r = 127) \<longleftrightarrow>
      (\<exists>c \<in> set s. (byte c < 32 \<and> byte c \<noteq> 9) \<or> byte c = 127)"
    by (rule bex_runes_ascii) (elim disjE conjE, linarith+)
  then show ?thesis unfolding hasDisallowedControl_def nul_bytes by force
qed

lemma password_bytes:
  "IsSafePassword s \<longleftrightarrow> (\<forall>c \<in> set s. byte c \<noteq> 0 \<and> byte c \<noteq> 10 \<and> byte c \<noteq> 13)"
proof -
  have "(\<exists>r \<in> set (runes s). r = 10 \<or> r = 13) \<longleftrightarrow> (\<exists>c \<in> set s. byte c = 10 \<or> byte c = 13)"
    by (rule bex_runes_ascii) (elim disjE, linarith+)
  then show ?thesis unfolding IsSafePassword_def nul_bytes by auto
qed

lemma safe_text_iff:
  "IsSafeText U s \<longleftrightarrow> s \<noteq> [] \<and>
     (\<forall>c \<in> set s. (32 \<le> byte c \<or> byte c = 9) \<and> byte c \<noteq> 127 \<and> c \<notin> set shell_meta) \<and>
     (\<forall>h \<in> set hints. \<forall>a b. ToLower U s \<noteq> a @ h @ b)"
proof -
  have "containsEncodedInjectionHint U s \<longleftrightarrow> (\<exists>h \<in> set hints. \<exists>a b. ToLower U s = a @ h @ b)"
    by (simp add: containsEncodedInjectionHint_def strings_Contains_iff)
  moreover have "containsShellMeta s \<longleftrightarrow> (\<exists>c \<in> set s. c \<in> set shell_meta)"
    by (simp add: containsShellMeta_def ContainsAny_def)
  moreover have "(\<exists>c \<in> set s. (byte c < 32 \<and> byte c \<noteq> 9) \<or> byte c = 127) \<longleftrightarrow>
      \<not> (\<forall>c \<in> set s. (32 \<le> byte c \<or> byte c = 9) \<and> byte c \<noteq> 127)"
    by (metis linorder_not_less)
  ultimately show ?thesis unfolding IsSafeText_def control_bytes by auto
qed

subsection \<open>Sanitized log values\<close>

definition loggable :: "unicode \<Rightarrow> nat \<Rightarrow> bool" where
  "loggable U r \<longleftrightarrow> 32 \<le> r \<and> r \<noteq> 127 \<and> IsPrint U r"

lemma sanitize_map:
  "strings_Map (\<lambda>r. if r < 32 \<or> r = 127 \<or> \<not> IsPrint U r then None else Some r) s =
     concat (map encode_rune (filter (loggable U) (runes s)))"
proof -
  have "concat (map (\<lambda>r. case (if r < 32 \<or> r = 127 \<or> \<not> IsPrint U r then None else Some r) of
      None \<Rightarrow> [] | Some r' \<Rightarrow> encode_rune r') rs) =
      concat (map encode_rune (filter (loggable U) rs))" for rs
    by (induction rs) (auto simp: loggable_def)
  then show ?thesis by (simp only: strings_Map_def)
qed

lemma sanitize_cases:
  "SanitizeLogValue U s n =
     (let t = concat (map encode_rune (filter (loggable U) (runes s)))
      in if 0 < n \<and> n < int (length t) then take (nat n) t else t)"
  by (simp only: SanitizeLogValue_def sanitize_map)

lemma sanitize_length: "0 < n \<Longrightarrow> int (length (SanitizeLogValue U s n)) \<le> n"
  unfolding sanitize_cases Let_def by auto

text \<open>A value that is not cut is well-formed, and only has printable runes.\<close>

lemma sanitize_whole:
  assumes "int (length (concat (map encode_rune (filter (loggable U) (runes s))))) \<le> n \<or> n \<le> 0"
  shows "runes (SanitizeLogValue U s n) = filter (loggable U) (runes s)"
    and "valid_utf8 (SanitizeLogValue U s n)"
proof -
  have e: "SanitizeLogValue U s n = concat (map encode_rune (filter (loggable U) (runes s)))"
    using assms unfolding sanitize_cases Let_def by auto
  have v: "\<forall>r \<in> set (filter (loggable U) (runes s)). valid_rune r"
    by (auto dest: runes_valid)
  show "runes (SanitizeLogValue U s n) = filter (loggable U) (runes s)"
    unfolding e by (rule runes_encode [OF v])
  show "valid_utf8 (SanitizeLogValue U s n)"
    unfolding e by (rule valid_utf8_encode [OF v])
qed

lemma encode_ascii: "r < 128 \<Longrightarrow> encode_rune r = [char_of r]"
  by (simp only: encode_rune_def valid_rune_def) simp

lemma sanitize_ascii:
  assumes "is_ascii s"
  shows "is_ascii (SanitizeLogValue U s n)" and "valid_utf8 (SanitizeLogValue U s n)"
proof -
  have "set (runes s) = byte ` set s"
    using assms by (simp add: runes_ascii is_ascii_def)
  then have small: "r \<in> set (runes s) \<Longrightarrow> r < 128" for r
    using assms by (auto simp: is_ascii_def)
  have "byte c < 128" if "c \<in> set (concat (map encode_rune (filter (loggable U) (runes s))))" for c
  proof -
    from that obtain r where r: "r \<in> set (runes s)" "c \<in> set (encode_rune r)" by auto
    then have "c = char_of r" using encode_ascii [OF small [OF r(1)]] by auto
    then show ?thesis using byte_char_of [of r] small [OF r(1)] by auto
  qed
  then have "\<forall>c \<in> set (SanitizeLogValue U s n). byte c < 128"
    unfolding sanitize_cases Let_def by (auto dest: in_set_takeD)
  then show "is_ascii (SanitizeLogValue U s n)" "valid_utf8 (SanitizeLogValue U s n)"
    by (simp_all add: is_ascii_def valid_utf8_ascii)
qed

text \<open>A cut can fall inside a rune: 511 letters and a two-byte rune, cut at 512.\<close>

definition long_agent :: string where
  "long_agent = concat (map encode_rune (replicate 511 97 @ [233]))"

lemma encode_e_acute: "encode_rune 233 = [char_of (195::nat), char_of (169::nat)]"
  by (simp only: encode_rune_def valid_rune_def) simp

lemma segments_ascii_prefix:
  "\<forall>c \<in> set a. byte c < 128 \<Longrightarrow> segments (a @ b) = map (\<lambda>c. (byte c, [c])) a @ segments b"
  by (induction a) auto

lemma sanitize_splits_rune:
  assumes "IsPrint U 97" "IsPrint U 233"
  shows "\<not> valid_utf8 (SanitizeLogValue U long_agent 512)"
proof -
  let ?a = "replicate 511 (char_of (97::nat)) :: string"
  have v: "\<forall>r \<in> set (replicate 511 97 @ [233]). valid_rune r" by (auto simp: valid_rune_def)
  have a: "concat (map encode_rune (replicate n 97)) = replicate n (char_of (97::nat))" for n
    by (induction n) (simp_all only: replicate.simps list.map concat.simps append.simps
        encode_ascii [of 97, simplified])
  have "filter (loggable U) (runes long_agent) = replicate 511 97 @ [233]"
    unfolding long_agent_def runes_encode [OF v] using assms by (simp add: loggable_def)
  then have "concat (map encode_rune (filter (loggable U) (runes long_agent))) =
      ?a @ [char_of (195::nat), char_of (169::nat)]"
    by (simp only: map_append concat_append a list.map concat.simps encode_e_acute append_Nil2)
  then have s: "SanitizeLogValue U long_agent 512 = ?a @ [char_of (195::nat)]"
    unfolding sanitize_cases Let_def by (simp only: length_append length_replicate list.size) simp
  have b: "byte (char_of (195::nat)) = 195" "byte (char_of (97::nat)) = 97"
    by (rule byte_char_of, simp)+
  have "segments [char_of (195::nat)] = [(rune_error, [char_of (195::nat)])]"
    using b by (simp only: segments.simps decode_rune.simps decode2_def list.case) simp
  moreover have "segments (?a @ [char_of (195::nat)]) = map (\<lambda>c. (byte c, [c])) ?a @ segments [char_of (195::nat)]"
    by (rule segments_ascii_prefix) (simp only: set_replicate_conv_if b ball_simps split: if_splits; simp)
  ultimately show ?thesis unfolding s valid_utf8_def by simp
qed

subsection \<open>What the tags accept\<close>

lemma runes_hex: "\<forall>c \<in> set s. is_hex_digit c \<Longrightarrow> runes s = map byte s"
  by (auto intro!: runes_ascii dest: is_hex_digit_ascii)

text \<open>Every token the service issues passes the tags of \<open>TokenInput\<close>.\<close>

lemma token_input_ok:
  assumes "validator_spec T" "token_shape t"
  shows "requireInput T U (token_fields \<lparr>in_Token = t\<rparr>) = Inr ()"
proof -
  from assms(2) have "t \<noteq> []" "length (runes t) = 64" "\<forall>c \<in> set t. is_hex_digit c"
    by (auto simp: token_shape_def runes_hex)
  with assms(1) show ?thesis
    by (simp add: requireInput_def validate_Struct_def token_fields_def validator_spec_def)
qed

lemma requireInput_ok:
  "requireInput T U fs = Inr u \<longleftrightarrow> (\<forall>(s, ts) \<in> set fs. \<forall>t \<in> set ts. tag_holds T U s t)"
  by (auto simp: requireInput_def validate_Struct_def split: if_splits)

lemma requireInput_err: "requireInput T U fs = Inl e \<Longrightarrow> e = ErrInvalidInput"
  by (auto simp: requireInput_def split: sum.splits)

text \<open>72 characters are not 72 bytes: a password the tags accept can be too long for bcrypt.\<close>

definition wide_password :: string where
  "wide_password = concat (map encode_rune (replicate 72 233))"

lemma wide_password_accepted:
  assumes "validator_spec T"
  shows "\<forall>t \<in> {Required, MinLen 8, MaxLen 72, SafePassword}. tag_holds T U wide_password t"
    and "length wide_password = 144"
proof -
  have "runes wide_password = replicate 72 233"
    unfolding wide_password_def by (rule runes_encode) (auto simp: valid_rune_def)
  then have n: "length (runes wide_password) = 72" by simp
  have c: "concat (map encode_rune (replicate n 233)) =
      concat (replicate n [char_of (195::nat), char_of (169::nat)])" for n
    by (simp only: map_replicate encode_e_acute)
  have l: "length (concat (replicate n [x, y])) = 2 * n" for n :: nat and x y :: char
    by (induction n) auto
  show len: "length wide_password = 144" unfolding wide_password_def c l by simp
  then have ne: "wide_password \<noteq> []" by auto
  have b: "byte (char_of (195::nat)) = 195" "byte (char_of (169::nat)) = 169"
    by (rule byte_char_of, simp)+
  have "x \<in> {char_of (195::nat), char_of (169::nat)}" if "x \<in> set wide_password" for x
    using that unfolding wide_password_def c by auto
  then have "IsSafePassword wide_password" using b unfolding password_bytes by fastforce
  with n ne assms show "\<forall>t \<in> {Required, MinLen 8, MaxLen 72, SafePassword}. tag_holds T U wide_password t"
    by (simp add: validator_spec_def)
qed

end
