(* ===== verification/Usecase.thy ===== *)
theory Usecase
  imports Jwt Validation
begin

text \<open>
  \<open>internal/usecase\<close>: the auth service. \<open>AuthService\<close> is the struct of \<open>auth.go\<close>, a record of
  the configuration, the token service and one implementation of each interface of
  \<open>Domain\<close>; every method is one definition, and the private helpers of \<open>internal.go\<close> come
  first. The libraries the code calls are bundled in the record \<open>libs\<close>. Three locales state what
  a method relies on in an interface alone: the theorems about the service wired to Postgres and
  Redis are in \<open>Flows\<close>.
\<close>

record libs =
  lib_U :: unicode
  lib_T :: validator_lib
  lib_C :: crypto_lib
  lib_V :: uuid_lib
  lib_W :: url_lib
  lib_J :: jwt_lib
  lib_json :: "(string \<times> string) list \<Rightarrow> string option"

record 'w AuthService =
  svc_cfg :: Config
  svc_jwt :: JwtService
  svc_users :: "'w UserRepository"
  svc_refresh :: "'w RefreshTokenRepository"
  svc_resets :: "'w OneTimeTokenRepository"
  svc_verify :: "'w OneTimeTokenRepository"
  svc_audit :: "'w AuditRepository"
  svc_sessions :: "'w SessionStore"
  svc_blacklist :: "'w TokenBlacklist"
  svc_lockout :: "'w LoginLockout"
  svc_mailer :: "'w Mailer option"
  svc_emailLimit :: "'w RateLimiter"

record 'w Repos =
  repos_Users :: "'w UserRepository"
  repos_Refresh :: "'w RefreshTokenRepository"
  repos_Resets :: "'w OneTimeTokenRepository"
  repos_Verify :: "'w OneTimeTokenRepository"
  repos_Audit :: "'w AuditRepository"

record 'w Infra =
  infra_Sessions :: "'w SessionStore"
  infra_Blacklist :: "'w TokenBlacklist"
  infra_Lockout :: "'w LoginLockout"
  infra_Mailer :: "'w Mailer option"
  infra_EmailLimit :: "'w RateLimiter"

definition NewAuthService ::
    "Config \<Rightarrow> JwtService \<Rightarrow> 'w Repos \<Rightarrow> 'w Infra \<Rightarrow> 'w AuthService" where
  "NewAuthService cfg jwt repos infra =
     \<lparr>svc_cfg = cfg, svc_jwt = jwt, svc_users = repos_Users repos, svc_refresh = repos_Refresh repos,
      svc_resets = repos_Resets repos, svc_verify = repos_Verify repos, svc_audit = repos_Audit repos,
      svc_sessions = infra_Sessions infra, svc_blacklist = infra_Blacklist infra,
      svc_lockout = infra_Lockout infra, svc_mailer = infra_Mailer infra,
      svc_emailLimit = infra_EmailLimit infra\<rparr>"

definition defaultRole :: string where "defaultRole = ''user''"

text \<open>A pure computation that can fail, as a call.\<close>

definition pure_call :: "'e + 'a \<Rightarrow> ('s, 'e + 'a) state" where
  "pure_call r = State_Monad.return r"

lemma run_pure_call [run_simps]: "run_state (pure_call r) s = (r, s)"
  by (simp add: pure_call_def)

lemma effect_pure_call [keep_intros]: "preorder_rel R \<Longrightarrow> effect R (pure_call r)"
  by (simp add: pure_call_def effect_return)

subsection \<open>internal.go\<close>

datatype mailKind = MailVerify | MailReset

fun mail_subject :: "mailKind \<Rightarrow> string" where
  "mail_subject MailVerify = ''Verify your email''"
| "mail_subject MailReset = ''Reset your password''"

fun mail_plain :: "mailKind \<Rightarrow> string \<Rightarrow> string" where
  "mail_plain MailVerify link =
     ''Open this link to verify your email (expires in 24h):'' @ [CHR 0x0A] @ link"
| "mail_plain MailReset link =
     ''Open this link to reset your password (expires in 1h):'' @ [CHR 0x0A] @ link"

definition normEmail :: "libs \<Rightarrow> string \<Rightarrow> string" where
  "normEmail L email = ToLower (lib_U L) (TrimSpace email)"

definition devToken :: "'w AuthService \<Rightarrow> string \<Rightarrow> string" where
  "devToken s raw = (if ExposeDevTokens (svc_cfg s) then raw else [])"

definition logAudit ::
    "libs \<Rightarrow> 'w AuthService \<Rightarrow> uuid option \<Rightarrow> string \<Rightarrow> string \<Rightarrow> string \<Rightarrow>
     (string \<times> string) list option \<Rightarrow> ('w, err + unit) state" where
  "logAudit L s userID action ip ua meta =
     Audit_Log (svc_audit s) \<lparr>audit_UserID = userID, audit_Action = action,
       audit_IPAddress = SanitizeLogValue (lib_U L) ip 45,
       audit_UserAgent = SanitizeLogValue (lib_U L) ua 512,
       audit_Metadata = (case meta of None \<Rightarrow> None | Some m \<Rightarrow> lib_json L m)\<rparr>"

definition failLogin ::
    "libs \<Rightarrow> 'w AuthService \<Rightarrow> string \<Rightarrow> string \<Rightarrow> string \<Rightarrow> ('w, TokenPair) call" where
  "failLogin L s email ip ua =
     ignoring (RecordFailure (svc_lockout s) email
       (sec_LoginMaxAttempts (cfg_Security (svc_cfg s)))
       (sec_LoginLockoutDuration (cfg_Security (svc_cfg s))))
     (ignoring (logAudit L s None ''auth.login_failed'' ip ua None)
     (fail ErrUnauthorized))"

definition revokeAllSessions :: "'w AuthService \<Rightarrow> uuid \<Rightarrow> ('w, unit) state" where
  "revokeAllSessions s userID =
     ignoring (RevokeAllForUser (svc_refresh s) userID)
     (ignoring (Session_DeleteAllForUser (svc_sessions s) userID)
     (State_Monad.return ()))"

definition issueOneTime ::
    "libs \<Rightarrow> ('d, 'r) world OneTimeTokenRepository \<Rightarrow> uuid \<Rightarrow> duration \<Rightarrow> (('d, 'r) world, string) call"
  where
  "issueOneTime L repo userID ttl =
     or_return (token_Random 32) (\<lambda>raw. do {
       now \<leftarrow> time_Now;
       or_return (OneTime_Create repo userID (token_Hash (lib_C L) raw) (now + ttl)) (\<lambda>_.
       ok raw) })"

definition issueTokens ::
    "libs \<Rightarrow> ('d, 'r) world AuthService \<Rightarrow> uuid \<Rightarrow> uuid \<Rightarrow> uuid \<Rightarrow> (('d, 'r) world, TokenPair) call"
  where
  "issueTokens L s userID sessionID familyID =
     or_return (GetAuthProfile (svc_users s) userID) (\<lambda>profile.
     let ttl = jwts_refreshTTL (svc_jwt s) in
     or_return (Session_Save (svc_sessions s) \<lparr>sess_ID = sessionID, sess_UserID = userID,
         sess_Email = prof_Email profile, sess_Roles = prof_Roles profile,
         sess_Permissions = prof_Permissions profile, sess_FamilyID = familyID\<rparr> ttl) (\<lambda>_.
     let role = (if prof_Roles profile \<noteq> [] then hd (prof_Roles profile) else defaultRole) in
     or_return (jwt_IssueAccess (lib_J L) (lib_V L) (svc_jwt s) \<lparr>iss_UserID = userID,
         iss_Email = prof_Email profile, iss_Role = role,
         iss_Permissions = prof_Permissions profile, iss_SessionID = sessionID\<rparr>) (\<lambda>(access, exp).
     or_return (token_Random 32) (\<lambda>refreshRaw. do {
       now \<leftarrow> time_Now;
       or_return (Refresh_Save (svc_refresh s) \<lparr>rec_ID = 0, rec_UserID = userID,
           rec_SessionID = sessionID, rec_TokenHash = token_Hash (lib_C L) refreshRaw,
           rec_FamilyID = familyID, rec_ExpiresAt = now + ttl\<rparr>) (\<lambda>_. do {
         now2 \<leftarrow> time_Now;
         ok \<lparr>AccessToken = access, RefreshToken = refreshRaw,
           ExpiresIn = whole_seconds (exp - now2)\<rparr> }) }))))"

definition consumeEmailQuota ::
    "libs \<Rightarrow> 'w AuthService \<Rightarrow> string \<Rightarrow> ('w, unit) call" where
  "consumeEmailQuota L s to =
     (if \<not> email_Enabled (cfg_Email (svc_cfg s)) then ok ()
      else or_return (Allow (svc_emailLimit s) (''email:'' @ normEmail L to)
             (email_PerRecipientLimit (cfg_Email (svc_cfg s)))
             (email_PerRecipientWindow (cfg_Email (svc_cfg s)))) (\<lambda>allowed.
           guard_err (\<not> allowed) ErrRateLimited (ok ())))"

definition sendTransactional ::
    "libs \<Rightarrow> 'w AuthService \<Rightarrow> string \<Rightarrow> string \<Rightarrow> string \<Rightarrow> string \<Rightarrow> ('w, unit) call" where
  "sendTransactional L s to subject txt htmlBody =
     (if \<not> email_Enabled (cfg_Email (svc_cfg s)) then ok ()
      else (case svc_mailer s of
              None \<Rightarrow> ok ()
            | Some m \<Rightarrow> Send m \<lparr>mail_To = normEmail L to, mail_Subject = subject,
                mail_Text = txt, mail_HTML = htmlBody\<rparr>))"

definition html_link :: "string \<Rightarrow> string" where
  "html_link esc = ''<p><a href='' @ [CHR 0x22] @ esc @ [CHR 0x22] @ ''>'' @ esc @ ''</a></p>''"

definition sendActionEmail ::
    "libs \<Rightarrow> 'w AuthService \<Rightarrow> string \<Rightarrow> string \<Rightarrow> mailKind \<Rightarrow> ('w, unit) call" where
  "sendActionEmail L s to rawToken kind =
     (let base = (case kind of
          MailReset \<Rightarrow> email_ResetLinkBase (cfg_Email (svc_cfg s))
        | MailVerify \<Rightarrow> email_VerifyLinkBase (cfg_Email (svc_cfg s)))
      in or_return (pure_call (ActionLink (lib_W L) base rawToken)) (\<lambda>link.
         sendTransactional L s to (mail_subject kind) (mail_plain kind link)
           (html_link (html_EscapeString link))))"

subsection \<open>auth.go\<close>

definition require_input ::
    "libs \<Rightarrow> (string \<times> tag list) list \<Rightarrow> ('w, unit) call" where
  "require_input L fs = pure_call (requireInput (lib_T L) (lib_U L) fs)"

definition Register ::
    "libs \<Rightarrow> ('d, 'r) world AuthService \<Rightarrow> RegisterInput \<Rightarrow> string \<Rightarrow> string \<Rightarrow>
     (('d, 'r) world, string) call" where
  "Register L s i ip ua =
     or_return (require_input L (register_fields i)) (\<lambda>_.
     let email = normEmail L (reg_Email i) in
     or_return (consumeEmailQuota L s email) (\<lambda>_.
     or_return (password_Hash (lib_C L) (reg_Password i) (sec_BcryptCost (cfg_Security (svc_cfg s)))) (\<lambda>hash.
     or_return (CreateWithRole (svc_users s) email hash defaultRole) (\<lambda>user.
     or_return (issueOneTime L (svc_verify s) (user_ID user) (24 * hour)) (\<lambda>verifyToken.
     or_return (sendActionEmail L s email verifyToken MailVerify) (\<lambda>_.
     ignoring (logAudit L s (Some (user_ID user)) ''user.registered'' ip ua None)
     (ok (devToken s verifyToken))))))))"

definition Login ::
    "libs \<Rightarrow> ('d, 'r) world AuthService \<Rightarrow> LoginInput \<Rightarrow> string \<Rightarrow> string \<Rightarrow>
     (('d, 'r) world, TokenPair) call" where
  "Login L s i ip ua =
     or_return (require_input L (login_fields i)) (\<lambda>_.
     let email = normEmail L (login_Email i) in
     or_return (IsLocked (svc_lockout s) email) (\<lambda>locked.
     guard_err locked ErrAccountLocked (do {
       r \<leftarrow> GetByEmail (svc_users s) email;
       (case r of
          Inl e \<Rightarrow> if errors_Is e ErrNotFound then failLogin L s email ip ua else fail e
        | Inr user \<Rightarrow>
            if \<not> user_IsActive user \<or>
               password_Compare (lib_C L) (user_PasswordHash user) (login_Password i) \<noteq> None
            then failLogin L s email ip ua
            else ignoring (Lockout_Clear (svc_lockout s) email) (do {
              sid \<leftarrow> uuid_New;
              fid \<leftarrow> uuid_New;
              or_return (issueTokens L s (user_ID user) sid fid) (\<lambda>pair.
              ignoring (logAudit L s (Some (user_ID user)) ''auth.login'' ip ua None)
              (ok pair)) })) })))"

definition Refresh ::
    "libs \<Rightarrow> ('d, 'r) world AuthService \<Rightarrow> string \<Rightarrow> string \<Rightarrow> string \<Rightarrow>
     (('d, 'r) world, TokenPair) call" where
  "Refresh L s refreshRaw ip ua =
     guard_err (refreshRaw = []) ErrInvalidInput
     (let hash = token_Hash (lib_C L) refreshRaw in do {
        r \<leftarrow> GetByHash (svc_refresh s) hash;
        (case r of
           Inl _ \<Rightarrow> do {
             (familyID, _) \<leftarrow> GetRevokedFamily (svc_refresh s) hash;
             (case familyID of
                None \<Rightarrow> fail ErrUnauthorized
              | Some f \<Rightarrow> ignoring (RevokeFamily (svc_refresh s) f) (fail ErrUnauthorized)) }
         | Inr rec \<Rightarrow>
             or_return (Revoke (svc_refresh s) hash) (\<lambda>_.
             or_return (issueTokens L s (rec_UserID rec) (rec_SessionID rec) (rec_FamilyID rec)) (\<lambda>pair.
             ignoring (logAudit L s (Some (rec_UserID rec)) ''auth.refresh'' ip ua None)
             (ok pair)))) })"

definition Logout ::
    "libs \<Rightarrow> ('d, 'r) world AuthService \<Rightarrow> uuid \<Rightarrow> uuid \<Rightarrow> string \<Rightarrow> time \<Rightarrow> string \<Rightarrow> string \<Rightarrow> string \<Rightarrow>
     (('d, 'r) world, unit) call" where
  "Logout L s userID sessionID accessJTI accessExp refreshRaw ip ua = do {
     now \<leftarrow> time_Now;
     let ttl = accessExp - now;
     _ \<leftarrow> (if accessJTI \<noteq> [] \<and> 0 < ttl then Blacklist_Add (svc_blacklist s) accessJTI ttl else ok ());
     _ \<leftarrow> (if refreshRaw \<noteq> [] then Revoke (svc_refresh s) (token_Hash (lib_C L) refreshRaw) else ok ());
     ignoring (Session_Delete (svc_sessions s) sessionID userID)
     (ignoring (logAudit L s (Some userID) ''auth.logout'' ip ua None)
     (ok ())) }"

definition LogoutAll ::
    "libs \<Rightarrow> 'w AuthService \<Rightarrow> uuid \<Rightarrow> ('w, unit) call" where
  "LogoutAll L s userID =
     ignoring (revokeAllSessions s userID)
     (ignoring (logAudit L s (Some userID) ''auth.logout_all'' [] [] None)
     (ok ()))"

definition ForgotPassword ::
    "libs \<Rightarrow> ('d, 'r) world AuthService \<Rightarrow> ForgotPasswordInput \<Rightarrow> (('d, 'r) world, string) call" where
  "ForgotPassword L s i =
     or_return (require_input L (forgot_fields i)) (\<lambda>_. do {
       r \<leftarrow> GetByEmail (svc_users s) (normEmail L (forgot_Email i));
       (case r of
          Inl _ \<Rightarrow> ok []
        | Inr user \<Rightarrow> do {
            q \<leftarrow> consumeEmailQuota L s (user_Email user);
            (case q of
               Inl _ \<Rightarrow> ok []
             | Inr _ \<Rightarrow> do {
                 t \<leftarrow> issueOneTime L (svc_resets s) (user_ID user) hour;
                 (case t of
                    Inl _ \<Rightarrow> ok []
                  | Inr resetToken \<Rightarrow>
                      ignoring (sendActionEmail L s (user_Email user) resetToken MailReset)
                      (ignoring (logAudit L s (Some (user_ID user)) ''auth.password_reset_requested'' [] [] None)
                      (ok (devToken s resetToken)))) }) }) })"

definition ResetPassword ::
    "libs \<Rightarrow> ('d, 'r) world AuthService \<Rightarrow> ResetPasswordInput \<Rightarrow> (('d, 'r) world, unit) call" where
  "ResetPassword L s i =
     or_return (require_input L (reset_fields i)) (\<lambda>_.
     or_return (OneTime_Consume (svc_resets s)
         (token_Hash (lib_C L) (in_Token (reset_TokenInput i)))) (\<lambda>userID.
     or_return (password_Hash (lib_C L) (reset_NewPassword i)
         (sec_BcryptCost (cfg_Security (svc_cfg s)))) (\<lambda>hash.
     or_return (UpdatePassword (svc_users s) userID hash) (\<lambda>_.
     ignoring (revokeAllSessions s userID)
     (ignoring (logAudit L s (Some userID) ''auth.password_reset'' [] [] None)
     (ok ()))))))"

definition VerifyEmail ::
    "libs \<Rightarrow> 'w AuthService \<Rightarrow> TokenInput \<Rightarrow> ('w, unit) call" where
  "VerifyEmail L s i =
     or_return (require_input L (token_fields i)) (\<lambda>_.
     or_return (OneTime_Consume (svc_verify s) (token_Hash (lib_C L) (in_Token i))) (\<lambda>userID.
     or_return (MarkEmailVerified (svc_users s) userID) (\<lambda>_.
     ignoring (logAudit L s (Some userID) ''auth.email_verified'' [] [] None)
     (ok ()))))"

definition GetProfile :: "'w AuthService \<Rightarrow> uuid \<Rightarrow> ('w, AuthProfile) call" where
  "GetProfile s userID = GetAuthProfile (svc_users s) userID"

definition ParseAccess ::
    "libs \<Rightarrow> ('d, 'r) world AuthService \<Rightarrow> string \<Rightarrow> (('d, 'r) world, Claims) call" where
  "ParseAccess L s raw = do {
     r \<leftarrow> jwt_ParseAccess (lib_J L) (svc_jwt s) raw;
     (case r of
        Inl _ \<Rightarrow> fail ErrUnauthorized
      | Inr claims \<Rightarrow> do {
          b \<leftarrow> Blacklist_Exists (svc_blacklist s) (claim_ID claims);
          (case b of
             Inl _ \<Rightarrow> fail ErrUnauthorized
           | Inr listed \<Rightarrow> if listed then fail ErrUnauthorized else ok claims) }) }"

end
