(* ===== verification/Middleware.thy ===== *)
theory Middleware
  imports Httputil Usecase
begin

text \<open>
  \<open>internal/middleware\<close>: authentication and the claims it puts into the request, permissions,
  rate limits, the metrics endpoint's guard, security headers and trace identifiers. A handler is
  a function of the request that runs on world and response; a middleware maps handlers to
  handlers; security headers and trace identifiers also surround handlers with another result.
  \<open>Stack\<close> has recovery and logging. \<open>net.ParseIP\<close> with \<open>IsLoopback\<close> is the
  parameter \<open>loopback\<close>.
\<close>

type_synonym 'w handler = "request \<Rightarrow> ('w, unit) http"

subsection \<open>auth.go\<close>

definition Authenticate ::
    "libs \<Rightarrow> ('d, 'r) world AuthService \<Rightarrow> ('d, 'r) world handler \<Rightarrow> ('d, 'r) world handler" where
  "Authenticate L auth next r =
     (let raw = BearerToken (req_header r ''Authorization'')
      in if raw = [] then WriteError ErrUnauthorized
         else do {
           c \<leftarrow> service (ParseAccess L auth raw);
           (case c of
              Inl e \<Rightarrow> WriteError e
            | Inr claims \<Rightarrow> next (r\<lparr>req_claims := Some claims\<rparr>)) })"

definition ClaimsFrom :: "request \<Rightarrow> Claims option" where
  "ClaimsFrom r = req_claims r"

definition SessionIDs :: "uuid_lib \<Rightarrow> request \<Rightarrow> err + uuid \<times> uuid" where
  "SessionIDs V r =
     (case ClaimsFrom r of
        None \<Rightarrow> Inl ErrUnauthorized
      | Some c \<Rightarrow>
          (case uuid_Parse V (claim_UserID c) of
             None \<Rightarrow> Inl ErrUnauthorized
           | Some userID \<Rightarrow>
               (case uuid_Parse V (claim_SessionID c) of
                  None \<Rightarrow> Inl ErrUnauthorized
                | Some sessionID \<Rightarrow> Inr (userID, sessionID))))"

definition UserIDFromClaims :: "uuid_lib \<Rightarrow> request \<Rightarrow> err + uuid" where
  "UserIDFromClaims V r =
     (case ClaimsFrom r of
        None \<Rightarrow> Inl ErrUnauthorized
      | Some c \<Rightarrow>
          (case uuid_Parse V (claim_UserID c) of
             None \<Rightarrow> Inl ErrUnauthorized | Some userID \<Rightarrow> Inr userID))"

subsection \<open>rbac.go\<close>

definition RequirePermission :: "string \<Rightarrow> 'w handler \<Rightarrow> 'w handler" where
  "RequirePermission permission next r =
     (case ClaimsFrom r of
        None \<Rightarrow> WriteError ErrUnauthorized
      | Some claims \<Rightarrow>
          if permission \<notin> set (claim_Permissions claims) then WriteError ErrForbidden else next r)"

subsection \<open>ratelimit.go\<close>

record 'w RateLimit =
  rl_Limiter :: "'w RateLimiter option"
  rl_Scope :: string
  rl_Limit :: int
  rl_Window :: duration

definition RateLimit_Middleware :: "'w RateLimit \<Rightarrow> 'w handler \<Rightarrow> 'w handler" where
  "RateLimit_Middleware rl next r =
     (case rl_Limiter rl of
        None \<Rightarrow> next r
      | Some limiter \<Rightarrow>
          if rl_Limit rl < 1 then next r
          else do {
            a \<leftarrow> service (Allow limiter (rl_Scope rl @ '':ip:'' @ ClientIP r) (rl_Limit rl) (rl_Window rl));
            if a \<noteq> Inr True then do {
              (if 0 < rl_Window rl then header_Set ''Retry-After'' (itoa (whole_seconds (rl_Window rl)))
               else State_Monad.return ());
              WriteError ErrRateLimited }
            else next r })"

subsection \<open>metrics.go\<close>

definition isLoopback :: "(string \<Rightarrow> bool) \<Rightarrow> request \<Rightarrow> bool" where
  "isLoopback loopback r =
     (let host = (case SplitHostPort (req_remote r) of None \<Rightarrow> req_remote r | Some (h, _) \<Rightarrow> h)
      in loopback (trim_bytes ''[]'' host))"

text \<open>\<open>subtle.ConstantTimeCompare\<close> is 1 exactly for equal byte strings.\<close>

definition MetricsAuth :: "(string \<Rightarrow> bool) \<Rightarrow> string \<Rightarrow> 'w handler \<Rightarrow> 'w handler" where
  "MetricsAuth loopback token next r =
     (if token \<noteq> [] then
        (if BearerToken (req_header r ''Authorization'') = token then next r
         else WriteError ErrUnauthorized)
      else if isLoopback loopback r then next r
      else WriteError ErrForbidden)"

subsection \<open>security.go\<close>

definition SecurityHeaders :: "bool \<Rightarrow> (request \<Rightarrow> ('w, 'a) http) \<Rightarrow> request \<Rightarrow> ('w, 'a) http" where
  "SecurityHeaders production next r = do {
     header_Set ''X-Content-Type-Options'' ''nosniff'';
     header_Set ''X-Frame-Options'' ''DENY'';
     header_Set ''X-XSS-Protection'' ''0'';
     header_Set ''Referrer-Policy'' ''strict-origin-when-cross-origin'';
     header_Set ''Content-Security-Policy'' (''default-src '' @ [CHR 0x27] @ ''none'' @ [CHR 0x27] @
       ''; frame-ancestors '' @ [CHR 0x27] @ ''none'' @ [CHR 0x27]);
     header_Set ''Permissions-Policy'' ''geolocation=(), microphone=(), camera=()'';
     (if production
      then header_Set ''Strict-Transport-Security'' ''max-age=63072000; includeSubDomains''
      else State_Monad.return ());
     next r }"

subsection \<open>trace.go\<close>

definition trace_char :: "char \<Rightarrow> bool" where
  "trace_char c \<longleftrightarrow> ascii_letter (byte c) \<or> ascii_digit (byte c) \<or> c = CHR ''_'' \<or> c = CHR ''-''"

text \<open>The pattern \<open>^[a-zA-Z0-9_-]{1,64}$\<close>.\<close>

definition traceIDPattern :: "string \<Rightarrow> bool" where
  "traceIDPattern s \<longleftrightarrow> 1 \<le> length s \<and> length s \<le> 64 \<and> (\<forall>c \<in> set s. trace_char c)"

definition sanitizeTraceID :: "uuid_lib \<Rightarrow> string \<Rightarrow> (('d, 'r) world, string) http" where
  "sanitizeTraceID V val =
     (if traceIDPattern val then State_Monad.return val
      else do { u \<leftarrow> service uuid_New; State_Monad.return (uuid_String V u) })"

definition TraceContext ::
    "uuid_lib \<Rightarrow> (request \<Rightarrow> (('d, 'r) world, 'a) http) \<Rightarrow> request \<Rightarrow> (('d, 'r) world, 'a) http" where
  "TraceContext V next r = do {
     reqID \<leftarrow> sanitizeTraceID V (req_header r ''X-Request-ID'');
     corrID \<leftarrow> sanitizeTraceID V (req_header r ''X-Correlation-ID'');
     header_Set ''X-Request-ID'' reqID;
     header_Set ''X-Correlation-ID'' corrID;
     next (r\<lparr>req_request_id := reqID, req_correlation_id := corrID\<rparr>) }"

subsection \<open>What the guards let through\<close>

text \<open>\<open>refuses h w p e w'\<close>: the handler answers the error \<open>e\<close>.\<close>

definition refuses :: "('w, unit) http \<Rightarrow> 'w \<Rightarrow> response \<Rightarrow> err \<Rightarrow> 'w \<Rightarrow> bool" where
  "refuses h w p e w' \<longleftrightarrow> run_state h (w, p) = ((), (w', error_response p e))"

lemma Authenticate_cases:
  assumes "resp_status p = None"
  obtains "BearerToken (req_header r ''Authorization'') = []"
      "run_state (Authenticate L auth next r) (w, p) = ((), (w, error_response p ErrUnauthorized))"
  | e w1 where "run_state (ParseAccess L auth (BearerToken (req_header r ''Authorization''))) w = (Inl e, w1)"
      "run_state (Authenticate L auth next r) (w, p) = ((), (w1, error_response p e))"
  | claims w1 where "run_state (ParseAccess L auth (BearerToken (req_header r ''Authorization''))) w = (Inr claims, w1)"
      "run_state (Authenticate L auth next r) (w, p) = run_state (next (r\<lparr>req_claims := Some claims\<rparr>)) (w1, p)"
proof (cases "BearerToken (req_header r ''Authorization'') = []")
  case True
  with assms that(1) show ?thesis by (simp add: Authenticate_def run_WriteError)
next
  case False
  obtain a w1 where a: "run_state (ParseAccess L auth (BearerToken (req_header r ''Authorization''))) w = (a, w1)"
    by fastforce
  show ?thesis
  proof (cases a)
    case (Inl e)
    with a assms that(2) False show ?thesis by (simp add: Authenticate_def run_service run_WriteError)
  next
    case (Inr claims)
    with a that(3) False show ?thesis by (simp add: Authenticate_def run_service)
  qed
qed

lemma RequirePermission_allows:
  "(\<exists>c. req_claims r = Some c \<and> permission \<in> set (claim_Permissions c)) \<Longrightarrow>
     run_state (RequirePermission permission next r) s = run_state (next r) s"
  by (auto simp: RequirePermission_def ClaimsFrom_def)

lemma RequirePermission_denies:
  assumes "\<not> (\<exists>c. req_claims r = Some c \<and> permission \<in> set (claim_Permissions c))" "resp_status p = None"
  shows "run_state (RequirePermission permission next r) (w, p) =
    ((), (w, error_response p (if req_claims r = None then ErrUnauthorized else ErrForbidden)))"
  using assms by (auto simp: RequirePermission_def ClaimsFrom_def run_WriteError split: option.splits)

text \<open>The limiter fails closed: an error of the store refuses the request like a full window.\<close>

lemma RateLimit_passes:
  assumes "rl_Limiter rl = Some A" "1 \<le> rl_Limit rl"
    "run_state (Allow A (rl_Scope rl @ '':ip:'' @ ClientIP r) (rl_Limit rl) (rl_Window rl)) w = (Inr True, w')"
  shows "run_state (RateLimit_Middleware rl next r) (w, p) = run_state (next r) (w', p)"
  using assms by (simp add: RateLimit_Middleware_def run_service)

lemma header_status [simp]: "resp_status (p\<lparr>resp_header := h\<rparr>) = resp_status p"
  by simp

definition retry_after :: "duration \<Rightarrow> response \<Rightarrow> response" where
  "retry_after window p = (if 0 < window
     then p\<lparr>resp_header := (''Retry-After'', itoa (whole_seconds window)) #
       filter (\<lambda>h. fst h \<noteq> ''Retry-After'') (resp_header p)\<rparr> else p)"

lemma RateLimit_refuses:
  assumes "rl_Limiter rl = Some A" "1 \<le> rl_Limit rl" "resp_status p = None"
    "run_state (Allow A (rl_Scope rl @ '':ip:'' @ ClientIP r) (rl_Limit rl) (rl_Window rl)) w = (a, w')"
    "a \<noteq> Inr True"
  shows "run_state (RateLimit_Middleware rl next r) (w, p) =
    ((), (w', error_response (retry_after (rl_Window rl) p) ErrRateLimited))"
  using assms
  by (simp add: RateLimit_Middleware_def run_service header_Set_def run_respond run_WriteError retry_after_def)

lemma MetricsAuth_passes_iff:
  assumes "resp_status p = None"
  shows "run_state (MetricsAuth loopback token next r) (w, p) =
    (if token \<noteq> [] \<and> BearerToken (req_header r ''Authorization'') = token \<or>
        token = [] \<and> isLoopback loopback r
     then run_state (next r) (w, p)
     else ((), (w, error_response p (if token \<noteq> [] then ErrUnauthorized else ErrForbidden))))"
  using assms by (simp add: MetricsAuth_def run_WriteError)

lemma sanitizeTraceID_ok:
  assumes "run_state (sanitizeTraceID V val) (w, p) = (x, (w', p'))"
    "\<And>u. traceIDPattern (uuid_String V u)"
  shows "traceIDPattern x \<and> p' = p \<and> (traceIDPattern val \<longrightarrow> x = val \<and> w' = w)"
  using assms by (auto simp: sanitizeTraceID_def run_service run_uuid_New split: if_splits)

end
