(* ===== verification/Handlers.thy ===== *)
theory Handlers
  imports Middleware "HOL-Library.AList"
begin

text \<open>
  \<open>internal/delivery/http/handler\<close>: the HTTP adapters over the auth service (\<open>auth.go\<close>), the
  health endpoints (\<open>health.go\<close>) and the documentation page (\<open>docs.go\<close>). The JSON decoders of
  the request bodies are parameters, bundled in \<open>decoders\<close>.
\<close>

record credentialsBody =
  body_Email :: string
  body_Password :: string

record resetBody =
  body_Token :: string
  body_NewPassword :: string

text \<open>
  \<open>dec_unmarshal\<close> is \<open>json.Unmarshal\<close> of a whole body; the others read the first value of a
  stream with unknown fields disallowed, and give the rest of the stream.
\<close>

record decoders =
  dec_unmarshal :: "string \<Rightarrow> credentialsBody option"
  dec_credentials :: "string \<Rightarrow> (credentialsBody \<times> string) option"
  dec_email :: "string \<Rightarrow> (string \<times> string) option"
  dec_reset :: "string \<Rightarrow> (resetBody \<times> string) option"
  dec_token :: "string \<Rightarrow> (TokenInput \<times> string) option"

record 'w AuthHandler =
  ah_cfg :: Config
  ah_svc :: "'w AuthService"
  ah_idem :: "'w IdempotencyStore option"

definition NewAuth :: "Config \<Rightarrow> 'w AuthService \<Rightarrow> 'w IdempotencyStore option \<Rightarrow> 'w AuthHandler" where
  "NewAuth cfg svc idem = \<lparr>ah_cfg = cfg, ah_svc = svc, ah_idem = idem\<rparr>"

definition peer :: "request \<Rightarrow> string \<times> string" where
  "peer r = (ClientIP r, req_header r ''User-Agent'')"

definition writeSession :: "'w AuthHandler \<Rightarrow> TokenPair \<Rightarrow> ('w, unit) http" where
  "writeSession h pair = do {
     SetRefreshCookie (cfg_JWT (ah_cfg h)) (RefreshToken pair);
     WriteTokenPair pair }"

subsection \<open>auth.go\<close>

definition register_run ::
    "libs \<Rightarrow> ('d, 'r) world AuthHandler \<Rightarrow> credentialsBody \<Rightarrow> request \<Rightarrow> (('d, 'r) world, string) call" where
  "register_run L h body r =
     or_return (Register L (ah_svc h) \<lparr>reg_Email = body_Email body, reg_Password = body_Password body\<rparr>
       (fst (peer r)) (snd (peer r))) (\<lambda>tok.
     ok (json_Marshal (json_map (MessageWithDevToken (ExposeDevTokens (ah_cfg h))
       ''user created'' ''verification_token'' tok))))"

definition handle_Register ::
    "libs \<Rightarrow> decoders \<Rightarrow> ('d, 'r) world AuthHandler \<Rightarrow> ('d, 'r) world handler" where
  "handle_Register L D h r =
     (case ReadBodyHash (lib_C L) r of
        None \<Rightarrow> WriteDecodeError
      | Some (raw, bodyHash) \<Rightarrow>
          (case dec_unmarshal D raw of
             None \<Rightarrow> WriteDecodeError
           | Some body \<Rightarrow>
               let key = SanitizeIdempotencyKey (lib_U L) (req_header r ''Idempotency-Key'') in
               (case ah_idem h of
                  Some store \<Rightarrow>
                    if key \<noteq> []
                    then RunIdempotent store (''register:'' @ key @ '':'' @ bodyHash) (register_run L h body r)
                    else do {
                      resp \<leftarrow> service (register_run L h body r);
                      (case resp of Inl e \<Rightarrow> WriteError e | Inr b \<Rightarrow> WriteBytes 201 b) }
                | None \<Rightarrow> do {
                    resp \<leftarrow> service (register_run L h body r);
                    (case resp of Inl e \<Rightarrow> WriteError e | Inr b \<Rightarrow> WriteBytes 201 b) })))"

definition handle_Login ::
    "libs \<Rightarrow> decoders \<Rightarrow> ('d, 'r) world AuthHandler \<Rightarrow> ('d, 'r) world handler" where
  "handle_Login L D h r = httputil_Decode (dec_credentials D) r (\<lambda>body. do {
     pair \<leftarrow> service (Login L (ah_svc h) \<lparr>login_Email = body_Email body, login_Password = body_Password body\<rparr>
       (fst (peer r)) (snd (peer r)));
     (case pair of Inl e \<Rightarrow> WriteError e | Inr p \<Rightarrow> writeSession h p) })"

definition handle_Refresh ::
    "libs \<Rightarrow> ('d, 'r) world AuthHandler \<Rightarrow> ('d, 'r) world handler" where
  "handle_Refresh L h r =
     (let refresh = RefreshFromCookie r (cfg_JWT (ah_cfg h))
      in if refresh = [] then WriteError ErrUnauthorized
         else do {
           pair \<leftarrow> service (Refresh L (ah_svc h) refresh (fst (peer r)) (snd (peer r)));
           (case pair of Inl e \<Rightarrow> WriteError e | Inr p \<Rightarrow> writeSession h p) })"

text \<open>The zero \<open>time.Time\<close>, in nanoseconds before 1970.\<close>

definition zero_time :: time where "zero_time = - 62135596800 * nanos"

definition handle_Logout ::
    "libs \<Rightarrow> ('d, 'r) world AuthHandler \<Rightarrow> ('d, 'r) world handler" where
  "handle_Logout L h r =
     (case SessionIDs (lib_V L) r of
        Inl e \<Rightarrow> WriteError e
      | Inr (userID, sessionID) \<Rightarrow>
          (case ClaimsFrom r of
             None \<Rightarrow> WriteError ErrUnauthorized
           | Some claims \<Rightarrow> do {
               let exp = (case claim_ExpiresAt claims of None \<Rightarrow> zero_time | Some e \<Rightarrow> e);
               _ \<leftarrow> service (Logout L (ah_svc h) userID sessionID (claim_ID claims) exp
                 (RefreshFromCookie r (cfg_JWT (ah_cfg h))) (fst (peer r)) (snd (peer r)));
               ClearRefreshCookie (cfg_JWT (ah_cfg h));
               write_Message 200 ''logged out'' }))"

definition handle_LogoutAll ::
    "libs \<Rightarrow> ('d, 'r) world AuthHandler \<Rightarrow> ('d, 'r) world handler" where
  "handle_LogoutAll L h r =
     (case UserIDFromClaims (lib_V L) r of
        Inl e \<Rightarrow> WriteError e
      | Inr userID \<Rightarrow> do {
          a \<leftarrow> service (LogoutAll L (ah_svc h) userID);
          (case a of Inl e \<Rightarrow> WriteError e | Inr _ \<Rightarrow> write_Message 200 ''all sessions revoked'') })"

definition handle_ForgotPassword ::
    "libs \<Rightarrow> decoders \<Rightarrow> ('d, 'r) world AuthHandler \<Rightarrow> ('d, 'r) world handler" where
  "handle_ForgotPassword L D h r = httputil_Decode (dec_email D) r (\<lambda>email. do {
     a \<leftarrow> service (ForgotPassword L (ah_svc h) \<lparr>forgot_Email = email\<rparr>);
     (case a of
        Inl e \<Rightarrow> WriteError e
      | Inr tok \<Rightarrow> write_JSON 200 (json_map (MessageWithDevToken (ExposeDevTokens (ah_cfg h))
          ''if the email exists, a reset link was sent'' ''reset_token'' tok))) })"

definition handle_ResetPassword ::
    "libs \<Rightarrow> decoders \<Rightarrow> ('d, 'r) world AuthHandler \<Rightarrow> ('d, 'r) world handler" where
  "handle_ResetPassword L D h r = httputil_Decode (dec_reset D) r (\<lambda>body. do {
     a \<leftarrow> service (ResetPassword L (ah_svc h)
       \<lparr>reset_TokenInput = \<lparr>in_Token = body_Token body\<rparr>, reset_NewPassword = body_NewPassword body\<rparr>);
     (case a of Inl e \<Rightarrow> WriteError e | Inr _ \<Rightarrow> write_Message 200 ''password updated'') })"

definition handle_VerifyEmail ::
    "libs \<Rightarrow> decoders \<Rightarrow> ('d, 'r) world AuthHandler \<Rightarrow> ('d, 'r) world handler" where
  "handle_VerifyEmail L D h r = httputil_Decode (dec_token D) r (\<lambda>body. do {
     a \<leftarrow> service (VerifyEmail L (ah_svc h) body);
     (case a of Inl e \<Rightarrow> WriteError e | Inr _ \<Rightarrow> write_Message 200 ''email verified'') })"

definition json_AuthProfile :: "uuid_lib \<Rightarrow> AuthProfile \<Rightarrow> json" where
  "json_AuthProfile V p = JObj [(''UserID'', JStr (uuid_String V (prof_UserID p))),
     (''Email'', JStr (prof_Email p)), (''Roles'', JList (map JStr (prof_Roles p))),
     (''Permissions'', JList (map JStr (prof_Permissions p)))]"

definition handle_Me ::
    "libs \<Rightarrow> ('d, 'r) world AuthHandler \<Rightarrow> ('d, 'r) world handler" where
  "handle_Me L h r =
     (case UserIDFromClaims (lib_V L) r of
        Inl e \<Rightarrow> WriteError e
      | Inr userID \<Rightarrow> do {
          a \<leftarrow> service (GetProfile (ah_svc h) userID);
          (case a of Inl e \<Rightarrow> WriteError e | Inr profile \<Rightarrow> write_JSON 200 (json_AuthProfile (lib_V L) profile)) })"

subsection \<open>health.go\<close>

text \<open>A checker: its name and its ping.\<close>

type_synonym 'w checker = "string \<times> ('w, unit) call"

record 'w Health =
  health_service :: string
  health_checkers :: "'w checker list"

definition handle_Liveness :: "'w Health \<Rightarrow> 'w handler" where
  "handle_Liveness h r = write_JSON 200 (json_map [(''status'', JStr ''ok''), (''service'', JStr (health_service h))])"

text \<open>The loop over the checkers: the map of results, the overall status, the HTTP status.\<close>

fun run_checks :: "'w checker list \<Rightarrow> (string \<times> string) list \<times> string \<times> int \<Rightarrow>
    ('w, (string \<times> string) list \<times> string \<times> int) state" where
  "run_checks [] acc = State_Monad.return acc"
| "run_checks ((name, ping) # cs) (checks, overall, status) = do {
     p \<leftarrow> ping;
     (case p of
        Inr _ \<Rightarrow> run_checks cs (AList.update name ''ok'' checks, overall, status)
      | Inl _ \<Rightarrow> run_checks cs (AList.update name ''unavailable'' checks, ''degraded'', 503)) }"

definition handle_Readiness :: "(duration \<Rightarrow> string) \<Rightarrow> ('d, 'r) world Health \<Rightarrow> ('d, 'r) world handler" where
  "handle_Readiness show_duration h r = do {
     start \<leftarrow> service time_Now;
     res \<leftarrow> service (run_checks (health_checkers h) ([], ''ok'', 200));
     now \<leftarrow> service time_Now;
     (case res of (checks, overall, status) \<Rightarrow>
        write_JSON status (json_map [(''status'', JStr overall),
          (''checks'', json_map (map (\<lambda>(k, v). (k, JStr v)) checks)),
          (''duration'', JStr (show_duration (now - start)))])) }"

subsection \<open>docs.go\<close>

text \<open>The page of \<open>DocsRedoc\<close>, line by line, around the path of the specification.\<close>

definition docs_page :: "string \<Rightarrow> string list" where
  \<open>docs_page openapiPath =
     [''<!doctype html>'', ''<html>'', ''  <head>'',
      ''    <meta charset="utf-8" />'',
      ''    <meta name="viewport" content="width=device-width,initial-scale=1" />'',
      ''    <title>Auth Service Docs</title>'', ''  </head>'', ''  <body>'',
      ''    <redoc spec-url="'' @ openapiPath @ ''"></redoc>'',
      ''    <script src="https://cdn.redoc.ly/redoc/latest/bundles/redoc.standalone.js"></script>'',
      ''  </body>'', ''</html>'']\<close>

definition handle_Docs :: "string \<Rightarrow> 'w handler" where
  "handle_Docs openapiPath r = do {
     header_Set ''Content-Type'' ''text/html; charset=utf-8'';
     write_body (join (CHR 0x0A) (docs_page openapiPath)) }"

end
