(* ===== verification/Tables.thy ===== *)
theory Tables
  imports World
begin

text \<open>
  The Postgres schema of \<open>migrations/000001_init.up.sql\<close>: one record per row type, a table
  as the list of its rows in insertion order. \<open>schema_ok\<close> collects the constraints the
  migration declares (primary keys, the unique index on the lower-cased email of the accounts that
  are not deleted, the unique names and token hashes, the foreign keys, the lengths of the
  \<open>VARCHAR\<close> columns); \<open>evolves\<close> says how the tables
  can change over time: rows are only appended, a revoked refresh token stays revoked, a used
  one-time token stays used, the audit log is append-only. \<open>db_step\<close> is both together, and
  every statement of the repositories is shown to be a \<open>db_step\<close>.

  What Postgres does with text is outside the source: the record \<open>pg_lib\<close> has the function
  \<open>LOWER\<close>, the order in which \<open>array_agg(DISTINCT ..)\<close> lists its result, and which
  strings the server accepts as \<open>text\<close> and as \<open>inet\<close>. Digests and bcrypt hashes, which the service
  makes itself, are ASCII; every other text argument of a statement is checked.
\<close>

record pg_lib =
  sql_LOWER :: "string \<Rightarrow> string"
  agg_DISTINCT :: "string list \<Rightarrow> string list"
  text_ok :: "string \<Rightarrow> bool"
  inet_ok :: "string \<Rightarrow> bool"

record user_row =
  u_id :: uuid
  u_email :: string
  u_hash :: string
  u_verified :: bool
  u_active :: bool
  u_created :: time
  u_updated :: time
  u_deleted :: "time option"

record refresh_row =
  t_id :: uuid
  t_user :: uuid
  t_session :: uuid
  t_hash :: string
  t_family :: uuid
  t_expires :: time
  t_revoked :: "time option"
  t_created :: time

record onetime_row =
  o_id :: uuid
  o_user :: uuid
  o_hash :: string
  o_expires :: time
  o_used :: "time option"
  o_created :: time

record audit_row =
  a_id :: uuid
  a_user :: "uuid option"
  a_action :: string
  a_ip :: "string option"
  a_ua :: "string option"
  a_metadata :: string
  a_created :: time

record tables =
  tb_roles :: "(uuid \<times> string) list"
  tb_permissions :: "(uuid \<times> string) list"
  tb_role_permissions :: "(uuid \<times> uuid) list"
  tb_users :: "user_row list"
  tb_user_roles :: "(uuid \<times> uuid) list"
  tb_refresh :: "refresh_row list"
  tb_resets :: "onetime_row list"
  tb_verify :: "onetime_row list"
  tb_audit :: "audit_row list"

type_synonym 'r svc_world = "(tables, 'r) world"

text \<open>SQLSTATE codes: a broken constraint, a value too long for its column, text that is not UTF-8.\<close>

definition unique_violation :: err where "unique_violation = PgError ''23505''"
definition fk_violation :: err where "fk_violation = PgError ''23503''"
definition too_long :: err where "too_long = PgError ''22001''"
definition bad_text :: err where "bad_text = PgError ''22021''"

text \<open>\<open>VARCHAR(n)\<close> counts characters.\<close>

definition varchar :: "nat \<Rightarrow> string \<Rightarrow> bool" where
  "varchar n s \<longleftrightarrow> length (runes s) \<le> n"

lemma varchar_le: "length s \<le> n \<Longrightarrow> varchar n s"
  using length_runes_le [of s] by (simp add: varchar_def)

subsection \<open>Constraints\<close>

definition user_ids :: "tables \<Rightarrow> uuid set" where
  "user_ids d = u_id ` set (tb_users d)"

definition live_users :: "tables \<Rightarrow> user_row list" where
  "live_users d = filter (\<lambda>u. u_deleted u = None) (tb_users d)"

definition onetime_ok :: "tables \<Rightarrow> onetime_row list \<Rightarrow> bool" where
  "onetime_ok d xs \<longleftrightarrow> distinct (map o_id xs) \<and> distinct (map o_hash xs) \<and>
     (\<forall>r \<in> set xs. o_user r \<in> user_ids d \<and> varchar 64 (o_hash r))"

text \<open>The two tables of names, and the two tables that link rows of others.\<close>

definition names_ok :: "nat \<Rightarrow> (uuid \<times> string) list \<Rightarrow> bool" where
  "names_ok n xs \<longleftrightarrow> distinct (map fst xs) \<and> distinct (map snd xs) \<and> (\<forall>x \<in> set xs. varchar n (snd x))"

definition links_ok :: "uuid set \<Rightarrow> uuid set \<Rightarrow> (uuid \<times> uuid) list \<Rightarrow> bool" where
  "links_ok as bs xs \<longleftrightarrow> distinct xs \<and> set xs \<subseteq> as \<times> bs"

definition columns_ok :: "tables \<Rightarrow> bool" where
  "columns_ok d \<longleftrightarrow>
     (\<forall>u \<in> set (tb_users d). varchar 255 (u_email u) \<and> varchar 255 (u_hash u)) \<and>
     (\<forall>r \<in> set (tb_refresh d). varchar 64 (t_hash r)) \<and>
     (\<forall>r \<in> set (tb_audit d). varchar 100 (a_action r))"

definition schema_ok :: "pg_lib \<Rightarrow> tables \<Rightarrow> bool" where
  "schema_ok P d \<longleftrightarrow>
     names_ok 50 (tb_roles d) \<and> names_ok 100 (tb_permissions d) \<and>
     links_ok (fst ` set (tb_roles d)) (fst ` set (tb_permissions d)) (tb_role_permissions d) \<and>
     distinct (map u_id (tb_users d)) \<and>
     distinct (map (\<lambda>u. sql_LOWER P (u_email u)) (live_users d)) \<and>
     links_ok (user_ids d) (fst ` set (tb_roles d)) (tb_user_roles d) \<and>
     distinct (map t_id (tb_refresh d)) \<and> distinct (map t_hash (tb_refresh d)) \<and>
     (\<forall>r \<in> set (tb_refresh d). t_user r \<in> user_ids d) \<and>
     onetime_ok d (tb_resets d) \<and> onetime_ok d (tb_verify d) \<and>
     distinct (map a_id (tb_audit d)) \<and>
     (\<forall>r \<in> set (tb_audit d). set_option (a_user r) \<subseteq> user_ids d) \<and>
     columns_ok d"

lemma schema_keys:
  assumes "schema_ok P d"
  shows "distinct (map u_id (tb_users d))" "distinct (map (\<lambda>u. sql_LOWER P (u_email u)) (live_users d))"
    "distinct (map t_id (tb_refresh d))" "distinct (map t_hash (tb_refresh d))"
  using assms by (simp_all add: schema_ok_def)

subsection \<open>How tables change over time\<close>

text \<open>\<open>grows le xs ys\<close>: the rows of \<open>xs\<close> are still there, updated along \<open>le\<close>.\<close>

definition grows :: "('a \<Rightarrow> 'a \<Rightarrow> bool) \<Rightarrow> 'a list \<Rightarrow> 'a list \<Rightarrow> bool" where
  "grows le xs ys \<longleftrightarrow>
     length xs \<le> length ys \<and> (\<forall>i < length xs. le (xs ! i) (ys ! i))"

lemma preorder_grows: "preorder_rel le \<Longrightarrow> preorder_rel (grows le)"
  unfolding preorder_rel_def grows_def by (meson less_le_trans order_trans order_refl)

lemma grows_refl: "(\<And>x. le x x) \<Longrightarrow> grows le xs xs"
  by (simp add: grows_def)

lemma grows_append: "(\<And>x. le x x) \<Longrightarrow> grows le xs (xs @ ys)"
  by (simp add: grows_def nth_append)

lemma grows_map: "(\<And>x. le x (f x)) \<Longrightarrow> grows le xs (map f xs)"
  by (simp add: grows_def)

lemma growsD: "grows le xs ys \<Longrightarrow> x \<in> set xs \<Longrightarrow> \<exists>y \<in> set ys. le x y"
  unfolding grows_def in_set_conv_nth by (metis less_le_trans nth_mem)

definition user_le :: "user_row \<Rightarrow> user_row \<Rightarrow> bool" where
  "user_le r r' \<longleftrightarrow> u_id r' = u_id r \<and> u_email r' = u_email r \<and> u_active r' = u_active r \<and>
     u_created r' = u_created r \<and> u_deleted r' = u_deleted r \<and> (u_verified r \<longrightarrow> u_verified r')"

definition refresh_le :: "refresh_row \<Rightarrow> refresh_row \<Rightarrow> bool" where
  "refresh_le r r' \<longleftrightarrow> t_id r' = t_id r \<and> t_user r' = t_user r \<and> t_session r' = t_session r \<and>
     t_hash r' = t_hash r \<and> t_family r' = t_family r \<and> t_expires r' = t_expires r \<and>
     (t_revoked r \<noteq> None \<longrightarrow> t_revoked r' = t_revoked r)"

definition onetime_le :: "onetime_row \<Rightarrow> onetime_row \<Rightarrow> bool" where
  "onetime_le r r' \<longleftrightarrow> o_id r' = o_id r \<and> o_user r' = o_user r \<and> o_hash r' = o_hash r \<and>
     o_expires r' = o_expires r \<and> (o_used r \<noteq> None \<longrightarrow> o_used r' = o_used r)"

lemma row_le_refl [simp]: "user_le r r" "refresh_le s s" "onetime_le t t"
  by (simp_all add: user_le_def refresh_le_def onetime_le_def)

lemma preorder_row_le: "preorder_rel user_le" "preorder_rel refresh_le" "preorder_rel onetime_le"
  by (auto simp: preorder_rel_def user_le_def refresh_le_def onetime_le_def)

definition evolves :: "tables \<Rightarrow> tables \<Rightarrow> bool" where
  "evolves d d' \<longleftrightarrow>
     tb_roles d' = tb_roles d \<and> tb_permissions d' = tb_permissions d \<and>
     tb_role_permissions d' = tb_role_permissions d \<and>
     grows user_le (tb_users d) (tb_users d') \<and>
     grows (=) (tb_user_roles d) (tb_user_roles d') \<and>
     grows refresh_le (tb_refresh d) (tb_refresh d') \<and>
     grows onetime_le (tb_resets d) (tb_resets d') \<and>
     grows onetime_le (tb_verify d) (tb_verify d') \<and>
     grows (=) (tb_audit d) (tb_audit d')"

definition db_step :: "pg_lib \<Rightarrow> tables \<Rightarrow> tables \<Rightarrow> bool" where
  "db_step P d d' \<longleftrightarrow> evolves d d' \<and> (schema_ok P d \<longrightarrow> schema_ok P d')"

lemma preorder_eq: "preorder_rel (=)"
  by (simp add: preorder_rel_def)

lemma grows_trans:
  "preorder_rel le \<Longrightarrow> grows le xs ys \<Longrightarrow> grows le ys zs \<Longrightarrow> grows le xs zs"
  using preorder_grows unfolding preorder_rel_def by blast

lemmas grows_trans_rows =
  grows_trans [OF preorder_row_le(1)] grows_trans [OF preorder_row_le(2)]
  grows_trans [OF preorder_row_le(3)] grows_trans [OF preorder_eq]

lemma evolves_refl [simp]: "evolves d d"
  by (simp add: evolves_def grows_refl)

lemma evolves_trans:
  assumes "evolves d1 d2" "evolves d2 d3"
  shows "evolves d1 d3"
proof -
  note le = assms [unfolded evolves_def]
  have "grows user_le (tb_users d1) (tb_users d3)" using le by (blast intro: grows_trans_rows(1))
  moreover have "grows refresh_le (tb_refresh d1) (tb_refresh d3)"
    using le by (blast intro: grows_trans_rows(2))
  moreover have "grows onetime_le (tb_resets d1) (tb_resets d3)"
    "grows onetime_le (tb_verify d1) (tb_verify d3)"
    using le by (blast intro: grows_trans_rows(3))+
  moreover have "grows (=) (tb_user_roles d1) (tb_user_roles d3)"
    "grows (=) (tb_audit d1) (tb_audit d3)"
    using le by (blast intro: grows_trans_rows(4))+
  ultimately show ?thesis using le by (simp add: evolves_def)
qed

lemma preorder_evolves [simp, intro]: "preorder_rel evolves"
  unfolding preorder_rel_def using evolves_trans by auto

lemma preorder_db_step [simp, intro]: "preorder_rel (db_step P)"
  using preorder_evolves unfolding preorder_rel_def db_step_def by blast

lemma db_step_refl [simp]: "db_step P d d"
  by (simp add: db_step_def)

subsection \<open>What the two relations give\<close>

text \<open>A revoked token stays revoked, and no live row shares its hash.\<close>

definition revoked_hash :: "string \<Rightarrow> tables \<Rightarrow> bool" where
  "revoked_hash h d \<longleftrightarrow> (\<exists>r \<in> set (tb_refresh d). t_hash r = h \<and> t_revoked r \<noteq> None)"

lemma revoked_hash_evolves: "revoked_hash h d \<Longrightarrow> evolves d d' \<Longrightarrow> revoked_hash h d'"
proof -
  assume "revoked_hash h d" "evolves d d'"
  then obtain r where r: "r \<in> set (tb_refresh d)" "t_hash r = h" "t_revoked r \<noteq> None"
    and g: "grows refresh_le (tb_refresh d) (tb_refresh d')"
    by (auto simp: revoked_hash_def evolves_def)
  from growsD [OF g r(1)] obtain r' where "r' \<in> set (tb_refresh d')" "refresh_le r r'" by blast
  with r show ?thesis unfolding revoked_hash_def by (intro bexI [of _ r']) (auto simp: refresh_le_def)
qed

lemma revoked_hash_not_live:
  assumes "schema_ok P d" "revoked_hash h d" "r \<in> set (tb_refresh d)" "t_hash r = h"
  shows "t_revoked r \<noteq> None"
proof -
  obtain r' where r': "r' \<in> set (tb_refresh d)" "t_hash r' = h" "t_revoked r' \<noteq> None"
    using assms(2) by (auto simp: revoked_hash_def)
  have "distinct (map t_hash (tb_refresh d))" by (rule schema_keys [OF assms(1)])
  then have "r = r'" by (rule distinct_map_inj) (simp_all add: assms(3,4) r'(1,2))
  with r' show ?thesis by simp
qed

definition used_hash :: "string \<Rightarrow> onetime_row list \<Rightarrow> bool" where
  "used_hash h xs \<longleftrightarrow> (\<exists>r \<in> set xs. o_hash r = h \<and> o_used r \<noteq> None)"

lemma used_hash_grows: "used_hash h xs \<Longrightarrow> grows onetime_le xs ys \<Longrightarrow> used_hash h ys"
proof -
  assume "used_hash h xs" and g: "grows onetime_le xs ys"
  then obtain r where r: "r \<in> set xs" "o_hash r = h" "o_used r \<noteq> None"
    by (auto simp: used_hash_def)
  from growsD [OF g r(1)] obtain r' where "r' \<in> set ys" "onetime_le r r'" by blast
  with r show ?thesis unfolding used_hash_def by (intro bexI [of _ r']) (auto simp: onetime_le_def)
qed

lemma used_hash_not_live:
  assumes "onetime_ok d xs" "used_hash h xs" "r \<in> set xs" "o_hash r = h"
  shows "o_used r \<noteq> None"
proof -
  obtain r' where r': "r' \<in> set xs" "o_hash r' = h" "o_used r' \<noteq> None"
    using assms(2) by (auto simp: used_hash_def)
  have "distinct (map o_hash xs)" using assms(1) by (simp add: onetime_ok_def)
  then have "r = r'" by (rule distinct_map_inj) (simp_all add: assms(3,4) r'(1,2))
  with r' show ?thesis by simp
qed

text \<open>Tables that differ in one component only.\<close>

lemma evolves_one:
  "grows user_le (tb_users d) us \<Longrightarrow> evolves d (d\<lparr>tb_users := us\<rparr>)"
  "grows refresh_le (tb_refresh d) ts \<Longrightarrow> evolves d (d\<lparr>tb_refresh := ts\<rparr>)"
  "grows onetime_le (tb_resets d) os \<Longrightarrow> evolves d (d\<lparr>tb_resets := os\<rparr>)"
  "grows onetime_le (tb_verify d) os \<Longrightarrow> evolves d (d\<lparr>tb_verify := os\<rparr>)"
  "grows (=) (tb_audit d) as \<Longrightarrow> evolves d (d\<lparr>tb_audit := as\<rparr>)"
  "grows (=) (tb_user_roles d) urs \<Longrightarrow> evolves d (d\<lparr>tb_user_roles := urs\<rparr>)"
  by (simp_all add: evolves_def grows_def)

text \<open>An update that leaves keys and references alone keeps the constraints.\<close>

lemma onetime_ok_map:
  assumes "\<And>r. o_id (f r) = o_id r" "\<And>r. o_hash (f r) = o_hash r" "\<And>r. o_user (f r) = o_user r"
  shows "onetime_ok d (map f xs) = onetime_ok d xs"
  using assms by (simp add: onetime_ok_def o_def)

lemma schema_ok_map_refresh:
  assumes "\<And>r. t_id (f r) = t_id r" "\<And>r. t_hash (f r) = t_hash r" "\<And>r. t_user (f r) = t_user r"
  shows "schema_ok P (d\<lparr>tb_refresh := map f (tb_refresh d)\<rparr>) = schema_ok P d"
  using assms
  by (simp add: schema_ok_def user_ids_def live_users_def onetime_ok_def columns_ok_def o_def)

lemma schema_ok_map_users:
  assumes "\<And>u. u_id (f u) = u_id u" "\<And>u. u_email (f u) = u_email u"
    "\<And>u. u_deleted (f u) = u_deleted u" "\<And>u. varchar 255 (u_hash u) \<Longrightarrow> varchar 255 (u_hash (f u))"
  shows "schema_ok P d \<Longrightarrow> schema_ok P (d\<lparr>tb_users := map f (tb_users d)\<rparr>)"
  using assms
  by (simp add: schema_ok_def user_ids_def live_users_def onetime_ok_def columns_ok_def o_def filter_map image_image)

lemma schema_ok_onetimeD:
  "schema_ok P d \<Longrightarrow> onetime_ok d (tb_resets d)" "schema_ok P d \<Longrightarrow> onetime_ok d (tb_verify d)"
  by (simp_all add: schema_ok_def)

end
