(* ===== verification/RefreshRepo.thy ===== *)
theory RefreshRepo
  imports Tables
begin

text \<open>
  \<open>internal/repository/postgres/refresh.go\<close>: the refresh-token table. Every SQL statement is
  a function on the tables (\<open>insert_refresh\<close>, \<open>revoke_where\<close>) sent through
  \<open>pg_stmt\<close>; the repository is the record \<open>RefreshRepo\<close>. The locale
  \<open>refresh_store\<close> is what its client relies on; it is interpreted on the repository below.
\<close>

subsection \<open>The repository\<close>

definition insert_refresh ::
    "RefreshRecord \<Rightarrow> time \<Rightarrow> uuid \<Rightarrow> tables \<Rightarrow> (err + unit) \<times> tables" where
  "insert_refresh rec now nid d =
     (if \<not> varchar 64 (rec_TokenHash rec) then (Inl too_long, d)
      else if nid \<in> t_id ` set (tb_refresh d) \<or> rec_TokenHash rec \<in> t_hash ` set (tb_refresh d)
      then (Inl unique_violation, d)
      else if rec_UserID rec \<notin> user_ids d then (Inl fk_violation, d)
      else (Inr (), d\<lparr>tb_refresh := tb_refresh d @
        [\<lparr>t_id = nid, t_user = rec_UserID rec, t_session = rec_SessionID rec,
          t_hash = rec_TokenHash rec, t_family = rec_FamilyID rec,
          t_expires = rec_ExpiresAt rec, t_revoked = None, t_created = now\<rparr>]\<rparr>))"

definition RefreshRepo_Save :: "RefreshRecord \<Rightarrow> ('r svc_world, unit) call" where
  "RefreshRepo_Save rec = pg_stmt (insert_refresh rec)"

definition row_record :: "refresh_row \<Rightarrow> RefreshRecord" where
  "row_record r = \<lparr>rec_ID = t_id r, rec_UserID = t_user r, rec_SessionID = t_session r,
     rec_TokenHash = t_hash r, rec_FamilyID = t_family r, rec_ExpiresAt = t_expires r\<rparr>"

definition live_at :: "time \<Rightarrow> string \<Rightarrow> refresh_row \<Rightarrow> bool" where
  "live_at now hash r \<longleftrightarrow> t_hash r = hash \<and> t_revoked r = None \<and> now < t_expires r"

text \<open>\<open>scan\<close>: the first row, \<open>pgx.ErrNoRows\<close> becomes \<open>ErrNotFound\<close>.\<close>

definition RefreshRepo_GetByHash :: "string \<Rightarrow> ('r svc_world, RefreshRecord) call" where
  "RefreshRepo_GetByHash hash = pg_query (\<lambda>now d.
     case find (live_at now hash) (tb_refresh d) of
       None \<Rightarrow> Inl ErrNotFound | Some r \<Rightarrow> Inr (row_record r))"

text \<open>
  On an error other than \<open>pgx.ErrNoRows\<close> the method returns the address of the still zero
  \<open>familyID\<close> together with the error.
\<close>

definition RefreshRepo_GetRevokedFamily ::
    "string \<Rightarrow> ('r svc_world, uuid option \<times> err option) state" where
  "RefreshRepo_GetRevokedFamily hash = do {
     r \<leftarrow> pg_query (\<lambda>now d.
       Inr (find (\<lambda>r. t_hash r = hash \<and> t_revoked r \<noteq> None) (tb_refresh d)));
     State_Monad.return (case r of
       Inl e \<Rightarrow> (Some 0, Some e)
     | Inr None \<Rightarrow> (None, None)
     | Inr (Some row) \<Rightarrow> (Some (t_family row), None)) }"

definition revoke_where ::
    "(refresh_row \<Rightarrow> bool) \<Rightarrow> time \<Rightarrow> uuid \<Rightarrow> tables \<Rightarrow> (err + unit) \<times> tables" where
  "revoke_where p now nid d = (Inr (), d\<lparr>tb_refresh :=
     map (\<lambda>r. if p r \<and> t_revoked r = None then r\<lparr>t_revoked := Some now\<rparr> else r) (tb_refresh d)\<rparr>)"

definition RefreshRepo_Revoke :: "string \<Rightarrow> ('r svc_world, unit) call" where
  "RefreshRepo_Revoke hash = pg_stmt (revoke_where (\<lambda>r. t_hash r = hash))"

definition RefreshRepo_RevokeFamily :: "uuid \<Rightarrow> ('r svc_world, unit) call" where
  "RefreshRepo_RevokeFamily familyID = pg_stmt (revoke_where (\<lambda>r. t_family r = familyID))"

definition RefreshRepo_RevokeAllForUser :: "uuid \<Rightarrow> ('r svc_world, unit) call" where
  "RefreshRepo_RevokeAllForUser userID = pg_stmt (revoke_where (\<lambda>r. t_user r = userID))"

definition RefreshRepo :: "'r svc_world RefreshTokenRepository" where
  "RefreshRepo = \<lparr>Refresh_Save = RefreshRepo_Save, GetByHash = RefreshRepo_GetByHash,
     GetRevokedFamily = RefreshRepo_GetRevokedFamily, Revoke = RefreshRepo_Revoke,
     RevokeFamily = RefreshRepo_RevokeFamily, RevokeAllForUser = RefreshRepo_RevokeAllForUser\<rparr>"

lemma RefreshRepo_simps [simp]:
  "Refresh_Save RefreshRepo = RefreshRepo_Save" "GetByHash RefreshRepo = RefreshRepo_GetByHash"
  "GetRevokedFamily RefreshRepo = RefreshRepo_GetRevokedFamily"
  "Revoke RefreshRepo = RefreshRepo_Revoke"
  "RevokeFamily RefreshRepo = RefreshRepo_RevokeFamily"
  "RevokeAllForUser RefreshRepo = RefreshRepo_RevokeAllForUser"
  by (simp_all add: RefreshRepo_def)

subsection \<open>Every statement is a step of the database\<close>

lemma db_step_insert_refresh: "db_step P d (snd (insert_refresh rec now nid d))"
proof -
  have "evolves d (snd (insert_refresh rec now nid d))"
    by (auto simp: insert_refresh_def intro!: evolves_one grows_append)
  moreover have "schema_ok P d \<longrightarrow> schema_ok P (snd (insert_refresh rec now nid d))"
    by (auto simp: insert_refresh_def schema_ok_def user_ids_def live_users_def onetime_ok_def columns_ok_def)
  ultimately show ?thesis by (simp add: db_step_def)
qed

lemma revoked_same [simp]:
  "t_id (r\<lparr>t_revoked := x\<rparr>) = t_id r" "t_hash (r\<lparr>t_revoked := x\<rparr>) = t_hash r"
  "t_user (r\<lparr>t_revoked := x\<rparr>) = t_user r"
  by simp_all

lemma db_step_revoke_where: "db_step P d (snd (revoke_where p now nid d))"
proof -
  let ?f = "\<lambda>r. if p r \<and> t_revoked r = None then r\<lparr>t_revoked := Some now\<rparr> else r"
  have "evolves d (snd (revoke_where p now nid d))"
    by (auto simp: revoke_where_def refresh_le_def intro!: evolves_one grows_map)
  moreover have "schema_ok P (d\<lparr>tb_refresh := map ?f (tb_refresh d)\<rparr>) = schema_ok P d"
    by (rule schema_ok_map_refresh) simp_all
  then have "schema_ok P d \<longrightarrow> schema_ok P (snd (revoke_where p now nid d))"
    by (simp add: revoke_where_def)
  ultimately show ?thesis by (simp add: db_step_def)
qed

lemma RefreshRepo_effect [keep_intros]:
  "effect (pg_rel (db_step P)) (RefreshRepo_Save rec)"
  "effect (pg_rel (db_step P)) (RefreshRepo_GetByHash hash)"
  "effect (pg_rel (db_step P)) (RefreshRepo_GetRevokedFamily hash)"
  "effect (pg_rel (db_step P)) (RefreshRepo_Revoke hash)"
  "effect (pg_rel (db_step P)) (RefreshRepo_RevokeFamily fam)"
  "effect (pg_rel (db_step P)) (RefreshRepo_RevokeAllForUser u)"
  unfolding RefreshRepo_Save_def RefreshRepo_GetByHash_def RefreshRepo_GetRevokedFamily_def
    RefreshRepo_Revoke_def RefreshRepo_RevokeFamily_def RefreshRepo_RevokeAllForUser_def
  by (intro keep_intros effect_pg_rel_stmt preorder_db_step preorder_pg_rel
      db_step_insert_refresh db_step_revoke_where)+

lemma RefreshRepo_later [keep_intros]:
  "effect later (RefreshRepo_Save rec)" "effect later (RefreshRepo_GetByHash hash)"
  "effect later (RefreshRepo_GetRevokedFamily hash)" "effect later (RefreshRepo_Revoke hash)"
  "effect later (RefreshRepo_RevokeFamily fam)" "effect later (RefreshRepo_RevokeAllForUser u)"
  unfolding RefreshRepo_Save_def RefreshRepo_GetByHash_def RefreshRepo_GetRevokedFamily_def
    RefreshRepo_Revoke_def RefreshRepo_RevokeFamily_def RefreshRepo_RevokeAllForUser_def
  by (intro keep_intros preorder_later)+

subsection \<open>What the statements do\<close>

lemma insert_refresh_ok:
  assumes "insert_refresh rec now nid d = (Inr x, d')"
  shows "\<exists>row. tb_refresh d' = tb_refresh d @ [row] \<and> t_revoked row = None \<and>
      t_hash row = rec_TokenHash rec \<and> t_user row = rec_UserID rec \<and>
      t_session row = rec_SessionID rec \<and> t_family row = rec_FamilyID rec \<and>
      t_expires row = rec_ExpiresAt rec \<and> d' = d\<lparr>tb_refresh := tb_refresh d @ [row]\<rparr>"
    and "rec_TokenHash rec \<notin> t_hash ` set (tb_refresh d)" "rec_UserID rec \<in> user_ids d"
  using assms by (auto simp: insert_refresh_def split: if_splits)

text \<open>After a revocation no row it selects is live, and the other rows are as before.\<close>

lemma revoke_where_tables:
  "tb_refresh (snd (revoke_where p now nid d)) =
     map (\<lambda>r. if p r \<and> t_revoked r = None then r\<lparr>t_revoked := Some now\<rparr> else r) (tb_refresh d)"
  by (simp add: revoke_where_def)

lemma revoke_where_selected:
  assumes "\<And>r x. p (r\<lparr>t_revoked := x\<rparr>) = p r"
  shows "\<forall>r \<in> set (tb_refresh (snd (revoke_where p now nid d))). p r \<longrightarrow> t_revoked r \<noteq> None"
  using assms by (auto simp: revoke_where_tables)

lemma revoke_where_others:
  "filter (\<lambda>r. \<not> p r) (tb_refresh (snd (revoke_where p now nid d)))
     = filter (\<lambda>r. \<not> p r) (tb_refresh d)"
  if "\<And>r x. p (r\<lparr>t_revoked := x\<rparr>) = p r"
  unfolding revoke_where_tables using that by (intro filter_map_id) auto

lemma GetByHash_Inr:
  assumes "run_state (RefreshRepo_GetByHash hash) w = (Inr rec, w')"
  shows "w' = advance w"
    "\<exists>r \<in> set (tb_refresh (w_pg w)). live_at (w_clock (advance w)) hash r \<and> rec = row_record r"
  using pg_query_Inr [OF assms [unfolded RefreshRepo_GetByHash_def]]
  by (auto split: option.splits dest: find_SomeD)

lemma GetByHash_world: "snd (run_state (RefreshRepo_GetByHash hash) w) = advance w"
  by (simp add: RefreshRepo_GetByHash_def pg_query_world)

text \<open>A statement that reports success has been executed.\<close>

lemma Revoke_Inr:
  assumes "run_state (RefreshRepo_Revoke hash) w = (Inr x, w')"
  shows "w' = (advance w)\<lparr>w_pg := snd (revoke_where (\<lambda>r. t_hash r = hash)
           (w_clock (advance w)) (uuid_at (w_env w) (w_ticks w)) (w_pg w))\<rparr>"
  using pg_stmt_Inr [OF assms [unfolded RefreshRepo_Revoke_def]] by auto

lemma Save_Inr:
  assumes "run_state (RefreshRepo_Save rec) w = (Inr x, w')"
  shows "\<exists>d. insert_refresh rec (w_clock (advance w)) (uuid_at (w_env w) (w_ticks w)) (w_pg w)
      = (Inr (), d) \<and> w' = (advance w)\<lparr>w_pg := d\<rparr>"
  using pg_stmt_Inr [OF assms [unfolded RefreshRepo_Save_def]] by auto

lemma revoke_where_hash:
  assumes "r \<in> set (tb_refresh d)" "t_hash r = h"
  shows "revoked_hash h (snd (revoke_where (\<lambda>r. t_hash r = h) now nid d))"
proof -
  let ?f = "\<lambda>r. if t_hash r = h \<and> t_revoked r = None then r\<lparr>t_revoked := Some now\<rparr> else r"
  have "?f r \<in> set (tb_refresh (snd (revoke_where (\<lambda>r. t_hash r = h) now nid d)))"
    unfolding revoke_where_tables set_map using assms(1) by (rule imageI)
  moreover have "t_hash (?f r) = h" "t_revoked (?f r) \<noteq> None" using assms(2) by auto
  ultimately show ?thesis unfolding revoked_hash_def by blast
qed

lemma GetByHash_revoked:
  assumes "schema_ok P (w_pg w)" "revoked_hash h (w_pg w)"
    and "run_state (RefreshRepo_GetByHash h) w = (Inr rec, w')"
  shows False
  using GetByHash_Inr(2) [OF assms(3)] revoked_hash_not_live [OF assms(1,2)]
  unfolding live_at_def by blast

subsection \<open>The contract of a refresh-token store\<close>

text \<open>
  \<open>known w h\<close>: a token with this digest was stored; \<open>dead w h\<close>: it is revoked. The client's
  lemma: a token that was found and revoked is never found again.
\<close>

locale refresh_store =
  fixes R :: "('d, 'r) world RefreshTokenRepository"
    and inv :: "('d, 'r) world \<Rightarrow> bool"
    and later_state :: "('d, 'r) world \<Rightarrow> ('d, 'r) world \<Rightarrow> bool"
    and known :: "('d, 'r) world \<Rightarrow> string \<Rightarrow> bool"
    and dead :: "('d, 'r) world \<Rightarrow> string \<Rightarrow> bool"
  assumes found_known: "run_state (GetByHash R h) w = (Inr rec, w') \<Longrightarrow> known w' h"
    and revoke_kills: "inv w \<Longrightarrow> known w h \<Longrightarrow> run_state (Revoke R h) w = (Inr u, w') \<Longrightarrow> dead w' h"
    and dead_later: "dead w h \<Longrightarrow> later_state w w' \<Longrightarrow> dead w' h"
    and dead_refused: "inv w \<Longrightarrow> dead w h \<Longrightarrow> run_state (GetByHash R h) w = (r, w') \<Longrightarrow> \<exists>e. r = Inl e"
begin

lemma retired:
  assumes "run_state (GetByHash R h) w = (Inr rec, w1)" "run_state (Revoke R h) w1 = (Inr u, w2)"
    and "inv w1" "later_state w2 w3" "inv w3" "run_state (GetByHash R h) w3 = (r, w4)"
  shows "\<exists>e. r = Inl e"
  using found_known [OF assms(1)] revoke_kills assms(2-6) dead_later dead_refused by blast

end

interpretation refresh: refresh_store RefreshRepo "\<lambda>w. schema_ok P (w_pg w)" "pg_rel evolves"
    "\<lambda>w h. h \<in> t_hash ` set (tb_refresh (w_pg w))" "\<lambda>w h. revoked_hash h (w_pg w)" for P
proof (unfold_locales, goal_cases)
  case (1 h w rec w')
  then show ?case using GetByHash_Inr [of h w rec w'] by (auto simp: live_at_def)
next
  case (2 w h u w')
  then obtain r where r: "r \<in> set (tb_refresh (w_pg w))" "t_hash r = h" by auto
  show ?case using Revoke_Inr [of h w u w'] 2(3) revoke_where_hash [OF r] by simp
next
  case (3 w h w')
  then show ?case unfolding pg_rel_def by (rule revoked_hash_evolves)
next
  case (4 w h r w')
  then show ?case using GetByHash_revoked [of P w h _ w'] by (cases r) auto
qed

end
