(* ===== verification/OneTimeRepo.thy ===== *)
theory OneTimeRepo
  imports Tables
begin

text \<open>
  \<open>internal/repository/postgres/onetime.go\<close> and \<open>audit.go\<close>: the single-use tokens
  (password reset and email verification share the code, the table name is a field) and the audit
  log. The locale \<open>single_use\<close> is the contract of a one-time-token repository, that a token
  is consumed at most once and only before it expires; it is interpreted on both tables.
\<close>

subsection \<open>The repository\<close>

datatype onetime_table = PasswordResets | EmailVerifications

fun onetime_rows :: "onetime_table \<Rightarrow> tables \<Rightarrow> onetime_row list" where
  "onetime_rows PasswordResets d = tb_resets d"
| "onetime_rows EmailVerifications d = tb_verify d"

fun set_onetime_rows :: "onetime_table \<Rightarrow> onetime_row list \<Rightarrow> tables \<Rightarrow> tables" where
  "set_onetime_rows PasswordResets xs d = d\<lparr>tb_resets := xs\<rparr>"
| "set_onetime_rows EmailVerifications xs d = d\<lparr>tb_verify := xs\<rparr>"

text \<open>\<open>None\<close> is the panic on a table name that is not allowlisted.\<close>

definition newOneTimeRepo :: "string \<Rightarrow> onetime_table option" where
  "newOneTimeRepo table =
     (if table = ''password_resets'' then Some PasswordResets
      else if table = ''email_verifications'' then Some EmailVerifications
      else None)"

definition insert_onetime ::
    "onetime_table \<Rightarrow> uuid \<Rightarrow> string \<Rightarrow> time \<Rightarrow> time \<Rightarrow> uuid \<Rightarrow> tables \<Rightarrow> (err + unit) \<times> tables" where
  "insert_onetime tab userID hash expires now nid d =
     (if \<not> varchar 64 hash then (Inl too_long, d)
      else if nid \<in> o_id ` set (onetime_rows tab d) \<or> hash \<in> o_hash ` set (onetime_rows tab d)
      then (Inl unique_violation, d)
      else if userID \<notin> user_ids d then (Inl fk_violation, d)
      else (Inr (), set_onetime_rows tab (onetime_rows tab d @
        [\<lparr>o_id = nid, o_user = userID, o_hash = hash, o_expires = expires, o_used = None,
          o_created = now\<rparr>]) d))"

definition OneTimeRepo_Create ::
    "onetime_table \<Rightarrow> uuid \<Rightarrow> string \<Rightarrow> time \<Rightarrow> ('r svc_world, unit) call" where
  "OneTimeRepo_Create tab userID hash expires = pg_stmt (insert_onetime tab userID hash expires)"

definition usable :: "string \<Rightarrow> time \<Rightarrow> onetime_row \<Rightarrow> bool" where
  "usable hash now r \<longleftrightarrow> o_hash r = hash \<and> o_used r = None \<and> now < o_expires r"

text \<open>
  \<open>UPDATE .. SET used_at = NOW() WHERE .. RETURNING user_id\<close>: every selected row is marked;
  \<open>QueryRow\<close> scans the first returned one.
\<close>

definition consume_onetime ::
    "onetime_table \<Rightarrow> string \<Rightarrow> time \<Rightarrow> uuid \<Rightarrow> tables \<Rightarrow> (err + uuid) \<times> tables" where
  "consume_onetime tab hash now nid d =
     (case find (usable hash now) (onetime_rows tab d) of
        None \<Rightarrow> Inl ErrTokenInvalid
      | Some r \<Rightarrow> Inr (o_user r),
      set_onetime_rows tab
        (map (\<lambda>r. if usable hash now r then r\<lparr>o_used := Some now\<rparr> else r) (onetime_rows tab d)) d)"

definition OneTimeRepo_Consume :: "onetime_table \<Rightarrow> string \<Rightarrow> ('r svc_world, uuid) call" where
  "OneTimeRepo_Consume tab hash = pg_stmt (consume_onetime tab hash)"

definition OneTimeRepo :: "onetime_table \<Rightarrow> 'r svc_world OneTimeTokenRepository" where
  "OneTimeRepo tab =
     \<lparr>OneTime_Create = OneTimeRepo_Create tab, OneTime_Consume = OneTimeRepo_Consume tab\<rparr>"

definition NewPasswordResetRepo :: "'r svc_world OneTimeTokenRepository" where
  "NewPasswordResetRepo = OneTimeRepo (the (newOneTimeRepo ''password_resets''))"

definition NewEmailVerificationRepo :: "'r svc_world OneTimeTokenRepository" where
  "NewEmailVerificationRepo = OneTimeRepo (the (newOneTimeRepo ''email_verifications''))"

lemma OneTimeRepo_simps [simp]:
  "OneTime_Create (OneTimeRepo tab) = OneTimeRepo_Create tab"
  "OneTime_Consume (OneTimeRepo tab) = OneTimeRepo_Consume tab"
  by (simp_all add: OneTimeRepo_def)

lemma New_onetime_simps [simp]:
  "NewPasswordResetRepo = OneTimeRepo PasswordResets"
  "NewEmailVerificationRepo = OneTimeRepo EmailVerifications"
  by (simp_all add: NewPasswordResetRepo_def NewEmailVerificationRepo_def newOneTimeRepo_def)

subsection \<open>Every statement is a step of the database\<close>

lemma onetime_rows_set [simp]: "onetime_rows tab (set_onetime_rows tab xs d) = xs"
  by (cases tab) auto

lemma user_ids_set_onetime [simp]: "user_ids (set_onetime_rows tab xs d) = user_ids d"
  by (cases tab) (auto simp: user_ids_def)

lemma evolves_set_onetime:
  "grows onetime_le (onetime_rows tab d) xs \<Longrightarrow> evolves d (set_onetime_rows tab xs d)"
  by (cases tab) (auto intro: evolves_one)

lemma evolves_onetime: "evolves d d' \<Longrightarrow> grows onetime_le (onetime_rows tab d) (onetime_rows tab d')"
  by (cases tab) (auto simp: evolves_def)

lemma schema_ok_rows: "schema_ok P d \<Longrightarrow> onetime_ok d (onetime_rows tab d)"
  by (cases tab) (auto simp: schema_ok_def)

lemma schema_ok_set_onetime:
  "schema_ok P d \<Longrightarrow> onetime_ok d xs \<Longrightarrow> schema_ok P (set_onetime_rows tab xs d)"
  by (cases tab) (auto simp: schema_ok_def user_ids_def live_users_def onetime_ok_def columns_ok_def)

lemma db_step_insert_onetime: "db_step P d (snd (insert_onetime tab u h e now nid d))"
proof -
  have "evolves d (snd (insert_onetime tab u h e now nid d))"
    by (auto simp: insert_onetime_def intro!: evolves_set_onetime grows_append)
  moreover have "schema_ok P (snd (insert_onetime tab u h e now nid d))" if "schema_ok P d"
    using that schema_ok_rows [OF that, of tab]
    by (auto simp: insert_onetime_def onetime_ok_def intro!: schema_ok_set_onetime)
  ultimately show ?thesis by (simp add: db_step_def)
qed

lemma db_step_consume_onetime: "db_step P d (snd (consume_onetime tab h now nid d))"
proof -
  let ?f = "\<lambda>r. if usable h now r then r\<lparr>o_used := Some now\<rparr> else r"
  have "evolves d (snd (consume_onetime tab h now nid d))"
    by (auto simp: consume_onetime_def onetime_le_def usable_def
        intro!: evolves_set_onetime grows_map)
  moreover have "onetime_ok d (map ?f xs) = onetime_ok d xs" for xs
    by (rule onetime_ok_map) simp_all
  then have "schema_ok P (snd (consume_onetime tab h now nid d))" if "schema_ok P d"
    using that schema_ok_rows [OF that, of tab]
    by (simp add: consume_onetime_def schema_ok_set_onetime)
  ultimately show ?thesis by (simp add: db_step_def)
qed

lemma OneTimeRepo_effect [keep_intros]:
  "effect (pg_rel (db_step P)) (OneTimeRepo_Create tab u h e)"
  "effect (pg_rel (db_step P)) (OneTimeRepo_Consume tab h)"
  unfolding OneTimeRepo_Create_def OneTimeRepo_Consume_def
  by (intro effect_pg_rel_stmt preorder_db_step db_step_insert_onetime db_step_consume_onetime)+

lemma OneTimeRepo_later [keep_intros]:
  "effect later (OneTimeRepo_Create tab u h e)" "effect later (OneTimeRepo_Consume tab h)"
  unfolding OneTimeRepo_Create_def OneTimeRepo_Consume_def by (intro keep_intros)+

subsection \<open>Consuming a token\<close>

lemma used_after_consume:
  assumes "r \<in> set xs" "usable h now r"
  shows "used_hash h (map (\<lambda>r. if usable h now r then r\<lparr>o_used := Some now\<rparr> else r) xs)"
  using assms
proof (induction xs)
  case (Cons x xs)
  then show ?case by (cases "x = r") (auto simp: used_hash_def usable_def)
qed simp

text \<open>A successful call finds a usable row, names its owner and leaves the hash used.\<close>

lemma Consume_Inr:
  assumes "run_state (OneTimeRepo_Consume tab h) w = (Inr u, w')"
  shows "\<exists>r \<in> set (onetime_rows tab (w_pg w)).
      usable h (w_clock (advance w)) r \<and> o_user r = u"
    and "used_hash h (onetime_rows tab (w_pg w'))"
    and "w' = (advance w)\<lparr>w_pg := snd (consume_onetime tab h (w_clock (advance w))
        (uuid_at (w_env w) (w_ticks w)) (w_pg w))\<rparr>"
proof -
  let ?now = "w_clock (advance w)"
  from pg_stmt_Inr [OF assms [unfolded OneTimeRepo_Consume_def]] obtain d where
    d: "consume_onetime tab h ?now (uuid_at (w_env w) (w_ticks w)) (w_pg w) = (Inr u, d)"
    and w': "w' = (advance w)\<lparr>w_pg := d\<rparr>" by blast
  then obtain r where r: "find (usable h ?now) (onetime_rows tab (w_pg w)) = Some r" "o_user r = u"
    by (auto simp: consume_onetime_def split: option.splits)
  then have in_set: "r \<in> set (onetime_rows tab (w_pg w))" "usable h ?now r"
    by (auto dest: find_SomeD)
  with r(2) show "\<exists>r \<in> set (onetime_rows tab (w_pg w)). usable h ?now r \<and> o_user r = u" by blast
  have "onetime_rows tab d =
      map (\<lambda>r. if usable h ?now r then r\<lparr>o_used := Some ?now\<rparr> else r) (onetime_rows tab (w_pg w))"
    using d by (auto simp: consume_onetime_def)
  with used_after_consume [OF in_set] w' show "used_hash h (onetime_rows tab (w_pg w'))" by simp
  show "w' = (advance w)\<lparr>w_pg := snd (consume_onetime tab h ?now
        (uuid_at (w_env w) (w_ticks w)) (w_pg w))\<rparr>"
    using w' d by simp
qed

text \<open>A used hash is never accepted.\<close>

lemma Consume_used:
  assumes "schema_ok P (w_pg w)" "used_hash h (onetime_rows tab (w_pg w))"
  shows "fst (run_state (OneTimeRepo_Consume tab h) w) \<noteq> Inr u"
proof
  assume a: "fst (run_state (OneTimeRepo_Consume tab h) w) = Inr u"
  then obtain w' where "run_state (OneTimeRepo_Consume tab h) w = (Inr u, w')"
    by (metis prod.collapse)
  from Consume_Inr(1) [OF this] obtain r where
    "r \<in> set (onetime_rows tab (w_pg w))" "o_hash r = h" "o_used r = None"
    by (auto simp: usable_def)
  with used_hash_not_live [OF schema_ok_rows [OF assms(1)] assms(2)] show False by blast
qed

subsection \<open>The contract of a one-time-token repository\<close>

text \<open>
  \<open>usable_by R w h u\<close>: the repository would let \<open>h\<close> act for \<open>u\<close>. \<open>later_state\<close>
  is any future of a state. The client's lemma: however the service goes on, a token that was
  consumed once is refused.
\<close>

locale single_use =
  fixes R :: "('d, 'r) world OneTimeTokenRepository"
    and inv :: "('d, 'r) world \<Rightarrow> bool"
    and later_state :: "('d, 'r) world \<Rightarrow> ('d, 'r) world \<Rightarrow> bool"
    and spent :: "('d, 'r) world \<Rightarrow> string \<Rightarrow> bool"
  assumes consume_spends: "inv w \<Longrightarrow> run_state (OneTime_Consume R h) w = (Inr u, w') \<Longrightarrow> spent w' h"
    and spent_later: "spent w h \<Longrightarrow> later_state w w' \<Longrightarrow> spent w' h"
    and spent_refused: "inv w \<Longrightarrow> spent w h \<Longrightarrow> fst (run_state (OneTime_Consume R h) w) \<noteq> Inr u"
begin

lemma consumed_once:
  assumes "inv w" "run_state (OneTime_Consume R h) w = (Inr u, w1)" "later_state w1 w2" "inv w2"
  shows "fst (run_state (OneTime_Consume R h) w2) \<noteq> Inr v"
  using consume_spends [OF assms(1,2)] spent_later [OF _ assms(3)] spent_refused [OF assms(4)]
  by blast

end

lemma single_use_repo:
  "single_use (OneTimeRepo tab) (\<lambda>w. schema_ok P (w_pg w)) (pg_rel evolves)
     (\<lambda>w h. used_hash h (onetime_rows tab (w_pg w)))"
proof
  fix h w u w'
  assume "run_state (OneTime_Consume (OneTimeRepo tab) h) w = (Inr u, w')"
  then show "used_hash h (onetime_rows tab (w_pg w'))" by (simp add: Consume_Inr(2))
next
  fix w :: "'a svc_world" and h w'
  assume "used_hash h (onetime_rows tab (w_pg w))" "pg_rel evolves w w'"
  then show "used_hash h (onetime_rows tab (w_pg w'))"
    unfolding pg_rel_def by (blast intro: used_hash_grows evolves_onetime)
next
  fix w :: "'a svc_world" and h u
  assume "schema_ok P (w_pg w)" "used_hash h (onetime_rows tab (w_pg w))"
  then show "fst (run_state (OneTime_Consume (OneTimeRepo tab) h) w) \<noteq> Inr u"
    by (simp add: Consume_used)
qed

interpretation resets: single_use NewPasswordResetRepo "\<lambda>w. schema_ok P (w_pg w)"
    "pg_rel evolves" "\<lambda>w h. used_hash h (tb_resets (w_pg w))" for P
  using single_use_repo [of PasswordResets P] by simp

interpretation verify: single_use NewEmailVerificationRepo "\<lambda>w. schema_ok P (w_pg w)"
    "pg_rel evolves" "\<lambda>w h. used_hash h (tb_verify (w_pg w))" for P
  using single_use_repo [of EmailVerifications P] by simp

subsection \<open>The audit log\<close>

text \<open>
  \<open>NULLIF(x, '')\<close> and the cast to \<open>inet\<close>: an address or a text value the server does not
  accept makes the statement fail.
\<close>

definition nullif_empty :: "string \<Rightarrow> string option" where
  "nullif_empty s = (if s = [] then None else Some s)"

definition insert_audit ::
    "pg_lib \<Rightarrow> AuditEntry \<Rightarrow> time \<Rightarrow> uuid \<Rightarrow> tables \<Rightarrow> (err + unit) \<times> tables" where
  "insert_audit P e now nid d =
     (if \<not> text_ok P (audit_Action e) \<or> \<not> text_ok P (audit_IPAddress e) \<or> \<not> text_ok P (audit_UserAgent e)
      then (Inl bad_text, d)
      else if \<not> varchar 100 (audit_Action e) then (Inl too_long, d)
      else if audit_IPAddress e \<noteq> [] \<and> \<not> inet_ok P (audit_IPAddress e)
      then (Inl (PgError ''22P02''), d)
      else if nid \<in> a_id ` set (tb_audit d) then (Inl unique_violation, d)
      else if (case audit_UserID e of None \<Rightarrow> False | Some u \<Rightarrow> u \<notin> user_ids d)
      then (Inl fk_violation, d)
      else (Inr (), d\<lparr>tb_audit := tb_audit d @
        [\<lparr>a_id = nid, a_user = audit_UserID e, a_action = audit_Action e,
          a_ip = nullif_empty (audit_IPAddress e), a_ua = nullif_empty (audit_UserAgent e),
          a_metadata = (case audit_Metadata e of None \<Rightarrow> ''{}'' | Some m \<Rightarrow> m),
          a_created = now\<rparr>]\<rparr>))"

definition AuditRepo_Log :: "pg_lib \<Rightarrow> AuditEntry \<Rightarrow> ('r svc_world, unit) call" where
  "AuditRepo_Log P entry = pg_stmt (insert_audit P entry)"

definition AuditRepo :: "pg_lib \<Rightarrow> 'r svc_world AuditRepository" where
  "AuditRepo P = \<lparr>Audit_Log = AuditRepo_Log P\<rparr>"

lemma AuditRepo_simps [simp]: "Audit_Log (AuditRepo P) = AuditRepo_Log P"
  by (simp add: AuditRepo_def)

lemma db_step_insert_audit: "db_step P d (snd (insert_audit P' e now nid d))"
proof -
  have "evolves d (snd (insert_audit P' e now nid d))"
    by (auto simp: insert_audit_def intro!: evolves_one grows_append)
  moreover have "schema_ok P d \<longrightarrow> schema_ok P (snd (insert_audit P' e now nid d))"
    by (auto simp: insert_audit_def schema_ok_def user_ids_def live_users_def onetime_ok_def columns_ok_def
        split: option.splits)
  ultimately show ?thesis by (simp add: db_step_def)
qed

lemma AuditRepo_effect [keep_intros]: "effect (pg_rel (db_step P)) (AuditRepo_Log P' e)"
  unfolding AuditRepo_Log_def
  by (intro effect_pg_rel_stmt preorder_db_step db_step_insert_audit)

lemma AuditRepo_later [keep_intros]: "effect later (AuditRepo_Log P' e)"
  unfolding AuditRepo_Log_def by (intro keep_intros)

text \<open>The log only touches the log: a failing statement leaves the tables alone, the other one adds a row.\<close>

lemma insert_audit_rule:
  assumes "Q d" "\<And>m. Q (d\<lparr>tb_audit := tb_audit d @
    [\<lparr>a_id = nid, a_user = audit_UserID e, a_action = audit_Action e, a_ip = nullif_empty (audit_IPAddress e),
      a_ua = nullif_empty (audit_UserAgent e), a_metadata = m, a_created = now\<rparr>]\<rparr>)"
  shows "Q (snd (insert_audit P e now nid d))"
proof -
  have guards: "Q (snd (if b1 then (r1, d) else if b2 then (r2, d) else if b3 then (r3, d) else if b4 then (r4, d)
      else if b5 then (r5, d) else (r6, d')))"
    if "Q d'" for b1 b2 b3 b4 b5 and r1 r2 r3 r4 r5 r6 :: "err + unit" and d'
    using that assms(1) by simp
  show ?thesis unfolding insert_audit_def by (rule guards [OF assms(2)])
qed

lemma AuditRepo_tables:
  "\<exists>as. w_pg (snd (run_state (AuditRepo_Log P e) w)) = (w_pg w)\<lparr>tb_audit := as\<rparr>"
proof -
  have s: "\<exists>as. snd (insert_audit P e now nid d) = d\<lparr>tb_audit := as\<rparr>" for now nid d
    by (rule insert_audit_rule) (rule exI [of _ "tb_audit d"], simp, blast)
  have n: "\<exists>as. w_pg w = (w_pg w)\<lparr>tb_audit := as\<rparr>" by (intro exI [of _ "tb_audit (w_pg w)"]) simp
  show ?thesis
    using n s [of "w_clock (advance w)" "uuid_at (w_env w) (w_ticks w)" "w_pg w"]
    by (auto simp: AuditRepo_Log_def run_pg_stmt Let_def split: prod.splits fate.splits)
qed

end
