(* ===== verification/UserRepo.thy ===== *)
theory UserRepo
  imports Tables
begin

text \<open>
  \<open>internal/repository/postgres/user.go\<close>: accounts, their roles and their profile.
  \<open>CreateWithRole\<close> is a transaction: its statements work on a snapshot that reaches the
  tables only at the commit, so an early return (and the deferred rollback) leaves them as they
  were. The lemmas give the result of each method on every branch, and that every method is a step
  of the database.
\<close>

subsection \<open>Transactions\<close>

type_synonym tx = "time \<times> tables"
  \<comment> \<open>the transaction's \<open>NOW()\<close> and its view of the tables\<close>

definition pg_begin :: "('r svc_world, tx) call" where
  "pg_begin = pg_query (\<lambda>now d. Inr (now, d))"

definition tx_stmt ::
    "(time \<Rightarrow> uuid \<Rightarrow> tables \<Rightarrow> (err + 'a) \<times> tables) \<Rightarrow> tx \<Rightarrow> ('r svc_world, 'a \<times> tx) call" where
  "tx_stmt f tx = State (\<lambda>w.
     (case fate_at (w_env w) (w_ticks w) of
        Done \<Rightarrow> (case f (fst tx) (uuid_at (w_env w) (w_ticks w)) (snd tx) of
                   (Inl e, _) \<Rightarrow> Inl e
                 | (Inr x, d) \<Rightarrow> Inr (x, (fst tx, d)))
      | FailBefore m \<Rightarrow> Inl (ErrOther m)
      | FailAfter m \<Rightarrow> Inl (ErrOther m), advance w))"

definition pg_commit :: "tx \<Rightarrow> ('r svc_world, unit) call" where
  "pg_commit tx = pg_stmt (\<lambda>_ _ _. (Inr (), snd tx))"

subsection \<open>The repository\<close>

definition row_user :: "user_row \<Rightarrow> User" where
  "row_user r = \<lparr>user_ID = u_id r, user_Email = u_email r, user_PasswordHash = u_hash r,
     user_EmailVerified = u_verified r, user_IsActive = u_active r,
     user_CreatedAt = u_created r, user_UpdatedAt = u_updated r\<rparr>"

definition isUniqueViolation :: "err \<Rightarrow> bool" where
  "isUniqueViolation e \<longleftrightarrow> e = PgError ''23505''"

definition insert_user ::
    "pg_lib \<Rightarrow> string \<Rightarrow> string \<Rightarrow> time \<Rightarrow> uuid \<Rightarrow> tables \<Rightarrow> (err + User) \<times> tables" where
  "insert_user P email hash now nid d =
     (let row = \<lparr>u_id = nid, u_email = sql_LOWER P email, u_hash = hash, u_verified = False,
          u_active = True, u_created = now, u_updated = now, u_deleted = None\<rparr>
      in if \<not> text_ok P email then (Inl bad_text, d)
         else if \<not> varchar 255 (u_email row) \<or> \<not> varchar 255 hash then (Inl too_long, d)
         else if nid \<in> user_ids d \<or>
           sql_LOWER P (u_email row) \<in> (\<lambda>u. sql_LOWER P (u_email u)) ` set (live_users d)
         then (Inl unique_violation, d)
         else (Inr (row_user row), d\<lparr>tb_users := tb_users d @ [row]\<rparr>))"

text \<open>\<open>INSERT .. SELECT $1, id FROM roles WHERE name = $2\<close>: one row for each such role.\<close>

definition insert_role ::
    "uuid \<Rightarrow> string \<Rightarrow> time \<Rightarrow> uuid \<Rightarrow> tables \<Rightarrow> (err + unit) \<times> tables" where
  "insert_role userID roleName now nid d =
     (let new = map (\<lambda>r. (userID, fst r)) (filter (\<lambda>r. snd r = roleName) (tb_roles d))
      in if set new \<inter> set (tb_user_roles d) \<noteq> {} \<or> \<not> distinct new
         then (Inl unique_violation, d)
         else if new \<noteq> [] \<and> userID \<notin> user_ids d then (Inl fk_violation, d)
         else (Inr (), d\<lparr>tb_user_roles := tb_user_roles d @ new\<rparr>))"

definition UserRepo_CreateWithRole ::
    "pg_lib \<Rightarrow> string \<Rightarrow> string \<Rightarrow> string \<Rightarrow> ('r svc_world, User) call" where
  "UserRepo_CreateWithRole P email passwordHash roleName =
     or_return pg_begin (\<lambda>tx. do {
       r \<leftarrow> tx_stmt (insert_user P email passwordHash) tx;
       (case r of
          Inl e \<Rightarrow> fail (if isUniqueViolation e then ErrConflict else e)
        | Inr (u, tx1) \<Rightarrow>
            or_return (tx_stmt (insert_role (user_ID u) roleName) tx1) (\<lambda>(_, tx2).
            or_return (pg_commit tx2) (\<lambda>_. ok u))) })"

definition by_email :: "pg_lib \<Rightarrow> string \<Rightarrow> user_row \<Rightarrow> bool" where
  "by_email P email u \<longleftrightarrow> sql_LOWER P (u_email u) = sql_LOWER P email \<and> u_deleted u = None"

definition UserRepo_scanOne ::
    "(tables \<Rightarrow> err + user_row list) \<Rightarrow> ('r svc_world, User) call" where
  "UserRepo_scanOne q = pg_query (\<lambda>now d.
     case q d of Inl e \<Rightarrow> Inl e | Inr [] \<Rightarrow> Inl ErrNotFound | Inr (r # _) \<Rightarrow> Inr (row_user r))"

definition UserRepo_GetByEmail :: "pg_lib \<Rightarrow> string \<Rightarrow> ('r svc_world, User) call" where
  "UserRepo_GetByEmail P email =
     UserRepo_scanOne (\<lambda>d. if text_ok P email then Inr (filter (by_email P email) (tb_users d)) else Inl bad_text)"

text \<open>An update of the live row with this id; no affected row is \<open>ErrNotFound\<close>.\<close>

definition live_id :: "uuid \<Rightarrow> user_row \<Rightarrow> bool" where
  "live_id userID u \<longleftrightarrow> u_id u = userID \<and> u_deleted u = None"

definition update_user ::
    "uuid \<Rightarrow> (time \<Rightarrow> user_row \<Rightarrow> user_row) \<Rightarrow> time \<Rightarrow> uuid \<Rightarrow> tables \<Rightarrow> (err + nat) \<times> tables" where
  "update_user userID f now nid d =
     (Inr (length (filter (live_id userID) (tb_users d))),
      d\<lparr>tb_users := map (\<lambda>u. if live_id userID u then f now u else u) (tb_users d)\<rparr>)"

definition update_password ::
    "uuid \<Rightarrow> string \<Rightarrow> time \<Rightarrow> uuid \<Rightarrow> tables \<Rightarrow> (err + nat) \<times> tables" where
  "update_password userID passwordHash now nid d =
     (if varchar 255 passwordHash
      then update_user userID (\<lambda>now u. u\<lparr>u_hash := passwordHash, u_updated := now\<rparr>) now nid d
      else (Inl too_long, d))"

definition UserRepo_UpdatePassword :: "uuid \<Rightarrow> string \<Rightarrow> ('r svc_world, unit) call" where
  "UserRepo_UpdatePassword userID passwordHash =
     or_return (pg_stmt (update_password userID passwordHash)) (\<lambda>n.
     guard_err (n = 0) ErrNotFound (ok ()))"

definition UserRepo_MarkEmailVerified :: "uuid \<Rightarrow> ('r svc_world, unit) call" where
  "UserRepo_MarkEmailVerified userID =
     or_return (pg_stmt (update_user userID
         (\<lambda>now u. u\<lparr>u_verified := True, u_updated := now\<rparr>))) (\<lambda>n.
     guard_err (n = 0) ErrNotFound (ok ()))"

text \<open>The roles and permissions the left joins of \<open>GetAuthProfile\<close> reach.\<close>

definition roles_of :: "uuid \<Rightarrow> tables \<Rightarrow> (uuid \<times> string) list" where
  "roles_of userID d = filter (\<lambda>r. (userID, fst r) \<in> set (tb_user_roles d)) (tb_roles d)"

definition permissions_of :: "uuid \<Rightarrow> tables \<Rightarrow> string list" where
  "permissions_of userID d =
     concat (map (\<lambda>r. map snd (filter (\<lambda>p. (fst r, fst p) \<in> set (tb_role_permissions d))
       (tb_permissions d))) (roles_of userID d))"

definition UserRepo_GetAuthProfile :: "pg_lib \<Rightarrow> uuid \<Rightarrow> ('r svc_world, AuthProfile) call" where
  "UserRepo_GetAuthProfile P userID = pg_query (\<lambda>now d.
     case filter (live_id userID) (tb_users d) of
       [] \<Rightarrow> Inl ErrNotFound
     | u # _ \<Rightarrow> Inr \<lparr>prof_UserID = u_id u, prof_Email = u_email u,
         prof_Roles = agg_DISTINCT P (map snd (roles_of userID d)),
         prof_Permissions = agg_DISTINCT P (permissions_of userID d)\<rparr>)"

definition UserRepo :: "pg_lib \<Rightarrow> 'r svc_world UserRepository" where
  "UserRepo P = \<lparr>CreateWithRole = UserRepo_CreateWithRole P, GetByEmail = UserRepo_GetByEmail P,
     UpdatePassword = UserRepo_UpdatePassword, MarkEmailVerified = UserRepo_MarkEmailVerified,
     GetAuthProfile = UserRepo_GetAuthProfile P\<rparr>"

lemma UserRepo_simps [simp]:
  "CreateWithRole (UserRepo P) = UserRepo_CreateWithRole P"
  "GetByEmail (UserRepo P) = UserRepo_GetByEmail P"
  "UpdatePassword (UserRepo P) = UserRepo_UpdatePassword"
  "MarkEmailVerified (UserRepo P) = UserRepo_MarkEmailVerified"
  "GetAuthProfile (UserRepo P) = UserRepo_GetAuthProfile P"
  by (simp_all add: UserRepo_def)

subsection \<open>Steps of the database\<close>

lemma live_users_append [simp]:
  "live_users (d\<lparr>tb_users := tb_users d @ [row]\<rparr>) =
     live_users d @ (if u_deleted row = None then [row] else [])"
  by (simp add: live_users_def)

lemma db_step_insert_user: "db_step P d (snd (insert_user P email hash now nid d))"
proof -
  have "evolves d (snd (insert_user P email hash now nid d))"
    by (auto simp: insert_user_def Let_def intro!: evolves_one grows_append)
  moreover have "schema_ok P d \<longrightarrow> schema_ok P (snd (insert_user P email hash now nid d))"
    by (auto simp: insert_user_def Let_def schema_ok_def onetime_ok_def user_ids_def links_ok_def columns_ok_def)
  ultimately show ?thesis by (simp add: db_step_def)
qed

lemma db_step_insert_role: "db_step P d (snd (insert_role u role now nid d))"
proof -
  have "evolves d (snd (insert_role u role now nid d))"
    by (auto simp: insert_role_def Let_def intro!: evolves_one grows_append)
  moreover have "schema_ok P (snd (insert_role u role now nid d))" if "schema_ok P d"
    using that
    by (auto simp: insert_role_def Let_def schema_ok_def onetime_ok_def user_ids_def live_users_def
        links_ok_def columns_ok_def filter_empty_conv)
  ultimately show ?thesis by (simp add: db_step_def)
qed

lemma db_step_update_user:
  assumes "\<And>now u. user_le u (f now u)" "\<And>now u. varchar 255 (u_hash u) \<Longrightarrow> varchar 255 (u_hash (f now u))"
  shows "db_step P d (snd (update_user userID f now nid d))"
proof -
  let ?g = "\<lambda>u. if live_id userID u then f now u else u"
  have g: "user_le u (?g u)" for u using assms [of u now] by simp
  then have "evolves d (snd (update_user userID f now nid d))"
    by (auto simp: update_user_def intro!: evolves_one grows_map)
  moreover have "schema_ok P (d\<lparr>tb_users := map ?g (tb_users d)\<rparr>)" if "schema_ok P d"
    using g assms(2) [of _ now] by (intro schema_ok_map_users that) (simp_all add: user_le_def)
  ultimately show ?thesis by (simp add: db_step_def update_user_def)
qed

lemma db_step_update_password: "db_step P d (snd (update_password userID h now nid d))"
proof (cases "varchar 255 h")
  case True
  have "db_step P d (snd (update_user userID (\<lambda>now u. u\<lparr>u_hash := h, u_updated := now\<rparr>) now nid d))"
    by (rule db_step_update_user) (simp_all add: user_le_def True)
  then show ?thesis by (simp add: update_password_def True)
qed (simp add: update_password_def)

lemma run_tx_stmt: "snd (run_state (tx_stmt f tx) w) = advance w"
  by (simp add: tx_stmt_def)

lemma tx_stmt_Inr:
  "run_state (tx_stmt f tx) w = (Inr (x, tx'), w') \<Longrightarrow>
     w' = advance w \<and> fst tx' = fst tx \<and>
     f (fst tx) (uuid_at (w_env w) (w_ticks w)) (snd tx) = (Inr x, snd tx')"
  by (auto simp: tx_stmt_def split: fate.splits prod.splits sum.splits)

lemma tx_stmt_Inl:
  "run_state (tx_stmt f tx) w = (Inl e, w') \<Longrightarrow> w' = advance w"
  by (auto simp: tx_stmt_def)

lemma pg_begin_Inr:
  "run_state pg_begin w = (Inr tx, w') \<Longrightarrow>
     w' = advance w \<and> tx = (w_clock (advance w), w_pg w)"
  unfolding pg_begin_def using pg_query_Inr by fastforce

lemma pg_begin_world: "snd (run_state pg_begin w) = advance w"
  by (simp add: pg_begin_def pg_query_world)

text \<open>
  The transaction as a whole: either nothing happened to the tables, or both inserts did. A
  commit whose answer is lost may have taken effect.
\<close>

definition both_inserts ::
    "pg_lib \<Rightarrow> string \<Rightarrow> string \<Rightarrow> string \<Rightarrow> tables \<Rightarrow> User \<Rightarrow> tables \<Rightarrow> bool" where
  "both_inserts P email hash role d u d2 \<longleftrightarrow> (\<exists>now nid nid' d1.
     insert_user P email hash now nid d = (Inr u, d1) \<and>
     insert_role (user_ID u) role now nid' d1 = (Inr (), d2))"

lemma CreateWithRole_cases:
  assumes "run_state (UserRepo_CreateWithRole P email hash role) w = (res, w')"
  shows "(\<exists>e. res = Inl e \<and> w_pg w' = w_pg w) \<or>
    (\<exists>u. both_inserts P email hash role (w_pg w) u (w_pg w') \<and> (res = Inr u \<or> (\<exists>m. res = Inl (ErrOther m))))"
proof -
  obtain b w1 where b: "run_state pg_begin w = (b, w1)" by fastforce
  have w1: "w1 = advance w" using pg_begin_world [of w] b by simp
  show ?thesis
  proof (cases b)
    case (Inl e)
    then show ?thesis using assms b w1
      by (auto simp: UserRepo_CreateWithRole_def run_or_return_Inl [OF b [unfolded Inl]])
  next
    case (Inr tx)
    with b w1 have tx: "tx = (w_clock (advance w), w_pg w)" by (auto dest: pg_begin_Inr)
    obtain r w2 where r: "run_state (tx_stmt (insert_user P email hash) tx) w1 = (r, w2)" by fastforce
    have w2: "w2 = advance w1" using run_tx_stmt [of "insert_user P email hash" tx w1] r by simp
    show ?thesis
    proof (cases r)
      case (Inl e)
      then show ?thesis using assms b Inr r w1 w2
        by (auto simp: UserRepo_CreateWithRole_def run_simps)
    next
      case (Inr p)
      obtain u tx1 where p: "p = (u, tx1)" by (cases p)
      have ins: "insert_user P email hash (fst tx) (uuid_at (w_env w1) (w_ticks w1)) (snd tx)
          = (Inr u, snd tx1)" "fst tx1 = fst tx"
        using tx_stmt_Inr [OF r [unfolded Inr p]] by simp_all
      obtain q w3 where q: "run_state (tx_stmt (insert_role (user_ID u) role) tx1) w2 = (q, w3)"
        by fastforce
      have w3: "w3 = advance w2"
        using run_tx_stmt [of "insert_role (user_ID u) role" tx1 w2] q by simp
      show ?thesis
      proof (cases q)
        case (Inl e)
        then show ?thesis using assms b \<open>b = Inr tx\<close> r Inr p q w1 w2 w3
          by (auto simp: UserRepo_CreateWithRole_def run_simps)
      next
        case (Inr q')
        obtain tx2 where q': "q' = ((), tx2)" by (metis surj_pair unit.exhaust)
        have "insert_role (user_ID u) role (fst tx1) (uuid_at (w_env w2) (w_ticks w2)) (snd tx1)
            = (Inr (), snd tx2)"
          using tx_stmt_Inr [OF q [unfolded Inr q']] by simp
        with ins tx have both: "both_inserts P email hash role (w_pg w) u (snd tx2)"
          unfolding both_inserts_def by fastforce
        have run: "run_state (UserRepo_CreateWithRole P email hash role) w =
            run_state (or_return (pg_commit tx2) (\<lambda>_. ok u)) w3"
          using b \<open>b = Inr tx\<close> r \<open>r = Inr p\<close> p q Inr q'
          by (simp add: UserRepo_CreateWithRole_def run_simps)
        show ?thesis using assms both w1 w2 w3 unfolding run
          by (auto simp: run_or_return pg_commit_def run_pg_stmt Let_def run_ok split: fate.splits)
      qed
    qed
  qed
qed

lemma db_step_both_inserts: "both_inserts P email hash role d u d2 \<Longrightarrow> db_step P d d2"
proof -
  assume "both_inserts P email hash role d u d2"
  then obtain now nid nid' d1 where
    1: "insert_user P email hash now nid d = (Inr u, d1)" and
    2: "insert_role (user_ID u) role now nid' d1 = (Inr (), d2)"
    unfolding both_inserts_def by blast
  have "db_step P d d1" using db_step_insert_user [of P d email hash now nid] 1 by simp
  moreover have "db_step P d1 d2" using db_step_insert_role [of P d1 "user_ID u" role now nid'] 2 by simp
  ultimately show ?thesis using preorder_db_step [of P] unfolding preorder_rel_def by blast
qed

lemma CreateWithRole_effect [keep_intros]:
  fixes P :: pg_lib
  shows "effect (pg_rel (db_step P)) (UserRepo_CreateWithRole P email hash role :: ('r svc_world, User) call)"
  unfolding effect_def pg_rel_def
proof
  fix w :: "'r svc_world"
  obtain res w' where r: "run_state (UserRepo_CreateWithRole P email hash role) w = (res, w')"
    by fastforce
  from CreateWithRole_cases [OF r] have "db_step P (w_pg w) (w_pg w')"
    by (auto dest: db_step_both_inserts)
  with r show "db_step P (w_pg w)
      (w_pg (snd (run_state (UserRepo_CreateWithRole P email hash role) w)))" by simp
qed

lemma UserRepo_effect [keep_intros]:
  "effect (pg_rel (db_step P)) (UserRepo_GetByEmail P email)"
  "effect (pg_rel (db_step P)) (UserRepo_UpdatePassword u hash)"
  "effect (pg_rel (db_step P)) (UserRepo_MarkEmailVerified u)"
  "effect (pg_rel (db_step P)) (UserRepo_GetAuthProfile P u)"
  unfolding UserRepo_GetByEmail_def UserRepo_scanOne_def UserRepo_UpdatePassword_def
    UserRepo_MarkEmailVerified_def UserRepo_GetAuthProfile_def
  by (intro keep_intros effect_pg_rel_stmt preorder_db_step preorder_pg_rel db_step_update_user
      db_step_update_password; simp add: user_le_def)+

lemma tx_stmt_later [keep_intros]: "effect later (tx_stmt f t)"
  by (simp add: effect_def run_tx_stmt)

lemma UserRepo_later [keep_intros]:
  "effect later (UserRepo_CreateWithRole P email hash role)"
  "effect later (UserRepo_GetByEmail P email)" "effect later (UserRepo_UpdatePassword u hash)"
  "effect later (UserRepo_MarkEmailVerified u)" "effect later (UserRepo_GetAuthProfile P u)"
  unfolding UserRepo_CreateWithRole_def pg_begin_def pg_commit_def UserRepo_GetByEmail_def
    UserRepo_scanOne_def UserRepo_UpdatePassword_def UserRepo_MarkEmailVerified_def
    UserRepo_GetAuthProfile_def
  by (intro keep_intros preorder_later)+

end
