(* ===== verification/Wiring.thy ===== *)
theory Wiring
  imports Usecase RefreshRepo OneTimeRepo UserRepo RedisContracts
begin

text \<open>
  The auth service as \<open>internal/app/app.go\<close> wires it: Postgres repositories, Redis stores, and
  the Resend mailer only when email is enabled. The first facts about it: every operation is a
  step of the database (\<open>wired_db_step\<close>) and moves the clock only forward
  (\<open>wired_later\<close>), whatever fails on the way.
\<close>

definition app_mailer :: "Config \<Rightarrow> ('d, 'r) world Mailer option" where
  "app_mailer cfg =
     (if email_Enabled (cfg_Email cfg) then Some (resend_Mailer (email_From (cfg_Email cfg))) else None)"

definition app_auth ::
    "libs \<Rightarrow> pg_lib \<Rightarrow> 'r Client \<Rightarrow> (sessionDTO \<Rightarrow> err + string) \<Rightarrow> Config \<Rightarrow>
     'r svc_world AuthService" where
  "app_auth L P c M cfg = NewAuthService cfg (jwt_NewService (cfg_JWT cfg))
     \<lparr>repos_Users = UserRepo P, repos_Refresh = RefreshRepo, repos_Resets = NewPasswordResetRepo,
      repos_Verify = NewEmailVerificationRepo, repos_Audit = AuditRepo P\<rparr>
     \<lparr>infra_Sessions = RedisSessionStore c (lib_V L) M, infra_Blacklist = RedisBlacklist c,
      infra_Lockout = RedisLockout c, infra_Mailer = app_mailer cfg,
      infra_EmailLimit = RedisRateLimiter c\<rparr>"

lemma app_auth_simps [simp]:
  "svc_cfg (app_auth L P c M cfg) = cfg" "svc_jwt (app_auth L P c M cfg) = jwt_NewService (cfg_JWT cfg)"
  "svc_users (app_auth L P c M cfg) = UserRepo P" "svc_refresh (app_auth L P c M cfg) = RefreshRepo"
  "svc_resets (app_auth L P c M cfg) = OneTimeRepo PasswordResets"
  "svc_verify (app_auth L P c M cfg) = OneTimeRepo EmailVerifications"
  "svc_audit (app_auth L P c M cfg) = AuditRepo P"
  "svc_sessions (app_auth L P c M cfg) = RedisSessionStore c (lib_V L) M"
  "svc_blacklist (app_auth L P c M cfg) = RedisBlacklist c"
  "svc_lockout (app_auth L P c M cfg) = RedisLockout c"
  "svc_mailer (app_auth L P c M cfg) = app_mailer cfg"
  "svc_emailLimit (app_auth L P c M cfg) = RedisRateLimiter c"
  by (simp_all add: app_auth_def NewAuthService_def)

lemmas usecase_defs = Register_def Login_def Refresh_def Logout_def LogoutAll_def ForgotPassword_def
  ResetPassword_def VerifyEmail_def GetProfile_def ParseAccess_def

lemmas helper_defs = logAudit_def failLogin_def revokeAllSessions_def issueOneTime_def issueTokens_def
  consumeEmailQuota_def sendTransactional_def sendActionEmail_def require_input_def app_mailer_def

subsection \<open>Frames of the wired service\<close>

lemma wired_helpers_db_step [keep_intros]:
  fixes L P c M cfg
  defines "s \<equiv> app_auth L P c M cfg"
  shows "effect (pg_rel (db_step P)) (logAudit L s u a ip ua m)"
    "effect (pg_rel (db_step P)) (failLogin L s email ip ua)"
    "effect (pg_rel (db_step P)) (revokeAllSessions s uid)"
    "effect (pg_rel (db_step P)) (issueOneTime L (OneTimeRepo tab) uid ttl)"
    "effect (pg_rel (db_step P)) (issueTokens L s uid sid fid)"
    "effect (pg_rel (db_step P)) (consumeEmailQuota L s email)"
    "effect (pg_rel (db_step P)) (sendActionEmail L s email raw kind)"
    "effect (pg_rel (db_step P)) (require_input L fs)"
  unfolding s_def helper_defs app_auth_simps UserRepo_simps RefreshRepo_simps OneTimeRepo_simps
    AuditRepo_simps redis_store_simps Let_def if_distrib option.case
  by (auto intro!: keep_intros split: option.splits)

lemma wired_helpers_later [keep_intros]:
  fixes L P c M cfg
  defines "s \<equiv> app_auth L P c M cfg"
  shows "effect later (logAudit L s u a ip ua m)" "effect later (failLogin L s email ip ua)"
    "effect later (revokeAllSessions s uid)" "effect later (issueOneTime L (OneTimeRepo tab) uid ttl)"
    "effect later (issueTokens L s uid sid fid)" "effect later (consumeEmailQuota L s email)"
    "effect later (sendActionEmail L s email raw kind)" "effect later (require_input L fs)"
  unfolding s_def helper_defs app_auth_simps UserRepo_simps RefreshRepo_simps OneTimeRepo_simps
    AuditRepo_simps redis_store_simps Let_def if_distrib option.case
  by (auto intro!: keep_intros split: option.splits)

lemmas wired_simps = app_auth_simps UserRepo_simps RefreshRepo_simps OneTimeRepo_simps
  AuditRepo_simps redis_store_simps

lemma wired_db_step [keep_intros]:
  fixes L P c M cfg
  defines "s \<equiv> app_auth L P c M cfg"
  shows "effect (pg_rel (db_step P)) (Register L s ri ip ua)"
    "effect (pg_rel (db_step P)) (Login L s li ip ua)"
    "effect (pg_rel (db_step P)) (Refresh L s raw ip ua)"
    "effect (pg_rel (db_step P)) (Logout L s uid sid jti exp raw ip ua)"
    "effect (pg_rel (db_step P)) (LogoutAll L s uid)"
    "effect (pg_rel (db_step P)) (ForgotPassword L s fi)"
    "effect (pg_rel (db_step P)) (ResetPassword L s pi)"
    "effect (pg_rel (db_step P)) (VerifyEmail L s ti)"
    "effect (pg_rel (db_step P)) (GetProfile s uid)"
    "effect (pg_rel (db_step P)) (ParseAccess L s raw)"
  unfolding s_def usecase_defs wired_simps Let_def
  by (auto intro!: keep_intros preorder_pg_rel preorder_db_step split: sum.splits option.splits)

lemma wired_later [keep_intros]:
  fixes L P c M cfg
  defines "s \<equiv> app_auth L P c M cfg"
  shows "effect later (Register L s ri ip ua)" "effect later (Login L s li ip ua)"
    "effect later (Refresh L s raw ip ua)" "effect later (Logout L s uid sid jti exp raw ip ua)"
    "effect later (LogoutAll L s uid)" "effect later (ForgotPassword L s fi)"
    "effect later (ResetPassword L s pi)" "effect later (VerifyEmail L s ti)"
    "effect later (GetProfile s uid)" "effect later (ParseAccess L s raw)"
  unfolding s_def usecase_defs wired_simps Let_def
  by (auto intro!: keep_intros split: sum.splits option.splits)

end
