(* ===== verification/Stack.thy ===== *)
theory Stack
  imports Middleware
begin

text \<open>
  \<open>internal/middleware/recovery.go\<close>, \<open>logging.go\<close> and \<open>stack.go\<close>: what surrounds every handler. Here a
  handler may panic: it returns an \<open>outcome\<close> with the value it panicked with, if it did, and the
  remote address that its request holds at the end, because chi's \<open>RealIP\<close> overwrites that field in
  the request \<open>Logging\<close> reads afterwards. zap and \<open>debug.Stack\<close> are the parameter \<open>zap_lib\<close>; a log
  line is its message and its fields.
\<close>

datatype field = FString string | FInt int | FDuration duration | FAny string | FError err

record 'w zap_lib =
  zap_Info :: "string \<Rightarrow> (string \<times> field) list \<Rightarrow> ('w, unit) state"
  zap_Error :: "string \<Rightarrow> (string \<times> field) list \<Rightarrow> ('w, unit) state"
  debug_Stack :: "('w, string) state"

record outcome =
  out_remote :: string
  out_panic :: "string option"

type_synonym 'w phandler = "request \<Rightarrow> ('w, outcome) http"

text \<open>A handler that does not panic.\<close>

definition calm :: "'w handler \<Rightarrow> 'w phandler" where
  "calm h r = do { h r; State_Monad.return \<lparr>out_remote = req_remote r, out_panic = None\<rparr> }"

definition response_so_far :: "('w, response) http" where
  "response_so_far = State (\<lambda>(w, p). (p, (w, p)))"

subsection \<open>recovery.go\<close>

text \<open>\<open>http.Error\<close>: the body is plain text, whatever it holds.\<close>

definition http_Error :: "string \<Rightarrow> int \<Rightarrow> ('w, unit) http" where
  "http_Error msg code = do {
     respond (\<lambda>p. if resp_status p = None
       then p\<lparr>resp_header := filter (\<lambda>h. fst h \<noteq> ''Content-Length'') (resp_header p)\<rparr> else p);
     header_Set ''Content-Type'' ''text/plain; charset=utf-8'';
     header_Set ''X-Content-Type-Options'' ''nosniff'';
     WriteHeader code;
     write_body (msg @ [CHR 0x0A]) }"

definition panic_body :: string where
  "panic_body = ''{'' @ [CHR 0x22] @ ''error'' @ [CHR 0x22] @ '':'' @ [CHR 0x22] @
     ''internal server error'' @ [CHR 0x22] @ ''}''"

definition Recovery :: "'w zap_lib \<Rightarrow> 'w phandler \<Rightarrow> 'w handler" where
  "Recovery log next r = do {
     res \<leftarrow> next r;
     (case out_panic res of
        None \<Rightarrow> State_Monad.return ()
      | Some rec \<Rightarrow> do {
          st \<leftarrow> service (debug_Stack log);
          service (zap_Error log ''panic recovered''
            [(''panic'', FAny rec), (''stack'', FString st), (''path'', FString (req_path r)),
             (''method'', FString (req_method r))]);
          http_Error panic_body 500 }) }"

subsection \<open>logging.go\<close>

definition RequestID :: "request \<Rightarrow> string" where "RequestID r = req_request_id r"

definition CorrelationID :: "request \<Rightarrow> string" where "CorrelationID r = req_correlation_id r"

text \<open>A panic passes \<open>Logging\<close> by: there is no line for such a request.\<close>

definition Logging :: "('d, 'r) world zap_lib \<Rightarrow> ('d, 'r) world phandler \<Rightarrow> ('d, 'r) world phandler" where
  "Logging log next r = do {
     start \<leftarrow> service time_Now;
     before \<leftarrow> response_so_far;
     res \<leftarrow> next r;
     (case out_panic res of
        Some _ \<Rightarrow> State_Monad.return res
      | None \<Rightarrow> do {
          after \<leftarrow> response_so_far;
          now \<leftarrow> service time_Now;
          service (zap_Info log ''http request''
            [(''request_id'', FString (RequestID r)), (''correlation_id'', FString (CorrelationID r)),
             (''method'', FString (req_method r)), (''path'', FString (req_path r)),
             (''status'', FInt (case resp_status after of None \<Rightarrow> 0 | Some st \<Rightarrow> st)),
             (''bytes'', FInt (int (length (resp_body after)) - int (length (resp_body before)))),
             (''remote_addr'', FString (out_remote res)), (''duration'', FDuration (now - start))]);
          State_Monad.return res }) }"

subsection \<open>stack.go\<close>

record CorsOptions =
  cors_AllowedOrigins :: "string list"
  cors_AllowedMethods :: "string list"
  cors_AllowedHeaders :: "string list"
  cors_ExposedHeaders :: "string list"
  cors_AllowCredentials :: bool
  cors_MaxAge :: int

text \<open>chi's and rs/cors' middlewares; any of them may panic or answer by itself.\<close>

record 'w stack_lib =
  chi_RealIP :: "'w phandler \<Rightarrow> 'w phandler"
  chi_Timeout :: "duration \<Rightarrow> 'w phandler \<Rightarrow> 'w phandler"
  cors_Handler :: "CorsOptions \<Rightarrow> 'w phandler \<Rightarrow> 'w phandler"

record 'w Stack =
  st_Logger :: "'w zap_lib"
  st_AllowedOrigins :: "string list"
  st_Timeout :: duration
  st_Production :: bool
  st_TrustProxy :: bool

definition cors_options :: "string list \<Rightarrow> CorsOptions" where
  "cors_options origins = \<lparr>cors_AllowedOrigins = origins,
     cors_AllowedMethods = [''GET'', ''POST'', ''PUT'', ''PATCH'', ''DELETE'', ''OPTIONS''],
     cors_AllowedHeaders = [''Accept'', ''Authorization'', ''Content-Type'', ''X-Request-ID'', ''X-Correlation-ID''],
     cors_ExposedHeaders = [''X-Request-ID'', ''X-Correlation-ID''],
     cors_AllowCredentials = True, cors_MaxAge = 300\<rparr>"

definition stack_inner :: "('w, 'z) stack_lib_scheme \<Rightarrow> 'w Stack \<Rightarrow> 'w phandler \<Rightarrow> 'w phandler" where
  "stack_inner X s next = (if st_TrustProxy s then chi_RealIP X else (\<lambda>h. h))
     (chi_Timeout X (st_Timeout s) (cors_Handler X (cors_options (st_AllowedOrigins s)) next))"

definition Stack_Use ::
    "(('d, 'r) world, 'z) stack_lib_scheme \<Rightarrow> uuid_lib \<Rightarrow> ('d, 'r) world Stack \<Rightarrow> ('d, 'r) world phandler \<Rightarrow> ('d, 'r) world handler" where
  "Stack_Use X V s next =
     Recovery (st_Logger s) (TraceContext V (SecurityHeaders (st_Production s)
       (Logging (st_Logger s) (stack_inner X s next))))"

subsection \<open>No panic leaves the stack\<close>

definition after_panic :: "response \<Rightarrow> response" where
  "after_panic p =
     (case resp_status p of
        Some st \<Rightarrow> p\<lparr>resp_body := resp_body p @ panic_body @ [CHR 0x0A]\<rparr>
      | None \<Rightarrow> p\<lparr>resp_status := Some 500, resp_body := resp_body p @ panic_body @ [CHR 0x0A],
          resp_header := (''X-Content-Type-Options'', ''nosniff'') # (''Content-Type'', ''text/plain; charset=utf-8'') #
            filter (\<lambda>h. fst h \<noteq> ''X-Content-Type-Options'' \<and> fst h \<noteq> ''Content-Type'' \<and> fst h \<noteq> ''Content-Length'')
              (resp_header p)\<rparr>)"

lemma run_http_Error: "run_state (http_Error panic_body 500) (w, p) = ((), (w, after_panic p))"
proof (cases "resp_status p")
  case None
  have "filter (\<lambda>h. fst h \<noteq> ''X-Content-Type-Options'') (filter (\<lambda>h. fst h \<noteq> ''Content-Type'')
      (filter (\<lambda>h. fst h \<noteq> ''Content-Length'') hs)) =
    filter (\<lambda>h. fst h \<noteq> ''X-Content-Type-Options'' \<and> fst h \<noteq> ''Content-Type'' \<and> fst h \<noteq> ''Content-Length'') hs"
    for hs :: "(string \<times> string) list"
    by (induction hs) auto
  with None show ?thesis
    by (simp add: http_Error_def header_Set_def WriteHeader_def write_body_def run_respond after_panic_def)
next
  case (Some st)
  then show ?thesis
    by (simp add: http_Error_def header_Set_def WriteHeader_def write_body_def run_respond after_panic_def)
qed

text \<open>What the client sees of an inner run: its response, or the one \<open>Recovery\<close> makes of it.\<close>

definition recovered :: "outcome \<Rightarrow> response \<Rightarrow> response" where
  "recovered res p = (case out_panic res of None \<Rightarrow> p | Some _ \<Rightarrow> after_panic p)"

lemma Recovery_run:
  assumes "run_state (next r) (w, p) = (res, (w1, q))"
  obtains w' where "run_state (Recovery log next r) (w, p) = ((), (w', recovered res q))"
proof (cases "out_panic res")
  case None
  with assms that [of w1] show thesis by (simp add: Recovery_def recovered_def)
next
  case (Some rec)
  obtain st w2 where st: "run_state (debug_Stack log) w1 = (st, w2)" by fastforce
  obtain w3 where "run_state (zap_Error log ''panic recovered''
      [(''panic'', FAny rec), (''stack'', FString st), (''path'', FString (req_path r)), (''method'', FString (req_method r))]) w2
    = ((), w3)"
    by (rule unit_run)
  with assms Some st that [of w3] show thesis
    by (simp add: Recovery_def recovered_def run_service run_http_Error)
qed

text \<open>\<open>Logging\<close> hands the outcome and the response of what it surrounds on, whether it logs or not.\<close>

lemma Logging_run:
  assumes "run_state time_Now w = (t, w1)" "run_state (next r) (w1, p) = (res, (w2, q))"
  obtains w' where "run_state (Logging log next r) (w, p) = (res, (w', q))"
proof (cases "out_panic res")
  case (Some x)
  with assms that [of w2] show thesis by (simp add: Logging_def run_service response_so_far_def)
next
  case None
  obtain now w3 where now: "run_state time_Now w2 = (now, w3)" by fastforce
  obtain w4 where "run_state (zap_Info log ''http request''
      [(''request_id'', FString (RequestID r)), (''correlation_id'', FString (CorrelationID r)),
       (''method'', FString (req_method r)), (''path'', FString (req_path r)),
       (''status'', FInt (case resp_status q of None \<Rightarrow> 0 | Some st \<Rightarrow> st)),
       (''bytes'', FInt (int (length (resp_body q)) - int (length (resp_body p)))),
       (''remote_addr'', FString (out_remote res)), (''duration'', FDuration (now - t))]) w3 = ((), w4)"
    by (rule unit_run)
  with assms None now that [of w4] show thesis
    by (simp add: Logging_def run_service response_so_far_def)
qed

subsection \<open>The headers of every response\<close>

definition set_header :: "string \<times> string \<Rightarrow> response \<Rightarrow> response" where
  "set_header h p = (if resp_status p = None
     then p\<lparr>resp_header := h # filter (\<lambda>x. fst x \<noteq> fst h) (resp_header p)\<rparr> else p)"

definition security_headers :: "bool \<Rightarrow> (string \<times> string) list" where
  "security_headers production =
     [(''X-Content-Type-Options'', ''nosniff''), (''X-Frame-Options'', ''DENY''), (''X-XSS-Protection'', ''0''),
      (''Referrer-Policy'', ''strict-origin-when-cross-origin''),
      (''Content-Security-Policy'', ''default-src '' @ [CHR 0x27] @ ''none'' @ [CHR 0x27] @
         ''; frame-ancestors '' @ [CHR 0x27] @ ''none'' @ [CHR 0x27]),
      (''Permissions-Policy'', ''geolocation=(), microphone=(), camera=()'')] @
     (if production then [(''Strict-Transport-Security'', ''max-age=63072000; includeSubDomains'')] else [])"

lemma run_header_Set: "run_state (header_Set k v) (w, p) = ((), (w, set_header (k, v) p))"
  by (simp add: header_Set_def run_respond set_header_def)

lemma set_header_status [simp]: "resp_status (set_header h p) = resp_status p"
  "resp_body (set_header h p) = resp_body p"
  by (simp_all add: set_header_def)

lemma fold_set_header_status [simp]: "resp_status (fold set_header hs p) = resp_status p"
  "resp_body (fold set_header hs p) = resp_body p"
  by (induction hs arbitrary: p) simp_all

lemma set_header_in:
  "resp_status p = None \<Longrightarrow> set (resp_header (set_header h p)) = insert h {x \<in> set (resp_header p). fst x \<noteq> fst h}"
  by (auto simp: set_header_def)

lemma fold_set_header_keeps:
  assumes "resp_status p = None" "x \<in> set (resp_header p)" "fst x \<notin> fst ` set hs"
  shows "x \<in> set (resp_header (fold set_header hs p))"
  using assms by (induction hs arbitrary: p) (simp_all add: set_header_in)

lemma fold_set_header_in:
  assumes "resp_status p = None" "distinct (map fst hs)"
  shows "set hs \<subseteq> set (resp_header (fold set_header hs p))"
  using assms
proof (induction hs arbitrary: p)
  case (Cons h hs)
  then have "h \<in> set (resp_header (fold set_header hs (set_header h p)))"
    by (intro fold_set_header_keeps) (simp_all add: set_header_in)
  with Cons show ?case by simp
qed simp

lemma SecurityHeaders_run:
  "run_state (SecurityHeaders production next r) (w, p) = run_state (next r) (w, fold set_header (security_headers production) p)"
  by (simp add: SecurityHeaders_def security_headers_def run_header_Set)

lemma security_headers_distinct:
  "distinct (map fst (security_headers production))"
  "''X-Request-ID'' \<notin> fst ` set (security_headers production)"
  "''X-Correlation-ID'' \<notin> fst ` set (security_headers production)"
  by (cases production; simp add: security_headers_def)+

lemma TraceContext_run:
  assumes "\<And>u. traceIDPattern (uuid_String V u)"
  obtains reqID corrID w' where "traceIDPattern reqID" "traceIDPattern corrID"
    "traceIDPattern (req_header r ''X-Request-ID'') \<longrightarrow> reqID = req_header r ''X-Request-ID''"
    "traceIDPattern (req_header r ''X-Correlation-ID'') \<longrightarrow> corrID = req_header r ''X-Correlation-ID''"
    "run_state (TraceContext V next r) (w, p) =
       run_state (next (r\<lparr>req_request_id := reqID, req_correlation_id := corrID\<rparr>))
         (w', set_header (''X-Correlation-ID'', corrID) (set_header (''X-Request-ID'', reqID) p))"
proof -
  obtain x w1 p1 where x: "run_state (sanitizeTraceID V (req_header r ''X-Request-ID'')) (w, p) = (x, (w1, p1))"
    by (metis surj_pair)
  obtain y w2 p2 where y: "run_state (sanitizeTraceID V (req_header r ''X-Correlation-ID'')) (w1, p1) = (y, (w2, p2))"
    by (metis surj_pair)
  from sanitizeTraceID_ok [OF x assms] sanitizeTraceID_ok [OF y assms]
  have "traceIDPattern x" "traceIDPattern y" "p1 = p" "p2 = p"
    "traceIDPattern (req_header r ''X-Request-ID'') \<longrightarrow> x = req_header r ''X-Request-ID''"
    "traceIDPattern (req_header r ''X-Correlation-ID'') \<longrightarrow> y = req_header r ''X-Correlation-ID''"
    by simp_all
  with x y that [of x y w2] show thesis by (simp add: TraceContext_def run_header_Set)
qed

text \<open>The whole stack: the trace identifiers and the headers are in place when the inner handlers run.\<close>

lemma Stack_run:
  assumes "\<And>u. traceIDPattern (uuid_String V u)" "resp_status p = None"
  obtains reqID corrID w1 p1 res w2 q w' where
    "traceIDPattern reqID" "traceIDPattern corrID"
    "traceIDPattern (req_header r ''X-Request-ID'') \<longrightarrow> reqID = req_header r ''X-Request-ID''"
    "traceIDPattern (req_header r ''X-Correlation-ID'') \<longrightarrow> corrID = req_header r ''X-Correlation-ID''"
    "resp_status p1 = None" "resp_body p1 = resp_body p"
    "{(''X-Request-ID'', reqID), (''X-Correlation-ID'', corrID)} \<union> set (security_headers (st_Production s))
       \<subseteq> set (resp_header p1)"
    "run_state (stack_inner X s next (r\<lparr>req_request_id := reqID, req_correlation_id := corrID\<rparr>)) (w1, p1) = (res, (w2, q))"
    "run_state (Stack_Use X V s next r) (w, p) = ((), (w', recovered res q))"
proof -
  let ?inner = "stack_inner X s next"
  let ?logged = "Logging (st_Logger s) ?inner"
  obtain reqID corrID w0 where ids: "traceIDPattern reqID" "traceIDPattern corrID"
      "traceIDPattern (req_header r ''X-Request-ID'') \<longrightarrow> reqID = req_header r ''X-Request-ID''"
      "traceIDPattern (req_header r ''X-Correlation-ID'') \<longrightarrow> corrID = req_header r ''X-Correlation-ID''"
    and run: "run_state (TraceContext V (SecurityHeaders (st_Production s) ?logged) r) (w, p) =
       run_state (SecurityHeaders (st_Production s) ?logged (r\<lparr>req_request_id := reqID, req_correlation_id := corrID\<rparr>))
         (w0, set_header (''X-Correlation-ID'', corrID) (set_header (''X-Request-ID'', reqID) p))"
    by (rule TraceContext_run [OF assms(1)])
  let ?r = "r\<lparr>req_request_id := reqID, req_correlation_id := corrID\<rparr>"
  let ?p0 = "set_header (''X-Correlation-ID'', corrID) (set_header (''X-Request-ID'', reqID) p)"
  let ?p1 = "fold set_header (security_headers (st_Production s)) ?p0"
  obtain t w1 where t: "run_state time_Now w0 = (t, w1)" by fastforce
  obtain res w2 q where inner: "run_state (?inner ?r) (w1, ?p1) = (res, (w2, q))" by (metis surj_pair)
  obtain w3 where "run_state (?logged ?r) (w0, ?p1) = (res, (w3, q))"
    by (rule Logging_run [of w0 t w1 ?inner ?r ?p1 res w2 q, OF t inner])
  with run have "run_state (TraceContext V (SecurityHeaders (st_Production s) ?logged) r) (w, p) = (res, (w3, q))"
    by (simp add: SecurityHeaders_run)
  then obtain w' where stack: "run_state (Stack_Use X V s next r) (w, p) = ((), (w', recovered res q))"
    unfolding Stack_Use_def
    by (rule Recovery_run [of "TraceContext V (SecurityHeaders (st_Production s) ?logged)" r])
  have none: "resp_status ?p0 = None" "resp_status ?p1 = None" "resp_body ?p1 = resp_body p"
    using assms(2) by simp_all
  have "(''X-Request-ID'', reqID) \<in> set (resp_header ?p0)" "(''X-Correlation-ID'', corrID) \<in> set (resp_header ?p0)"
    using assms(2) by (simp_all add: set_header_def)
  then have "(''X-Request-ID'', reqID) \<in> set (resp_header ?p1)" "(''X-Correlation-ID'', corrID) \<in> set (resp_header ?p1)"
    by (simp_all only: fold_set_header_keeps [OF none(1)] fst_conv security_headers_distinct(2,3) not_False_eq_True)
  with fold_set_header_in [OF none(1) security_headers_distinct(1)]
  have headers: "{(''X-Request-ID'', reqID), (''X-Correlation-ID'', corrID)} \<union> set (security_headers (st_Production s))
      \<subseteq> set (resp_header ?p1)"
    by blast
  show thesis by (rule that [OF ids none(2,3) headers inner stack])
qed

lemma recovered_status: "out_panic res \<noteq> None \<Longrightarrow> resp_status (recovered res q) =
    (case resp_status q of None \<Rightarrow> Some 500 | Some st \<Rightarrow> Some st)"
  by (auto simp: recovered_def after_panic_def split: option.splits)

end
