(* ===== verification/Router.thy ===== *)
theory Router
  imports Handlers Wiring Stack
begin

text \<open>
  \<open>internal/delivery/http/router/router.go\<close>. chi, the CORS handler, Prometheus and the file server
  are parameters (\<open>web_lib\<close>): middlewares and handlers the router is built from. A route is a
  method, a path and the handler with the middlewares in front of it, for requests with a method
  chi knows; the routes under \<open>/api/v1\<close> share the global rate limit, which also counts requests
  that match no route.
\<close>

record 'w web_lib = "'w stack_lib" +
  promhttp_Handler :: "'w handler"
  file_Handler :: "'w handler"
  chi_NotFound :: "'w handler"
  chi_MethodNotAllowed :: "'w handler"
  show_duration :: "duration \<Rightarrow> string"
  loopback_ip :: "string \<Rightarrow> bool"

record 'w Deps =
  dep_Config :: Config
  dep_Logger :: "'w zap_lib"
  dep_DB :: "'w checker"
  dep_Redis :: "'w checker"
  dep_Auth :: "'w AuthService"
  dep_Limiter :: "'w RateLimiter option"
  dep_Idem :: "'w IdempotencyStore option"

definition rateLimit :: "'w Deps \<Rightarrow> string \<Rightarrow> int \<Rightarrow> 'w handler \<Rightarrow> 'w handler" where
  "rateLimit d scope rpm = RateLimit_Middleware
     \<lparr>rl_Limiter = dep_Limiter d, rl_Scope = scope, rl_Limit = rpm, rl_Window = minute\<rparr>"

text \<open>A route: its method, or \<open>None\<close> for \<open>Handle\<close>, which takes every method; its path; its handler.\<close>

type_synonym 'w route = "string option \<times> string \<times> 'w handler"

definition dispatch :: "'w web_lib \<Rightarrow> 'w route list \<Rightarrow> 'w handler" where
  "dispatch X rs r =
     (case find (\<lambda>(m, p, h). (m = None \<or> m = Some (req_method r)) \<and> p = req_path r) rs of
        Some (_, _, h) \<Rightarrow> h r
      | None \<Rightarrow> if \<exists>(m, p, h) \<in> set rs. p = req_path r then chi_MethodNotAllowed X r else chi_NotFound X r)"

definition mountHealth :: "('d, 'r) world web_lib \<Rightarrow> string \<Rightarrow> ('d, 'r) world Health \<Rightarrow> ('d, 'r) world route list" where
  "mountHealth X prefix h = [(Some ''GET'', prefix @ ''/health'', handle_Liveness h),
     (Some ''GET'', prefix @ ''/ready'', handle_Readiness (show_duration X) h)]"

definition auth_routes ::
    "libs \<Rightarrow> decoders \<Rightarrow> ('d, 'r) world Deps \<Rightarrow> ('d, 'r) world route list" where
  "auth_routes L D d =
     (let h = NewAuth (dep_Config d) (dep_Auth d) (dep_Idem d);
          sec = cfg_Security (dep_Config d);
          authMw = Authenticate L (dep_Auth d)
      in [(Some ''POST'', ''/api/v1/auth/register'', rateLimit d ''register'' (sec_RegisterRateLimitRPM sec) (handle_Register L D h)),
          (Some ''POST'', ''/api/v1/auth/login'', rateLimit d ''login'' (sec_LoginRateLimitRPM sec) (handle_Login L D h)),
          (Some ''POST'', ''/api/v1/auth/refresh'', rateLimit d ''refresh'' (sec_RefreshRateLimitRPM sec) (handle_Refresh L h)),
          (Some ''POST'', ''/api/v1/auth/forgot-password'', rateLimit d ''forgot-password'' (sec_SensitiveRateLimitRPM sec) (handle_ForgotPassword L D h)),
          (Some ''POST'', ''/api/v1/auth/reset-password'', rateLimit d ''reset-password'' (sec_SensitiveRateLimitRPM sec) (handle_ResetPassword L D h)),
          (Some ''POST'', ''/api/v1/auth/verify-email'', rateLimit d ''verify-email'' (sec_SensitiveRateLimitRPM sec) (handle_VerifyEmail L D h)),
          (Some ''POST'', ''/api/v1/auth/logout'', authMw (handle_Logout L h)),
          (Some ''POST'', ''/api/v1/auth/logout-all'', authMw (handle_LogoutAll L h)),
          (Some ''GET'', ''/api/v1/me'', authMw (RequirePermission ''read_profile'' (handle_Me L h)))])"

definition new_health :: "'w Deps \<Rightarrow> 'w Health" where
  "new_health d = \<lparr>health_service = app_Name (cfg_App (dep_Config d)), health_checkers = [dep_DB d, dep_Redis d]\<rparr>"

definition v1_router ::
    "libs \<Rightarrow> decoders \<Rightarrow> ('d, 'r) world web_lib \<Rightarrow> ('d, 'r) world Deps \<Rightarrow> ('d, 'r) world handler" where
  "v1_router L D X d =
     rateLimit d ''global'' (sec_RateLimitRPM (cfg_Security (dep_Config d)))
       (dispatch X (mountHealth X ''/api/v1'' (new_health d) @ auth_routes L D d))"

definition root_routes ::
    "('d, 'r) world web_lib \<Rightarrow> ('d, 'r) world Deps \<Rightarrow> ('d, 'r) world route list" where
  "root_routes X d =
     mountHealth X [] (new_health d) @
     (if tel_MetricsEnabled (cfg_Telemetry (dep_Config d))
      then [(None, ''/metrics'', MetricsAuth (loopback_ip X) (http_MetricsToken (cfg_HTTP (dep_Config d))) (promhttp_Handler X))]
      else []) @
     [(Some ''GET'', ''/docs'', handle_Docs ''/openapi.yaml''), (Some ''GET'', ''/openapi.yaml'', file_Handler X)]"

definition router_stack :: "'w Deps \<Rightarrow> 'w Stack" where
  "router_stack d = \<lparr>st_Logger = dep_Logger d, st_AllowedOrigins = http_AllowedOrigins (cfg_HTTP (dep_Config d)),
     st_Timeout = http_ReadTimeout (cfg_HTTP (dep_Config d)),
     st_Production = IsProduction (dep_Config d), st_TrustProxy = http_TrustProxy (cfg_HTTP (dep_Config d))\<rparr>"

definition router_routes ::
    "libs \<Rightarrow> decoders \<Rightarrow> ('d, 'r) world web_lib \<Rightarrow> ('d, 'r) world Deps \<Rightarrow> ('d, 'r) world handler" where
  "router_routes L D X d r =
     (if req_path r = ''/api/v1'' \<or> has_prefix (req_path r) ''/api/v1/''
      then v1_router L D X d r
      else dispatch X (root_routes X d) r)"

text \<open>The routes do not panic; the middlewares around them may.\<close>

definition router_New ::
    "libs \<Rightarrow> decoders \<Rightarrow> ('d, 'r) world web_lib \<Rightarrow> ('d, 'r) world Deps \<Rightarrow> ('d, 'r) world handler" where
  "router_New L D X d = Stack_Use X (lib_V L) (router_stack d) (calm (router_routes L D X d))"

end
