(* ===== verification/Flows.thy ===== *)
theory Flows
  imports Wiring
begin

text \<open>
  What the operations of the wired service do, branch by branch: what a successful run read, wrote
  and returned. The theorems about whole runs of the service rest on these lemmas.
\<close>

subsection \<open>Issuing tokens\<close>

lemma pg_same: "effect (pg_rel (=)) m \<Longrightarrow> run_state m w = (r, w') \<Longrightarrow> w_pg w' = w_pg w"
  by (drule (1) effectD) (simp add: pg_rel_def)

text \<open>
  What a successful \<open>issueTokens\<close> leaves behind: one more refresh row, which is live, holds the
  digest of the returned token and expires after the configured lifetime, and a signed access
  token with the profile the database had.
\<close>

definition profile_of :: "pg_lib \<Rightarrow> uuid \<Rightarrow> tables \<Rightarrow> AuthProfile \<Rightarrow> bool" where
  "profile_of P uid d p \<longleftrightarrow> (\<exists>u \<in> set (tb_users d). live_id uid u \<and>
     p = \<lparr>prof_UserID = u_id u, prof_Email = u_email u,
          prof_Roles = agg_DISTINCT P (map snd (roles_of uid d)),
          prof_Permissions = agg_DISTINCT P (permissions_of uid d)\<rparr>)"

definition main_role :: "AuthProfile \<Rightarrow> string" where
  "main_role p = (if prof_Roles p \<noteq> [] then hd (prof_Roles p) else defaultRole)"

definition new_refresh_row :: "libs \<Rightarrow> TokenPair \<Rightarrow> uuid \<Rightarrow> uuid \<Rightarrow> uuid \<Rightarrow> refresh_row \<Rightarrow> bool" where
  "new_refresh_row L pair uid sid fid row \<longleftrightarrow>
     t_user row = uid \<and> t_session row = sid \<and> t_family row = fid \<and>
     t_hash row = token_Hash (lib_C L) (RefreshToken pair) \<and> t_revoked row = None"

lemma GetAuthProfile_Inr:
  assumes "run_state (UserRepo_GetAuthProfile P uid) w = (Inr p, w')"
  shows "profile_of P uid (w_pg w) p" "w' = advance w"
proof -
  note q = pg_query_Inr [OF assms [unfolded UserRepo_GetAuthProfile_def]]
  show "w' = advance w" by (rule q(2))
  from q(1) obtain u us where "filter (live_id uid) (tb_users (w_pg w)) = u # us"
    "p = \<lparr>prof_UserID = u_id u, prof_Email = u_email u,
          prof_Roles = agg_DISTINCT P (map snd (roles_of uid (w_pg w))),
          prof_Permissions = agg_DISTINCT P (permissions_of uid (w_pg w))\<rparr>"
    by (auto split: list.splits)
  moreover from this(1) have "u \<in> set (tb_users (w_pg w))" "live_id uid u"
    by (auto simp: filter_eq_Cons_iff)
  ultimately show "profile_of P uid (w_pg w) p" unfolding profile_of_def by blast
qed

lemma issueTokens_Inr:
  assumes "run_state (issueTokens L (app_auth L P c M cfg) uid sid fid) w = (Inr pair, w')"
  obtains p row now jti tsave where
    "profile_of P uid (w_pg w) p"
    "w_pg w' = (w_pg w)\<lparr>tb_refresh := tb_refresh (w_pg w) @ [row]\<rparr>"
    "new_refresh_row L pair uid sid fid row"
    "token_Hash (lib_C L) (RefreshToken pair) \<notin> t_hash ` set (tb_refresh (w_pg w))"
    "t_expires row = tsave + jwt_RefreshTTL (cfg_JWT cfg)"
    "token_shape (RefreshToken pair)"
    "SignedString (lib_J L) ''HS256'' (jwt_AccessSecret (cfg_JWT cfg))
       (access_claims (lib_V L) (jwt_NewService (cfg_JWT cfg))
         \<lparr>iss_UserID = uid, iss_Email = prof_Email p, iss_Role = main_role p,
          iss_Permissions = prof_Permissions p, iss_SessionID = sid\<rparr> now jti) = Inr (AccessToken pair)"
    "ExpiresIn pair = whole_seconds (now + jwt_AccessTTL (cfg_JWT cfg) - w_clock w')"
    "w_clock w \<le> now" "now \<le> tsave" "tsave \<le> w_clock w'" "later w w'"
proof -
  let ?J = "jwt_NewService (cfg_JWT cfg)"
  let ?sess = "\<lambda>p. \<lparr>sess_ID = sid, sess_UserID = uid, sess_Email = prof_Email p, sess_Roles = prof_Roles p,
      sess_Permissions = prof_Permissions p, sess_FamilyID = fid\<rparr>"
  let ?i = "\<lambda>p. \<lparr>iss_UserID = uid, iss_Email = prof_Email p, iss_Role = main_role p,
      iss_Permissions = prof_Permissions p, iss_SessionID = sid\<rparr>"
  let ?rec = "\<lambda>raw w. \<lparr>rec_ID = 0, rec_UserID = uid, rec_SessionID = sid,
      rec_TokenHash = token_Hash (lib_C L) raw, rec_FamilyID = fid,
      rec_ExpiresAt = w_clock (advance w) + jwts_refreshTTL ?J\<rparr>"
  from assms obtain p w1 u2 w2 access exp w3 raw w4 u5 w5 where
    prof: "run_state (UserRepo_GetAuthProfile P uid) w = (Inr p, w1)" and
    save: "run_state (SessionStore_Save c (lib_V L) M (?sess p) (jwts_refreshTTL ?J)) w1 = (Inr u2, w2)" and
    iss: "run_state (jwt_IssueAccess (lib_J L) (lib_V L) ?J (?i p)) w2 = (Inr (access, exp), w3)" and
    rnd: "run_state (token_Random 32) w3 = (Inr raw, w4)" and
    ref: "run_state (RefreshRepo_Save (?rec raw w4)) (advance w4) = (Inr u5, w5)" and
    w': "w' = advance w5" and
    pair: "pair = \<lparr>AccessToken = access, RefreshToken = raw, ExpiresIn = whole_seconds (exp - w_clock (advance w5))\<rparr>"
    unfolding issueTokens_def wired_simps Let_def
    by (auto simp: or_return_ok_iff run_time_Now run_ok main_role_def split: prod.splits)
  note g = GetAuthProfile_Inr [OF prof]
  have pg2: "w_pg w2 = w_pg w"
    using pg_same [OF redis_store_pg(1) [OF preorder_eq] save] g(2) by simp
  note ia = IssueAccess_Inr [OF iss]
  have w4: "w4 = advance w3" and shape: "token_shape raw"
    using token_Random_Inr [OF rnd] token_Random_shape [OF rnd] by auto
  have pg4: "w_pg (advance w4) = w_pg w" using pg2 ia(1) w4 by simp
  from Save_Inr [OF ref] obtain d where
    ins: "insert_refresh (?rec raw w4) (w_clock (advance (advance w4)))
      (uuid_at (w_env (advance w4)) (w_ticks (advance w4))) (w_pg (advance w4)) = (Inr (), d)"
    and w5: "w5 = (advance (advance w4))\<lparr>w_pg := d\<rparr>" by blast
  from insert_refresh_ok [OF ins] obtain row where row: "t_revoked row = None"
      "t_hash row = token_Hash (lib_C L) raw" "t_user row = uid" "t_session row = sid" "t_family row = fid"
      "t_expires row = w_clock (advance w4) + jwts_refreshTTL ?J"
      "d = (w_pg w)\<lparr>tb_refresh := tb_refresh (w_pg w) @ [row]\<rparr>"
      "token_Hash (lib_C L) raw \<notin> t_hash ` set (tb_refresh (w_pg w))"
    unfolding pg4 by auto
  have l12: "later w w2" using effectD [OF redis_store_later(1) save] g(2) later_trans later_advance by blast
  then have l24: "later w w4" using ia(1) w4 by (meson later_advance later_trans)
  have l45: "later w4 w'" unfolding w' w5 by (simp add: later_def)
  show thesis
  proof (rule that [of p row "w_clock (advance w4)" "w_clock (advance w2)" "uuid_at (w_env w2) (Suc (w_ticks w2))"])
  qed (use g row shape ia l12 l24 l45 w4 w5 w' pair in \<open>auto simp: new_refresh_row_def later_def jwt_NewService_def\<close>)
qed

text \<open>Writing the audit log changes nothing but the audit log.\<close>

lemma logAudit_tables:
  "\<exists>as. w_pg (snd (run_state (logAudit L (app_auth L' P c M cfg) u a ip ua m) w)) = (w_pg w)\<lparr>tb_audit := as\<rparr>"
  unfolding logAudit_def wired_simps by (rule AuditRepo_tables)

lemma logAudit_same [simp]:
  "tb_users (w_pg (snd (run_state (logAudit L (app_auth L' P c M cfg) u a ip ua m) w))) = tb_users (w_pg w)"
  "tb_user_roles (w_pg (snd (run_state (logAudit L (app_auth L' P c M cfg) u a ip ua m) w))) = tb_user_roles (w_pg w)"
  "tb_refresh (w_pg (snd (run_state (logAudit L (app_auth L' P c M cfg) u a ip ua m) w))) = tb_refresh (w_pg w)"
  "tb_resets (w_pg (snd (run_state (logAudit L (app_auth L' P c M cfg) u a ip ua m) w))) = tb_resets (w_pg w)"
  "tb_verify (w_pg (snd (run_state (logAudit L (app_auth L' P c M cfg) u a ip ua m) w))) = tb_verify (w_pg w)"
  using logAudit_tables [of L L' P c M cfg u a ip ua m w] by auto

subsection \<open>Refresh\<close>

lemma Refresh_Inr:
  assumes "run_state (Refresh L (app_auth L P c M cfg) raw ip ua) w = (Inr pair, w')"
  obtains rec w1 w2 w3 where "raw \<noteq> []"
    "run_state (RefreshRepo_GetByHash (token_Hash (lib_C L) raw)) w = (Inr rec, w1)"
    "run_state (RefreshRepo_Revoke (token_Hash (lib_C L) raw)) w1 = (Inr (), w2)"
    "run_state (issueTokens L (app_auth L P c M cfg) (rec_UserID rec) (rec_SessionID rec) (rec_FamilyID rec)) w2
       = (Inr pair, w3)"
    "w' = snd (run_state (logAudit L (app_auth L P c M cfg) (Some (rec_UserID rec)) ''auth.refresh'' ip ua None) w3)"
proof -
  obtain a w1 where a: "run_state (RefreshRepo_GetByHash (token_Hash (lib_C L) raw)) w = (a, w1)" by fastforce
  show thesis
  proof (cases a)
    case (Inl e)
    then show ?thesis using assms a
      by (auto simp: Refresh_def run_simps Let_def split: prod.splits option.splits if_splits)
  next
    case (Inr rec)
    with assms a that show ?thesis
      by (auto simp: Refresh_def run_guard_err Let_def or_return_ok_iff run_ignoring run_ok split: if_splits)
  qed
qed

text \<open>The rotated token: its row was live, it is revoked now, and its successor is appended.\<close>

lemma revoke_where_hashes:
  "t_hash ` set (tb_refresh (snd (revoke_where p now nid d))) = t_hash ` set (tb_refresh d)"
  unfolding revoke_where_tables set_map image_image by (rule image_cong) auto

lemma Refresh_rotates:
  assumes "run_state (Refresh L (app_auth L P c M cfg) raw ip ua) w = (Inr pair, w')"
  obtains old row where "old \<in> set (tb_refresh (w_pg w))" "live_at (w_clock (advance w)) (token_Hash (lib_C L) raw) old"
    "row \<in> set (tb_refresh (w_pg w'))" "new_refresh_row L pair (t_user old) (t_session old) (t_family old) row"
    "token_Hash (lib_C L) (RefreshToken pair) \<notin> t_hash ` set (tb_refresh (w_pg w))"
    "revoked_hash (token_Hash (lib_C L) raw) (w_pg w')" "token_shape (RefreshToken pair)"
proof -
  let ?h = "token_Hash (lib_C L) raw"
  obtain rec w1 w2 w3 where 1: "run_state (RefreshRepo_GetByHash ?h) w = (Inr rec, w1)"
    and 2: "run_state (RefreshRepo_Revoke ?h) w1 = (Inr (), w2)"
    and 3: "run_state (issueTokens L (app_auth L P c M cfg) (rec_UserID rec) (rec_SessionID rec) (rec_FamilyID rec)) w2
       = (Inr pair, w3)"
    and 4: "w' = snd (run_state (logAudit L (app_auth L P c M cfg) (Some (rec_UserID rec)) ''auth.refresh'' ip ua None) w3)"
    by (rule Refresh_Inr [OF assms])
  from GetByHash_Inr [OF 1] obtain old where w1: "w1 = advance w" and
    old: "old \<in> set (tb_refresh (w_pg w))" "live_at (w_clock (advance w)) ?h old" "rec = row_record old" by blast
  note w2 = Revoke_Inr [OF 2]
  obtain row where row: "w_pg w3 = (w_pg w2)\<lparr>tb_refresh := tb_refresh (w_pg w2) @ [row]\<rparr>"
    "new_refresh_row L pair (rec_UserID rec) (rec_SessionID rec) (rec_FamilyID rec) row"
    "token_Hash (lib_C L) (RefreshToken pair) \<notin> t_hash ` set (tb_refresh (w_pg w2))"
    "token_shape (RefreshToken pair)"
    by (rule issueTokens_Inr [OF 3])
  have "revoked_hash ?h (w_pg w2)"
    using revoke_where_hash [OF old(1)] old(2) w1 w2 by (simp add: live_at_def)
  then have rev: "revoked_hash ?h (w_pg w')" using row(1) 4 by (auto simp: revoked_hash_def)
  have "row \<in> set (tb_refresh (w_pg w'))" using row(1) 4 by simp
  moreover have "t_hash ` set (tb_refresh (w_pg w2)) = t_hash ` set (tb_refresh (w_pg w))"
    unfolding w2 w1 by (simp add: revoke_where_hashes)
  ultimately show thesis using that old row(2,3,4) rev by (simp add: row_record_def)
qed

text \<open>A token whose row is revoked is refused, and its whole family is revoked with it.\<close>

text \<open>Whatever repository the service is given: a dead token is refused.\<close>

context refresh_store
begin

lemma Refresh_dead:
  assumes "svc_refresh s = R" "inv w" "dead w (token_Hash (lib_C L) raw)" "raw \<noteq> []"
  shows "fst (run_state (Refresh L s raw ip ua) w) = Inl ErrUnauthorized"
proof -
  let ?h = "token_Hash (lib_C L) raw"
  obtain a w1 where a: "run_state (GetByHash R ?h) w = (a, w1)" by fastforce
  with dead_refused [OF assms(2,3)] obtain e where "a = Inl e" by blast
  with a assms(1,4) show ?thesis
    by (auto simp: Refresh_def run_simps Let_def split: prod.splits option.splits)
qed

end

lemma Refresh_revoked:
  assumes "schema_ok P (w_pg w)" "revoked_hash (token_Hash (lib_C L) raw) (w_pg w)" "raw \<noteq> []"
  shows "fst (run_state (Refresh L (app_auth L P c M cfg) raw ip ua) w) = Inl ErrUnauthorized"
  by (rule refresh.Refresh_dead [OF _ assms]) simp

lemma find_revoked:
  assumes "schema_ok P d" "r \<in> set (tb_refresh d)" "t_hash r = h" "t_revoked r \<noteq> None"
  shows "find (\<lambda>r. t_hash r = h \<and> t_revoked r \<noteq> None) (tb_refresh d) = Some r"
proof (rule find_unique)
  fix y
  assume y: "y \<in> set (tb_refresh d)" "t_hash y = h \<and> t_revoked y \<noteq> None"
  have "distinct (map t_hash (tb_refresh d))" by (rule schema_keys [OF assms(1)])
  then show "y = r" by (rule distinct_map_inj) (use y assms in auto)
qed (use assms in auto)

lemma Refresh_reuse_tables:
  assumes "healthy w" "schema_ok P (w_pg w)" "raw \<noteq> []"
    and r: "r \<in> set (tb_refresh (w_pg w))" "t_hash r = token_Hash (lib_C L) raw" "t_revoked r \<noteq> None"
    and run: "run_state (Refresh L (app_auth L P c M cfg) raw ip ua) w = (res, w')"
  shows "res = Inl ErrUnauthorized"
    "w_pg w' = snd (revoke_where (\<lambda>x. t_family x = t_family r)
      (w_clock (advance (advance (advance w)))) (uuid_at (w_env w) (Suc (Suc (w_ticks w)))) (w_pg w))"
proof -
  let ?h = "token_Hash (lib_C L) raw"
  have rev: "revoked_hash ?h (w_pg w)" using r by (auto simp: revoked_hash_def)
  obtain a w1 where a: "run_state (RefreshRepo_GetByHash ?h) w = (a, w1)" by fastforce
  with GetByHash_revoked [OF assms(2) rev] obtain e where e: "a = Inl e" by (cases a) auto
  have w1: "w1 = advance w" using GetByHash_world [of ?h w] a by simp
  have h1: "healthy (advance w)" using assms(1) by simp
  have fam: "run_state (RefreshRepo_GetRevokedFamily ?h) w1 = ((Some (t_family r), None), advance (advance w))"
    unfolding w1 RefreshRepo_GetRevokedFamily_def
    using find_revoked [OF assms(2) r] by (simp add: run_pg_query_healthy [OF h1])
  have "res = Inl ErrUnauthorized \<and> w' = snd (run_state (RefreshRepo_RevokeFamily (t_family r)) (advance (advance w)))"
    using run a e fam assms(3) by (auto simp: Refresh_def run_simps Let_def split: prod.splits)
  moreover have "healthy (advance (advance w))" using assms(1) by simp
  then have "w_pg (snd (run_state (RefreshRepo_RevokeFamily (t_family r)) (advance (advance w)))) =
      snd (revoke_where (\<lambda>x. t_family x = t_family r) (w_clock (advance (advance (advance w))))
        (uuid_at (w_env w) (Suc (Suc (w_ticks w)))) (w_pg w))"
    unfolding RefreshRepo_RevokeFamily_def by (simp add: run_pg_stmt_healthy case_prod_unfold)
  ultimately show "res = Inl ErrUnauthorized"
    "w_pg w' = snd (revoke_where (\<lambda>x. t_family x = t_family r)
      (w_clock (advance (advance (advance w)))) (uuid_at (w_env w) (Suc (Suc (w_ticks w)))) (w_pg w))"
    by simp_all
qed

lemma Refresh_reuse:
  assumes "healthy w" "schema_ok P (w_pg w)" "raw \<noteq> []"
    and "r \<in> set (tb_refresh (w_pg w))" "t_hash r = token_Hash (lib_C L) raw" "t_revoked r \<noteq> None"
    and "run_state (Refresh L (app_auth L P c M cfg) raw ip ua) w = (res, w')"
  shows "res = Inl ErrUnauthorized"
    "\<forall>x \<in> set (tb_refresh (w_pg w')). t_family x = t_family r \<longrightarrow> t_revoked x \<noteq> None"
    "filter (\<lambda>x. t_family x \<noteq> t_family r) (tb_refresh (w_pg w')) =
       filter (\<lambda>x. t_family x \<noteq> t_family r) (tb_refresh (w_pg w))"
  unfolding Refresh_reuse_tables(2) [OF assms]
  by (rule Refresh_reuse_tables(1) [OF assms], rule revoke_where_selected, simp, rule revoke_where_others, simp)

subsection \<open>Login\<close>

lemma GetByEmail_Inr:
  assumes "run_state (UserRepo_GetByEmail P email) w = (Inr u, w')"
  shows "w' = advance w" "\<exists>r \<in> set (tb_users (w_pg w)). by_email P email r \<and> u = row_user r"
proof -
  note q = pg_query_Inr [OF assms [unfolded UserRepo_GetByEmail_def UserRepo_scanOne_def]]
  show "w' = advance w" by (rule q(2))
  from q(1) show "\<exists>r \<in> set (tb_users (w_pg w)). by_email P email r \<and> u = row_user r"
    by (auto split: list.splits if_splits simp: filter_eq_Cons_iff)
qed

lemma Login_Inr:
  assumes "run_state (Login L (app_auth L P c M cfg) i ip ua) w = (Inr pair, w')"
  obtains user sid fid w1 w2 w3 w4 where
    "requireInput (lib_T L) (lib_U L) (login_fields i) = Inr ()"
    "run_state (Lockout_IsLocked c (normEmail L (login_Email i))) w = (Inr False, w1)"
    "run_state (UserRepo_GetByEmail P (normEmail L (login_Email i))) w1 = (Inr user, w2)"
    "user_IsActive user" "password_Compare (lib_C L) (user_PasswordHash user) (login_Password i) = None"
    "w3 = advance (advance (snd (run_state (Lockout_clear c (normEmail L (login_Email i))) w2)))"
    "run_state (issueTokens L (app_auth L P c M cfg) (user_ID user) sid fid) w3 = (Inr pair, w4)"
    "w' = snd (run_state (logAudit L (app_auth L P c M cfg) (Some (user_ID user)) ''auth.login'' ip ua None) w4)"
proof -
  let ?email = "normEmail L (login_Email i)"
  from assms obtain w1 where v: "requireInput (lib_T L) (lib_U L) (login_fields i) = Inr ()"
    and l: "run_state (Lockout_IsLocked c ?email) w = (Inr False, w1)"
    by (auto simp: Login_def require_input_def or_return_ok_iff run_pure_call run_guard_err Let_def
        split: if_splits)
  obtain g w2 where g: "run_state (UserRepo_GetByEmail P ?email) w1 = (g, w2)" by fastforce
  show thesis
  proof (cases g)
    case (Inl e)
    with assms v l g show ?thesis
      by (auto simp: Login_def require_input_def failLogin_def run_simps Let_def split: if_splits)
  next
    case (Inr user)
    show ?thesis
    proof (cases "\<not> user_IsActive user \<or>
        password_Compare (lib_C L) (user_PasswordHash user) (login_Password i) \<noteq> None")
      case True
      with assms v l g Inr show ?thesis
        by (auto simp: Login_def require_input_def failLogin_def run_simps Let_def)
    next
      case False
      with assms v l g Inr obtain sid fid w4 where
        "run_state (issueTokens L (app_auth L P c M cfg) (user_ID user) sid fid)
          (advance (advance (snd (run_state (Lockout_clear c ?email) w2)))) = (Inr pair, w4)"
        "w' = snd (run_state (logAudit L (app_auth L P c M cfg) (Some (user_ID user)) ''auth.login'' ip ua None) w4)"
        by (auto simp: Login_def require_input_def run_simps Let_def split: prod.splits sum.splits)
      with that v l g Inr False show ?thesis by blast
    qed
  qed
qed

text \<open>A locked account is refused before the database is asked.\<close>

lemma Login_locked:
  assumes "requireInput (lib_T L) (lib_U L) (login_fields i) = Inr ()"
    "run_state (IsLocked (svc_lockout s) (normEmail L (login_Email i))) w = (Inr True, w1)"
  shows "run_state (Login L s i ip ua) w = (Inl ErrAccountLocked, w1)"
  using assms by (simp add: Login_def require_input_def run_simps Let_def)

text \<open>A login that fails on the account or the password records the failure.\<close>

lemma Login_fails:
  assumes "requireInput (lib_T L) (lib_U L) (login_fields i) = Inr ()"
    "run_state (IsLocked (svc_lockout s) (normEmail L (login_Email i))) w = (Inr False, w1)"
    "run_state (GetByEmail (svc_users s) (normEmail L (login_Email i))) w1 = (g, w2)"
    "(\<exists>e. g = Inl e \<and> errors_Is e ErrNotFound) \<or> (\<exists>u. g = Inr u \<and> (\<not> user_IsActive u \<or>
       password_Compare (lib_C L) (user_PasswordHash u) (login_Password i) \<noteq> None))"
  shows "run_state (Login L s i ip ua) w = run_state (failLogin L s (normEmail L (login_Email i)) ip ua) w2"
  using assms by (auto simp: Login_def require_input_def run_simps Let_def)

lemma failLogin_err: "fst (run_state (failLogin L s email ip ua) w) = Inl ErrUnauthorized"
  by (simp add: failLogin_def run_simps)

subsection \<open>Access tokens\<close>

lemma ParseAccess_cases:
  assumes "run_state (ParseAccess L s raw) w = (res, w')"
  obtains "res = Inl ErrUnauthorized"
  | claims w1 where "res = Inr claims"
    "run_state (jwt_ParseAccess (lib_J L) (svc_jwt s) raw) w = (Inr claims, w1)"
    "run_state (Blacklist_Exists (svc_blacklist s) (claim_ID claims)) w1 = (Inr False, w')"
proof -
  obtain a w1 where a: "run_state (jwt_ParseAccess (lib_J L) (svc_jwt s) raw) w = (a, w1)" by fastforce
  show thesis
  proof (cases a)
    case (Inl e)
    with assms a that(1) show ?thesis by (simp add: ParseAccess_def run_fail)
  next
    case (Inr claims)
    obtain b w2 where b: "run_state (Blacklist_Exists (svc_blacklist s) (claim_ID claims)) w1 = (b, w2)"
      by fastforce
    show ?thesis using assms a Inr b that
      by (cases b) (auto simp: ParseAccess_def run_fail run_ok split: if_splits)
  qed
qed

subsection \<open>One-time tokens\<close>

lemma update_Inr:
  assumes "run_state (or_return (pg_stmt (update_user uid f)) (\<lambda>n. guard_err (n = 0) ErrNotFound (ok ()))) w = (Inr x, w')"
  shows "w' = (advance w)\<lparr>w_pg := (w_pg w)\<lparr>tb_users :=
      map (\<lambda>u. if live_id uid u then f (w_clock (advance w)) u else u) (tb_users (w_pg w))\<rparr>\<rparr>"
    "\<exists>u \<in> set (tb_users (w_pg w)). live_id uid u"
proof -
  from assms obtain n where n: "run_state (pg_stmt (update_user uid f)) w = (Inr n, w')" "n \<noteq> 0"
    by (auto simp: or_return_ok_iff guard_err_ok_iff run_ok)
  from pg_stmt_Inr [OF n(1)] n(2)
  show "w' = (advance w)\<lparr>w_pg := (w_pg w)\<lparr>tb_users :=
      map (\<lambda>u. if live_id uid u then f (w_clock (advance w)) u else u) (tb_users (w_pg w))\<rparr>\<rparr>"
    "\<exists>u \<in> set (tb_users (w_pg w)). live_id uid u"
    by (auto simp: update_user_def filter_empty_conv)
qed

lemma UpdatePassword_update:
  assumes "run_state (UserRepo_UpdatePassword uid h) w = (Inr x, w')"
  shows "run_state (or_return (pg_stmt (update_user uid (\<lambda>now u. u\<lparr>u_hash := h, u_updated := now\<rparr>)))
    (\<lambda>n. guard_err (n = 0) ErrNotFound (ok ()))) w = (Inr x, w')"
proof (cases "varchar 255 h")
  case True
  then have "update_password uid h = update_user uid (\<lambda>now u. u\<lparr>u_hash := h, u_updated := now\<rparr>)"
    by (intro ext) (simp add: update_password_def)
  with assms show ?thesis by (simp add: UserRepo_UpdatePassword_def)
next
  case False
  with assms show ?thesis
    by (auto simp: UserRepo_UpdatePassword_def or_return_ok_iff update_password_def dest: pg_stmt_Inr)
qed

lemma updated_rows:
  assumes "us' = map (\<lambda>u. if live_id uid u then f u else u) us"
    and "\<And>u. live_id uid u \<Longrightarrow> live_id uid (f u) \<and> Q (f u)" "\<exists>u \<in> set us. live_id uid u"
  shows "\<exists>u \<in> set us'. live_id uid u" "\<forall>u \<in> set us'. live_id uid u \<longrightarrow> Q u"
  using assms by force+

lemma VerifyEmail_Inr:
  assumes "run_state (VerifyEmail L (app_auth L P c M cfg) i) w = (Inr x, w')"
  obtains uid w1 w2 where
    "run_state (OneTimeRepo_Consume EmailVerifications (token_Hash (lib_C L) (in_Token i))) w = (Inr uid, w1)"
    "run_state (UserRepo_MarkEmailVerified uid) w1 = (Inr (), w2)"
    "w' = snd (run_state (logAudit L (app_auth L P c M cfg) (Some uid) ''auth.email_verified'' [] [] None) w2)"
  using assms
  by (auto simp: VerifyEmail_def require_input_def or_return_ok_iff run_pure_call run_ignoring run_ok)

lemma VerifyEmail_done:
  assumes "run_state (VerifyEmail L (app_auth L P c M cfg) i) w = (Inr x, w')"
  obtains uid where
    "\<exists>r \<in> set (tb_verify (w_pg w)). usable (token_Hash (lib_C L) (in_Token i)) (w_clock (advance w)) r \<and> o_user r = uid"
    "used_hash (token_Hash (lib_C L) (in_Token i)) (tb_verify (w_pg w'))"
    "\<exists>u \<in> set (tb_users (w_pg w')). live_id uid u"
    "\<forall>u \<in> set (tb_users (w_pg w')). live_id uid u \<longrightarrow> u_verified u"
proof -
  obtain uid w1 w2 where
    1: "run_state (OneTimeRepo_Consume EmailVerifications (token_Hash (lib_C L) (in_Token i))) w = (Inr uid, w1)" and
    2: "run_state (UserRepo_MarkEmailVerified uid) w1 = (Inr (), w2)" and
    3: "w' = snd (run_state (logAudit L (app_auth L P c M cfg) (Some uid) ''auth.email_verified'' [] [] None) w2)"
    by (rule VerifyEmail_Inr [OF assms])
  note u = update_Inr [OF 2 [unfolded UserRepo_MarkEmailVerified_def]]
  note cn = Consume_Inr [OF 1]
  have "used_hash (token_Hash (lib_C L) (in_Token i)) (tb_verify (w_pg w'))"
    using cn(2) by (simp add: 3 u(1))
  moreover have users: "tb_users (w_pg w') = map (\<lambda>u. if live_id uid u
      then u\<lparr>u_verified := True, u_updated := w_clock (advance w1)\<rparr> else u) (tb_users (w_pg w1))"
    by (simp add: 3 u(1))
  have "\<exists>u \<in> set (tb_users (w_pg w')). live_id uid u"
    "\<forall>u \<in> set (tb_users (w_pg w')). live_id uid u \<longrightarrow> u_verified u"
    by (rule updated_rows [OF users _ u(2)]; simp add: live_id_def)+
  ultimately show thesis using that cn(1) by simp
qed

lemma ResetPassword_Inr:
  assumes "run_state (ResetPassword L (app_auth L P c M cfg) i) w = (Inr x, w')"
  obtains uid hash w1 w2 w3 where
    "run_state (OneTimeRepo_Consume PasswordResets (token_Hash (lib_C L) (in_Token (reset_TokenInput i)))) w = (Inr uid, w1)"
    "run_state (password_Hash (lib_C L) (reset_NewPassword i) (sec_BcryptCost (cfg_Security cfg))) w1 = (Inr hash, w2)"
    "run_state (UserRepo_UpdatePassword uid hash) w2 = (Inr (), w3)"
    "w' = snd (run_state (logAudit L (app_auth L P c M cfg) (Some uid) ''auth.password_reset'' [] [] None)
      (snd (run_state (revokeAllSessions (app_auth L P c M cfg) uid) w3)))"
  using assms
  by (auto simp: ResetPassword_def require_input_def or_return_ok_iff run_pure_call run_ignoring run_ok)

text \<open>What \<open>revokeAllSessions\<close> does to the tables when the statement gets through.\<close>

lemma revokeAllSessions_pg:
  "w_pg (snd (run_state (revokeAllSessions (app_auth L P c M cfg) uid) w)) =
     w_pg (snd (run_state (RefreshRepo_RevokeAllForUser uid) w))"
proof -
  obtain a w1 where a: "run_state (RefreshRepo_RevokeAllForUser uid) w = (a, w1)" by fastforce
  obtain b w2 where b: "run_state (SessionStore_DeleteAllForUser c (lib_V L) uid) w1 = (b, w2)" by fastforce
  have "w_pg w2 = w_pg w1" by (rule pg_same [OF redis_store_pg(3) [OF preorder_eq] b])
  with a b show ?thesis by (simp add: revokeAllSessions_def run_ignoring)
qed

lemma RevokeAll_tables:
  "w_pg (snd (run_state (RefreshRepo_RevokeAllForUser uid) w)) = w_pg w \<or>
   w_pg (snd (run_state (RefreshRepo_RevokeAllForUser uid) w)) =
     snd (revoke_where (\<lambda>r. t_user r = uid) (w_clock (advance w)) (uuid_at (w_env w) (w_ticks w)) (w_pg w))"
  unfolding RefreshRepo_RevokeAllForUser_def
  by (auto simp: run_pg_stmt Let_def split: prod.splits fate.splits)

lemma RevokeAll_healthy:
  "healthy w \<Longrightarrow> w_pg (snd (run_state (RefreshRepo_RevokeAllForUser uid) w)) =
     snd (revoke_where (\<lambda>r. t_user r = uid) (w_clock (advance w)) (uuid_at (w_env w) (w_ticks w)) (w_pg w))"
  unfolding RefreshRepo_RevokeAllForUser_def
  by (simp add: run_pg_stmt_healthy case_prod_unfold)

lemma revoke_where_only:
  "snd (revoke_where p now nid d) = d\<lparr>tb_refresh := tb_refresh (snd (revoke_where p now nid d))\<rparr>"
  by (simp add: revoke_where_def)

lemma ResetPassword_done:
  assumes "run_state (ResetPassword L (app_auth L P c M cfg) i) w = (Inr x, w')"
  obtains uid hash n where
    "\<exists>r \<in> set (tb_resets (w_pg w)). usable (token_Hash (lib_C L) (in_Token (reset_TokenInput i))) (w_clock (advance w)) r \<and> o_user r = uid"
    "used_hash (token_Hash (lib_C L) (in_Token (reset_TokenInput i))) (tb_resets (w_pg w'))"
    "bcrypt_Generate (lib_C L) n (reset_NewPassword i) (sec_BcryptCost (cfg_Security cfg)) = Inr hash"
    "\<exists>u \<in> set (tb_users (w_pg w')). live_id uid u"
    "\<forall>u \<in> set (tb_users (w_pg w')). live_id uid u \<longrightarrow> u_hash u = hash"
    "(\<forall>r \<in> set (tb_refresh (w_pg w')). t_user r = uid \<longrightarrow> t_revoked r \<noteq> None) \<or>
       tb_refresh (w_pg w') = tb_refresh (w_pg w)"
    "healthy w \<Longrightarrow> \<forall>r \<in> set (tb_refresh (w_pg w')). t_user r = uid \<longrightarrow> t_revoked r \<noteq> None"
proof -
  let ?h = "token_Hash (lib_C L) (in_Token (reset_TokenInput i))"
  obtain uid hash w1 w2 w3 where
    1: "run_state (OneTimeRepo_Consume PasswordResets ?h) w = (Inr uid, w1)" and
    2: "run_state (password_Hash (lib_C L) (reset_NewPassword i) (sec_BcryptCost (cfg_Security cfg))) w1 = (Inr hash, w2)" and
    3: "run_state (UserRepo_UpdatePassword uid hash) w2 = (Inr (), w3)" and
    4: "w' = snd (run_state (logAudit L (app_auth L P c M cfg) (Some uid) ''auth.password_reset'' [] [] None)
      (snd (run_state (revokeAllSessions (app_auth L P c M cfg) uid) w3)))"
    by (rule ResetPassword_Inr [OF assms])
  note cn = Consume_Inr [OF 1]
  note u = update_Inr [OF UpdatePassword_update [OF 3]]
  have w2: "w2 = advance w1" and gen: "bcrypt_Generate (lib_C L) (w_ticks w1) (reset_NewPassword i)
      (sec_BcryptCost (cfg_Security cfg)) = Inr hash"
    using 2 by (auto simp: run_password_Hash)
  let ?w4 = "snd (run_state (revokeAllSessions (app_auth L P c M cfg) uid) w3)"
  have pg4: "w_pg ?w4 = w_pg w3 \<or> w_pg ?w4 = snd (revoke_where (\<lambda>r. t_user r = uid)
      (w_clock (advance w3)) (uuid_at (w_env w3) (w_ticks w3)) (w_pg w3))"
    unfolding revokeAllSessions_pg by (rule RevokeAll_tables)
  have same: "tb_resets (w_pg ?w4) = tb_resets (w_pg w3)" "tb_users (w_pg ?w4) = tb_users (w_pg w3)"
    using pg4 by (auto simp: revoke_where_def)
  have "used_hash ?h (tb_resets (w_pg w'))" using cn(2) same by (simp add: 4 u(1) w2)
  moreover have users: "tb_users (w_pg w') = map (\<lambda>u. if live_id uid u
      then u\<lparr>u_hash := hash, u_updated := w_clock (advance w2)\<rparr> else u) (tb_users (w_pg w2))"
    using same by (simp add: 4 u(1))
  have "\<exists>u \<in> set (tb_users (w_pg w')). live_id uid u"
    "\<forall>u \<in> set (tb_users (w_pg w')). live_id uid u \<longrightarrow> u_hash u = hash"
    by (rule updated_rows [OF users _ u(2)]; simp add: live_id_def)+
  moreover have "(\<forall>r \<in> set (tb_refresh (w_pg w')). t_user r = uid \<longrightarrow> t_revoked r \<noteq> None) \<or>
      tb_refresh (w_pg w') = tb_refresh (w_pg w)"
  proof (cases "w_pg ?w4 = w_pg w3")
    case True
    have "tb_refresh (w_pg w3) = tb_refresh (w_pg w1)" by (simp add: u(1) w2)
    also have "\<dots> = tb_refresh (w_pg w)" by (simp add: cn(3) consume_onetime_def)
    finally show ?thesis using True by (simp add: 4)
  next
    case False
    with pg4 have "tb_refresh (w_pg w') = tb_refresh (snd (revoke_where (\<lambda>r. t_user r = uid)
      (w_clock (advance w3)) (uuid_at (w_env w3) (w_ticks w3)) (w_pg w3)))" by (simp add: 4)
    then show ?thesis using revoke_where_selected [of "\<lambda>r. t_user r = uid"] by simp
  qed
  moreover have "\<forall>r \<in> set (tb_refresh (w_pg w')). t_user r = uid \<longrightarrow> t_revoked r \<noteq> None" if "healthy w"
  proof -
    have "healthy w3" using that by (simp add: u(1) w2 cn(3))
    then have "tb_refresh (w_pg w') = tb_refresh (snd (revoke_where (\<lambda>r. t_user r = uid)
      (w_clock (advance w3)) (uuid_at (w_env w3) (w_ticks w3)) (w_pg w3)))"
      unfolding 4 by (simp add: revokeAllSessions_pg RevokeAll_healthy)
    then show ?thesis using revoke_where_selected [of "\<lambda>r. t_user r = uid"] by simp
  qed
  ultimately show thesis using that gen cn(1) by simp
qed

subsection \<open>Registration and password reset requests\<close>

definition new_onetime_row :: "libs \<Rightarrow> string \<Rightarrow> uuid \<Rightarrow> onetime_row \<Rightarrow> bool" where
  "new_onetime_row L raw uid row \<longleftrightarrow>
     o_user row = uid \<and> o_hash row = token_Hash (lib_C L) raw \<and> o_used row = None"

lemma insert_onetime_ok:
  assumes "insert_onetime tab uid h e now nid d = (Inr u, d')"
  shows "\<exists>row. o_user row = uid \<and> o_hash row = h \<and> o_used row = None \<and> o_expires row = e \<and>
    d' = set_onetime_rows tab (onetime_rows tab d @ [row]) d"
  using assms
  by (intro exI [of _ "\<lparr>o_id = nid, o_user = uid, o_hash = h, o_expires = e, o_used = None, o_created = now\<rparr>"])
    (auto simp: insert_onetime_def split: if_splits)

lemma issueOneTime_Inr:
  assumes "run_state (issueOneTime L (OneTimeRepo tab) uid ttl) w = (Inr raw, w')"
  obtains row now where
    "token_shape raw" "new_onetime_row L raw uid row" "o_expires row = now + ttl"
    "w_pg w' = set_onetime_rows tab (onetime_rows tab (w_pg w) @ [row]) (w_pg w)"
    "w_clock w \<le> now" "now \<le> w_clock w'"
proof -
  from assms obtain w1 u where rnd: "run_state (token_Random 32) w = (Inr raw, w1)"
    and cr: "run_state (OneTimeRepo_Create tab uid (token_Hash (lib_C L) raw) (w_clock (advance w1) + ttl)) (advance w1) = (Inr u, w')"
    by (auto simp: issueOneTime_def or_return_ok_iff run_time_Now run_ok)
  have w1: "w1 = advance w" "token_shape raw"
    using token_Random_Inr [OF rnd] token_Random_shape [OF rnd] by auto
  from pg_stmt_Inr [OF cr [unfolded OneTimeRepo_Create_def]] obtain d where
    d: "insert_onetime tab uid (token_Hash (lib_C L) raw) (w_clock (advance w1) + ttl)
      (w_clock (advance (advance w1))) (uuid_at (w_env (advance w1)) (w_ticks (advance w1))) (w_pg (advance w1)) = (Inr u, d)"
    and w': "w' = (advance (advance w1))\<lparr>w_pg := d\<rparr>" by blast
  from insert_onetime_ok [OF d] obtain row where "new_onetime_row L raw uid row"
    "o_expires row = w_clock (advance w1) + ttl"
    "d = set_onetime_rows tab (onetime_rows tab (w_pg w) @ [row]) (w_pg w)"
    unfolding new_onetime_row_def w1(1) by auto
  with that [of row "w_clock (advance w1)"] w1 w' show thesis by simp
qed

lemma sendActionEmail_Inr:
  assumes "run_state (sendActionEmail L (app_auth L' P c M cfg) to raw kind) w = (Inr x, w')"
    and "email_Enabled (cfg_Email cfg)"
  obtains link where
    "ActionLink (lib_W L) (case kind of MailReset \<Rightarrow> email_ResetLinkBase (cfg_Email cfg)
       | MailVerify \<Rightarrow> email_VerifyLinkBase (cfg_Email cfg)) raw = Inr link"
    "w_outbox w' = w_outbox w @ [(email_From (cfg_Email cfg), \<lparr>mail_To = normEmail L to,
       mail_Subject = mail_subject kind, mail_Text = mail_plain kind link,
       mail_HTML = html_link (html_EscapeString link)\<rparr>)]"
proof -
  from assms obtain link where l: "ActionLink (lib_W L) (case kind of MailReset \<Rightarrow> email_ResetLinkBase (cfg_Email cfg)
       | MailVerify \<Rightarrow> email_VerifyLinkBase (cfg_Email cfg)) raw = Inr link"
    and s: "run_state (resend_Send (email_From (cfg_Email cfg)) \<lparr>mail_To = normEmail L to,
       mail_Subject = mail_subject kind, mail_Text = mail_plain kind link,
       mail_HTML = html_link (html_EscapeString link)\<rparr>) w = (Inr x, w')"
    unfolding sendActionEmail_def sendTransactional_def app_auth_simps app_mailer_def Let_def
    by (auto simp: or_return_ok_iff run_pure_call)
  from s have "w_outbox w' = w_outbox w @ [(email_From (cfg_Email cfg), \<lparr>mail_To = normEmail L to,
       mail_Subject = mail_subject kind, mail_Text = mail_plain kind link,
       mail_HTML = html_link (html_EscapeString link)\<rparr>)]"
    by (auto simp: resend_Send_def run_guard_err send_mail_def run_fail run_ok Let_def
        split: if_splits sum.splits fate.splits prod.splits)
  with l that show thesis by blast
qed

text \<open>\<open>outbox\<close> frames: only \<open>sendActionEmail\<close> writes mail.\<close>

lemma quota_pg:
  assumes "run_state (consumeEmailQuota L (app_auth L' P c M cfg) email) w = (r, w')"
  shows "w_pg w' = w_pg w"
proof -
  have "effect (pg_rel (=)) (consumeEmailQuota L (app_auth L' P c M cfg) email)"
    unfolding consumeEmailQuota_def wired_simps
    by (intro keep_intros preorder_pg_rel preorder_eq)
  then show ?thesis using assms by (rule pg_same)
qed

lemma mail_pg:
  assumes "run_state (sendActionEmail L (app_auth L' P c M cfg) to raw kind) w = (r, w')"
  shows "w_pg w' = w_pg w"
proof -
  have "effect (pg_rel (=)) (sendActionEmail L (app_auth L' P c M cfg) to raw kind)"
    unfolding sendActionEmail_def sendTransactional_def app_auth_simps app_mailer_def Let_def
    by (auto intro!: keep_intros preorder_pg_rel preorder_eq)
  then show ?thesis using assms by (rule pg_same)
qed

lemma Register_Inr:
  assumes "run_state (Register L (app_auth L P c M cfg) i ip ua) w = (Inr tok, w')"
  obtains hash user raw w1 w2 w3 w4 w5 where
    "requireInput (lib_T L) (lib_U L) (register_fields i) = Inr ()"
    "run_state (consumeEmailQuota L (app_auth L P c M cfg) (normEmail L (reg_Email i))) w = (Inr (), w1)"
    "run_state (password_Hash (lib_C L) (reg_Password i) (sec_BcryptCost (cfg_Security cfg))) w1 = (Inr hash, w2)"
    "run_state (UserRepo_CreateWithRole P (normEmail L (reg_Email i)) hash defaultRole) w2 = (Inr user, w3)"
    "run_state (issueOneTime L (OneTimeRepo EmailVerifications) (user_ID user) (24 * hour)) w3 = (Inr raw, w4)"
    "run_state (sendActionEmail L (app_auth L P c M cfg) (normEmail L (reg_Email i)) raw MailVerify) w4 = (Inr (), w5)"
    "w' = snd (run_state (logAudit L (app_auth L P c M cfg) (Some (user_ID user)) ''user.registered'' ip ua None) w5)"
    "tok = devToken (app_auth L P c M cfg) raw"
  using assms
  by (auto simp: Register_def require_input_def or_return_ok_iff run_pure_call run_ignoring run_ok Let_def)

definition new_user_row :: "pg_lib \<Rightarrow> string \<Rightarrow> string \<Rightarrow> user_row \<Rightarrow> bool" where
  "new_user_row P email hash row \<longleftrightarrow> u_email row = sql_LOWER P email \<and> u_hash row = hash \<and>
     \<not> u_verified row \<and> u_active row \<and> u_deleted row = None"

lemma insert_user_ok:
  assumes "insert_user P email hash now nid d = (Inr u, d')"
  shows "\<exists>row. new_user_row P email hash row \<and> u_id row = user_ID u \<and> u_id row \<notin> user_ids d \<and>
    d' = d\<lparr>tb_users := tb_users d @ [row]\<rparr>"
  using assms
  by (intro exI [of _ "\<lparr>u_id = nid, u_email = sql_LOWER P email, u_hash = hash, u_verified = False,
      u_active = True, u_created = now, u_updated = now, u_deleted = None\<rparr>"])
    (auto simp: insert_user_def Let_def new_user_row_def row_user_def split: if_splits)

lemma both_insertsD:
  assumes "both_inserts P email hash role d u d2"
  obtains row where "new_user_row P email hash row" "u_id row = user_ID u" "u_id row \<notin> user_ids d"
    "d2 = d\<lparr>tb_users := tb_users d @ [row],
       tb_user_roles := tb_user_roles d @ map (\<lambda>r. (u_id row, fst r)) (filter (\<lambda>r. snd r = role) (tb_roles d))\<rparr>"
proof -
  from assms obtain now nid nid' d1 where
    1: "insert_user P email hash now nid d = (Inr u, d1)" and
    2: "insert_role (user_ID u) role now nid' d1 = (Inr (), d2)"
    unfolding both_inserts_def by blast
  from insert_user_ok [OF 1] obtain row where row: "new_user_row P email hash row" "u_id row = user_ID u"
    "u_id row \<notin> user_ids d" "d1 = d\<lparr>tb_users := tb_users d @ [row]\<rparr>" by blast
  from 2 have "d2 = d1\<lparr>tb_user_roles := tb_user_roles d1 @
      map (\<lambda>r. (user_ID u, fst r)) (filter (\<lambda>r. snd r = role) (tb_roles d1))\<rparr>"
    by (simp add: insert_role_def Let_def split: if_splits)
  with row that show thesis by simp
qed

lemma Register_done:
  assumes "run_state (Register L (app_auth L P c M cfg) i ip ua) w = (Inr tok, w')"
  obtains hash n row raw vrow now where
    "bcrypt_Generate (lib_C L) n (reg_Password i) (sec_BcryptCost (cfg_Security cfg)) = Inr hash"
    "new_user_row P (normEmail L (reg_Email i)) hash row" "u_id row \<notin> user_ids (w_pg w)"
    "tb_users (w_pg w') = tb_users (w_pg w) @ [row]"
    "tb_user_roles (w_pg w') = tb_user_roles (w_pg w) @
       map (\<lambda>r. (u_id row, fst r)) (filter (\<lambda>r. snd r = defaultRole) (tb_roles (w_pg w)))"
    "tb_verify (w_pg w') = tb_verify (w_pg w) @ [vrow]" "new_onetime_row L raw (u_id row) vrow"
    "o_expires vrow = now + 24 * hour" "w_clock w \<le> now" "now \<le> w_clock w'"
    "token_shape raw" "tok = (if ExposeDevTokens cfg then raw else [])"
proof -
  let ?S = "app_auth L P c M cfg"
  obtain hash user raw w1 w2 w3 w4 w5 where
    1: "run_state (consumeEmailQuota L ?S (normEmail L (reg_Email i))) w = (Inr (), w1)" and
    2: "run_state (password_Hash (lib_C L) (reg_Password i) (sec_BcryptCost (cfg_Security cfg))) w1 = (Inr hash, w2)" and
    3: "run_state (UserRepo_CreateWithRole P (normEmail L (reg_Email i)) hash defaultRole) w2 = (Inr user, w3)" and
    4: "run_state (issueOneTime L (OneTimeRepo EmailVerifications) (user_ID user) (24 * hour)) w3 = (Inr raw, w4)" and
    5: "run_state (sendActionEmail L ?S (normEmail L (reg_Email i)) raw MailVerify) w4 = (Inr (), w5)" and
    6: "w' = snd (run_state (logAudit L ?S (Some (user_ID user)) ''user.registered'' ip ua None) w5)" and
    tok: "tok = devToken ?S raw"
    by (rule Register_Inr [OF assms])
  have pg2: "w_pg w2 = w_pg w" and gen: "bcrypt_Generate (lib_C L) (w_ticks w1) (reg_Password i)
      (sec_BcryptCost (cfg_Security cfg)) = Inr hash"
    using quota_pg [OF 1] 2 by (auto simp: run_password_Hash)
  from CreateWithRole_cases [OF 3] have "both_inserts P (normEmail L (reg_Email i)) hash defaultRole (w_pg w) user (w_pg w3)"
    by (auto simp: pg2)
  then obtain row where row: "new_user_row P (normEmail L (reg_Email i)) hash row" "u_id row = user_ID user"
    "u_id row \<notin> user_ids (w_pg w)"
    "w_pg w3 = (w_pg w)\<lparr>tb_users := tb_users (w_pg w) @ [row], tb_user_roles := tb_user_roles (w_pg w) @
       map (\<lambda>r. (u_id row, fst r)) (filter (\<lambda>r. snd r = defaultRole) (tb_roles (w_pg w)))\<rparr>"
    by (rule both_insertsD)
  obtain vrow now where v: "token_shape raw" "new_onetime_row L raw (user_ID user) vrow"
    "o_expires vrow = now + 24 * hour"
    "w_pg w4 = set_onetime_rows EmailVerifications (onetime_rows EmailVerifications (w_pg w3) @ [vrow]) (w_pg w3)"
    "w_clock w3 \<le> now" "now \<le> w_clock w4"
    by (rule issueOneTime_Inr [OF 4])
  have l: "later w w3" "later w4 w'"
  proof -
    have "later w w1" "later w1 w2" "later w2 w3"
      using effectD [OF wired_helpers_later(6) 1] effectD [OF token_effects(2) 2]
        effectD [OF UserRepo_later(1) 3] by blast+
    then show "later w w3" by (meson later_trans)
    have "later w4 w5" using effectD [OF wired_helpers_later(7) 5] by blast
    then show "later w4 w'" unfolding 6 by (rule later_trans) (rule effect_snd [OF wired_helpers_later(1)])
  qed
  show thesis
    by (rule that [of "w_ticks w1" hash row vrow raw now])
      (use gen row v l mail_pg [OF 5] tok in \<open>simp_all add: 6 later_def devToken_def\<close>)
qed

text \<open>\<open>ForgotPassword\<close> never fails on a valid input.\<close>

lemma ForgotPassword_result:
  "fst (run_state (ForgotPassword L s i) w) =
     (if requireInput (lib_T L) (lib_U L) (forgot_fields i) = Inr ()
      then Inr (case fst (run_state (ForgotPassword L s i) w) of Inr t \<Rightarrow> t | Inl _ \<Rightarrow> [])
      else Inl ErrInvalidInput)"
proof (cases "requireInput (lib_T L) (lib_U L) (forgot_fields i)")
  case (Inl e)
  then show ?thesis using requireInput_err [OF Inl]
    by (simp add: ForgotPassword_def require_input_def run_simps)
next
  case (Inr u)
  then show ?thesis
    by (auto simp: ForgotPassword_def require_input_def run_simps split: prod.splits sum.splits)
qed

lemma ForgotPassword_hidden:
  assumes "\<not> ExposeDevTokens (svc_cfg s)" "requireInput (lib_T L) (lib_U L) (forgot_fields i) = Inr u"
  shows "fst (run_state (ForgotPassword L s i) w) = Inr []"
  using assms
  by (auto simp: ForgotPassword_def require_input_def run_simps devToken_def split: prod.splits sum.splits)

end
