(* ===== verification/System.thy ===== *)
theory System
  imports Flows
begin

text \<open>
  The running system: sequences of operations of the wired service, in any order, with any
  arguments, with time passing and remote calls failing in between. \<open>perform\<close> runs one
  operation and drops its result, \<open>runs L s w ops w'\<close> says that the operations \<open>ops\<close> lead from
  \<open>w\<close> to \<open>w'\<close>. Invariants are shown once for \<open>perform\<close> and carried to \<open>runs\<close> by rule
  induction: the constraints of the schema, the growth of the tables, the clock, and the entry of
  a blacklisted token as long as nobody logs that token out again.
\<close>

subsection \<open>Operations\<close>

datatype operation =
    OpRegister RegisterInput string string
  | OpLogin LoginInput string string
  | OpRefresh string string string
  | OpLogout uuid uuid string time string string string
  | OpLogoutAll uuid
  | OpForgotPassword ForgotPasswordInput
  | OpResetPassword ResetPasswordInput
  | OpVerifyEmail TokenInput
  | OpGetProfile uuid
  | OpParseAccess string
  | OpRateLimit string int duration
  | OpWait

definition finish :: "('w, 'a) state \<Rightarrow> ('w, unit) state" where
  "finish m = do { _ \<leftarrow> m; State_Monad.return () }"

fun perform :: "libs \<Rightarrow> ('d, 'r) world AuthService \<Rightarrow> operation \<Rightarrow> (('d, 'r) world, unit) state" where
  "perform L s (OpRegister i ip ua) = finish (Register L s i ip ua)"
| "perform L s (OpLogin i ip ua) = finish (Login L s i ip ua)"
| "perform L s (OpRefresh raw ip ua) = finish (Refresh L s raw ip ua)"
| "perform L s (OpLogout u sid jti exp raw ip ua) = finish (Logout L s u sid jti exp raw ip ua)"
| "perform L s (OpLogoutAll u) = finish (LogoutAll L s u)"
| "perform L s (OpForgotPassword i) = finish (ForgotPassword L s i)"
| "perform L s (OpResetPassword i) = finish (ResetPassword L s i)"
| "perform L s (OpVerifyEmail i) = finish (VerifyEmail L s i)"
| "perform L s (OpGetProfile u) = finish (GetProfile s u)"
| "perform L s (OpParseAccess raw) = finish (ParseAccess L s raw)"
| "perform L s (OpRateLimit k n d) = finish (Allow (svc_emailLimit s) k n d)"
| "perform L s OpWait = finish time_Now"

inductive runs ::
    "libs \<Rightarrow> ('d, 'r) world AuthService \<Rightarrow> ('d, 'r) world \<Rightarrow> operation list \<Rightarrow> ('d, 'r) world \<Rightarrow> bool"
  for L s w where
  start: "runs L s w [] w"
| operate: "runs L s w ops w1 \<Longrightarrow> run_state (perform L s op) w1 = (u, w2) \<Longrightarrow> runs L s w (ops @ [op]) w2"

inductive_cases runs_startE: "runs L s w [] w'"
inductive_cases runs_operateE: "runs L s w (ops @ [op]) w'"

text \<open>The first operation of a run, rather than the last.\<close>

lemma runs_first:
  assumes "run_state (perform L s op) w = (u, w1)" "runs L s w1 ops w2"
  shows "runs L s w (op # ops) w2"
  using assms(2)
proof (induction rule: runs.induct)
  case start
  from runs.operate [OF runs.start assms(1)] show ?case by simp
next
  case (operate ops w1 op' u w2)
  from runs.operate [OF operate.IH operate.hyps(2)] show ?case by simp
qed

lemma runs_append: "runs L s w1 ops2 w2 \<Longrightarrow> runs L s w ops1 w1 \<Longrightarrow> runs L s w (ops1 @ ops2) w2"
proof (induction rule: runs.induct)
  case (operate ops w1 op u w2)
  from runs.operate [OF operate.IH [OF operate.prems] operate.hyps(2)] show ?case by simp
qed simp

subsection \<open>Invariants of a run\<close>

lemma effect_finish [keep_intros]: "preorder_rel R \<Longrightarrow> effect R m \<Longrightarrow> effect R (finish m)"
  unfolding finish_def by (intro effect_bind effect_return)

lemma runs_effect:
  assumes "runs L s w ops w'" "preorder_rel R" "\<And>op. op \<in> set ops \<Longrightarrow> effect R (perform L s op)"
  shows "R w w'"
  using assms(1,3)
proof (induction rule: runs.induct)
  case start
  show ?case using assms(2) by (rule preorder_refl)
next
  case (operate ops w1 op u w2)
  have "R w w1" by (rule operate.IH) (simp add: operate.prems)
  moreover have "R w1 w2" by (rule effectD [OF operate.prems operate.hyps(2)]) simp
  ultimately show ?case using assms(2) unfolding preorder_rel_def by blast
qed

lemma perform_db_step: "effect (pg_rel (db_step P)) (perform L (app_auth L P c M cfg) op)"
  by (cases op) (auto intro!: keep_intros wired_db_step preorder_pg_rel preorder_db_step)

lemma perform_later: "effect later (perform L (app_auth L P c M cfg) op)"
  by (cases op) (auto intro!: keep_intros wired_later)

lemma runs_db_step: "runs L (app_auth L P c M cfg) w ops w' \<Longrightarrow> db_step P (w_pg w) (w_pg w')"
  using runs_effect [OF _ preorder_pg_rel [OF preorder_db_step] perform_db_step]
  by (fastforce simp: pg_rel_def)

lemma runs_schema: "runs L (app_auth L P c M cfg) w ops w' \<Longrightarrow> schema_ok P (w_pg w) \<Longrightarrow> schema_ok P (w_pg w')"
  using runs_db_step unfolding db_step_def by blast

lemma runs_evolves: "runs L (app_auth L P c M cfg) w ops w' \<Longrightarrow> evolves (w_pg w) (w_pg w')"
  using runs_db_step unfolding db_step_def by blast

lemma runs_later: "runs L (app_auth L P c M cfg) w ops w' \<Longrightarrow> later w w'"
  using runs_effect [OF _ preorder_later perform_later] by blast

text \<open>
  The operation logs out the access token with identifier \<open>jti\<close> with an expiry before \<open>exp\<close>. The
  handlers take both from the token, so an identifier always comes with the same expiry.
\<close>

fun shortens :: "string \<Rightarrow> time \<Rightarrow> operation \<Rightarrow> bool" where
  "shortens jti exp (OpLogout u sid j e raw ip ua) = (j = jti \<and> e < exp)"
| "shortens jti exp _ = False"

text \<open>\<open>barred\<close>: the identifier is on the blacklist, and its entry runs for longer than until \<open>t\<close>.\<close>

definition barred :: "('r \<Rightarrow> keyspace) \<Rightarrow> ('d, 'r) world \<Rightarrow> string \<Rightarrow> time \<Rightarrow> bool" where
  "barred view w jti t \<longleftrightarrow> (\<exists>e. until view w (keyBlacklist jti) e \<and> t < e)"

definition keeps_bar ::
    "('r \<Rightarrow> keyspace) \<Rightarrow> (nat \<Rightarrow> 'r \<Rightarrow> 'r) \<Rightarrow> string \<Rightarrow> time \<Rightarrow> ('d, 'r) world \<Rightarrow> ('d, 'r) world \<Rightarrow> bool" where
  "keeps_bar view elapse jti t w w' \<longleftrightarrow> (w_wait w = elapse \<longrightarrow>
     w_wait w' = elapse \<and> w_clock w \<le> w_clock w' \<and> (barred view w jti t \<longrightarrow> barred view w' jti t))"

lemma preorder_keeps_bar [simp, intro]: "preorder_rel (keeps_bar view elapse jti t)"
  by (auto simp: preorder_rel_def keeps_bar_def)

lemma frame_keeps_bar: "redis_frame view elapse {keyBlacklist jti} w w' \<Longrightarrow> keeps_bar view elapse jti t w w'"
  unfolding keeps_bar_def barred_def
  using until_frame(1) [of view elapse "{keyBlacklist jti}" w w' "keyBlacklist jti"] by (auto simp: redis_frame_def)

lemma effect_keeps_bar: "effect (redis_frame view elapse {keyBlacklist jti}) m \<Longrightarrow> effect (keeps_bar view elapse jti t) m"
  unfolding effect_def using frame_keeps_bar by blast

subsection \<open>Redis keys over a run\<close>

context redis_server
begin

lemma tx_frame [keep_intros]: "effect (redis_frame view elapse K) (tx_stmt f t)"
  by (simp add: effect_def run_tx_stmt advance_frame)

lemma avoids_blacklist [simp]: "avoids keySession {keyBlacklist jti}" "avoids keyUserSession {keyBlacklist jti}"
  by (simp_all add: avoids_def)

lemma repo_frames [keep_intros]:
  "effect (redis_frame view elapse K) (UserRepo_CreateWithRole P email hash role)"
  "effect (redis_frame view elapse K) (UserRepo_GetByEmail P email)"
  "effect (redis_frame view elapse K) (UserRepo_UpdatePassword u hash)"
  "effect (redis_frame view elapse K) (UserRepo_MarkEmailVerified u)"
  "effect (redis_frame view elapse K) (UserRepo_GetAuthProfile P u)"
  "effect (redis_frame view elapse K) (RefreshRepo_Save rec)"
  "effect (redis_frame view elapse K) (RefreshRepo_GetByHash h)"
  "effect (redis_frame view elapse K) (RefreshRepo_GetRevokedFamily h)"
  "effect (redis_frame view elapse K) (RefreshRepo_Revoke h)"
  "effect (redis_frame view elapse K) (RefreshRepo_RevokeFamily f)"
  "effect (redis_frame view elapse K) (RefreshRepo_RevokeAllForUser u)"
  "effect (redis_frame view elapse K) (OneTimeRepo_Create tab u h e)"
  "effect (redis_frame view elapse K) (OneTimeRepo_Consume tab h)"
  "effect (redis_frame view elapse K) (AuditRepo_Log P a)"
  unfolding UserRepo_CreateWithRole_def pg_begin_def pg_commit_def UserRepo_GetByEmail_def
    UserRepo_scanOne_def UserRepo_UpdatePassword_def UserRepo_MarkEmailVerified_def
    UserRepo_GetAuthProfile_def RefreshRepo_Save_def RefreshRepo_GetByHash_def
    RefreshRepo_GetRevokedFamily_def RefreshRepo_Revoke_def RefreshRepo_RevokeFamily_def
    RefreshRepo_RevokeAllForUser_def OneTimeRepo_Create_def OneTimeRepo_Consume_def AuditRepo_Log_def
  by (intro keep_intros preorder_redis_frame)+

lemma library_frames [keep_intros]:
  "effect (redis_frame view elapse K) (token_Random n)"
  "effect (redis_frame view elapse K) (password_Hash C pw cost)"
  "effect (redis_frame view elapse K) (jwt_IssueAccess J V s i)"
  "effect (redis_frame view elapse K) (jwt_ParseAccess J s raw)"
  "effect (redis_frame view elapse K) (resend_Send from msg)"
  unfolding token_Random_def password_Hash_def jwt_IssueAccess_def jwt_ParseAccess_def resend_Send_def Let_def
  by (intro keep_intros preorder_redis_frame)+

lemma helper_frames [keep_intros]:
  fixes L P M cfg jti
  defines "s \<equiv> app_auth L P c M cfg" and "R \<equiv> redis_frame view elapse {keyBlacklist jti}"
  shows "effect R (logAudit L s u a ip ua m)" "effect R (failLogin L s email ip ua)"
    "effect R (revokeAllSessions s uid)" "effect R (issueOneTime L (OneTimeRepo tab) uid ttl)"
    "effect R (issueTokens L s uid sid fid)" "effect R (consumeEmailQuota L s email)"
    "effect R (sendActionEmail L s email raw kind)" "effect R (require_input L fs)"
  unfolding s_def R_def helper_defs wired_simps Let_def if_distrib option.case
  by (auto intro!: keep_intros store_frames split: option.splits)

lemma service_frames:
  fixes L P M cfg jti
  defines "s \<equiv> app_auth L P c M cfg" and "R \<equiv> redis_frame view elapse {keyBlacklist jti}"
  shows "effect R (Register L s ri ip ua)" "effect R (Login L s li ip ua)" "effect R (Refresh L s raw ip ua)"
    "j \<noteq> jti \<Longrightarrow> effect R (Logout L s uid sid j exp raw ip ua)" "effect R (LogoutAll L s uid)"
    "effect R (ForgotPassword L s fi)" "effect R (ResetPassword L s pi)" "effect R (VerifyEmail L s ti)"
    "effect R (GetProfile s uid)" "effect R (ParseAccess L s raw)"
  unfolding s_def R_def usecase_defs wired_simps Let_def
  by (auto intro!: keep_intros store_frames split: sum.splits option.splits)

text \<open>A second logout of the same identifier renews the entry, unless Redis fails before it is set.\<close>

lemma blacklist_keeps_bar:
  assumes run: "run_state (Blacklist_add c jti ttl) w = (r, w')" and ttl: "0 < ttl" "exp \<le> w_clock w + ttl"
  shows "keeps_bar view elapse jti (exp - millis) w w'"
  unfolding keeps_bar_def
proof (intro impI conjI)
  assume wt: "w_wait w = elapse"
  note time = redis_step_time [OF wt run [unfolded Blacklist_add_def]]
  show "w_wait w' = elapse" "w_clock w \<le> w_clock w'" using time by simp_all
  assume bar: "barred view w jti (exp - millis)"
  let ?k = "keyBlacklist jti" and ?S = "view (w_redis (advance w))"
  obtain s where w': "w' = (advance w)\<lparr>w_redis := s\<rparr>" and c: "view s = ?S \<or> view s = snd (ks_set ?k ''1'' ttl ?S)"
    by (rule on_redis_cases [OF set run [unfolded Blacklist_add_def]]) blast
  from c show "barred view w' jti (exp - millis)"
  proof
    assume s: "view s = ?S"
    obtain e where e: "until view w ?k e" "exp - millis < e" using bar unfolding barred_def by blast
    then have "until view w' ?k e"
      unfolding w' until_def using s by (simp add: stored_def skew_def view_elapse ks_wait_def wt)
    with e(2) show ?thesis unfolding barred_def by blast
  next
    assume s: "view s = snd (ks_set ?k ''1'' ttl ?S)"
    have "until view w' ?k (w_clock w' + ttl_millis ttl)"
      using ttl(1) unfolding w' by (simp add: until_def stored_def skew_def s ks_set_def ks_put_entries ks_ttl_def)
    moreover have "exp - millis < w_clock w' + ttl_millis ttl"
      using ttl ttl_millis_bounds [OF ttl(1)] time(2) by simp
    ultimately show ?thesis unfolding barred_def by blast
  qed
qed

lemma Logout_keeps_bar:
  assumes "exp \<le> exp'"
  shows "effect (keeps_bar view elapse jti (exp - millis)) (Logout L (app_auth L P c M cfg) uid sid jti exp' raw ip ua)"
proof -
  let ?s = "app_auth L P c M cfg" and ?R = "keeps_bar view elapse jti (exp - millis)"
  let ?rest = "do {
     _ \<leftarrow> (if raw \<noteq> [] then Revoke (svc_refresh ?s) (token_Hash (lib_C L) raw) else ok ());
     ignoring (Session_Delete (svc_sessions ?s) sid uid)
     (ignoring (logAudit L ?s (Some uid) ''auth.logout'' ip ua None)
     (ok ())) } :: ('r svc_world, unit) call"
  have rest: "effect ?R ?rest"
    unfolding wired_simps by (rule effect_keeps_bar) (auto intro!: keep_intros store_frames)
  have "?R w w'" if run: "run_state (Logout L ?s uid sid jti exp' raw ip ua) w = (r, w')" for w w' :: "'r svc_world" and r
  proof -
    have tick: "?R w (advance w)" by (rule frame_keeps_bar) (rule advance_frame)
    let ?ttl = "exp' - w_clock (advance w)"
    show ?thesis
    proof (cases "jti \<noteq> [] \<and> 0 < ?ttl")
      case True
      obtain a wb where add: "run_state (Blacklist_add c jti ?ttl) (advance w) = (a, wb)" by fastforce
      have "?R (advance w) wb" by (rule blacklist_keeps_bar [OF add]) (use True assms in simp_all)
      moreover have "run_state ?rest wb = (r, w')"
        using run add True by (simp add: Logout_def run_time_Now Let_def)
      then have "?R wb w'" by (rule effectD [OF rest])
      ultimately show ?thesis using tick preorder_keeps_bar unfolding preorder_rel_def by blast
    next
      case False
      then have "run_state ?rest (advance w) = (r, w')"
        using run by (auto simp: Logout_def run_time_Now Let_def run_ok)
      then have "?R (advance w) w'" by (rule effectD [OF rest])
      then show ?thesis using tick preorder_keeps_bar unfolding preorder_rel_def by blast
    qed
  qed
  then show ?thesis unfolding effect_def by (metis prod.collapse)
qed

lemma perform_keeps_bar:
  assumes "\<not> shortens jti exp op"
  shows "effect (keeps_bar view elapse jti (exp - millis)) (perform L (app_auth L P c M cfg) op)"
proof (cases op)
  case (OpLogout u sid j e raw ip ua)
  show ?thesis
  proof (cases "j = jti")
    case True
    with OpLogout assms show ?thesis by (auto intro!: effect_finish Logout_keeps_bar)
  next
    case False
    with OpLogout show ?thesis by (auto intro!: effect_keeps_bar effect_finish service_frames)
  qed
qed (auto intro!: effect_keeps_bar effect_finish service_frames store_frames keep_intros)

lemma runs_keep_bar:
  assumes "runs L (app_auth L P c M cfg) w ops w'" "\<forall>op \<in> set ops. \<not> shortens jti exp op"
  shows "keeps_bar view elapse jti (exp - millis) w w'"
  using runs_effect [OF assms(1) preorder_keeps_bar] perform_keeps_bar assms(2) by blast

end

end
