(* ===== verification/Guarantees.thy ===== *)
theory Guarantees
  imports System
begin

text \<open>
  What holds across several operations of the running system: a logged-out access token stays
  refused and failed logins lock the account, proved inside \<open>redis_server\<close> over any server that
  keeps its contract; spent refresh and one-time tokens stay refused, proved over the interfaces
  of the repositories.
\<close>

lemma runs_exists: "\<exists>w'. runs L s w ops w'"
proof (induction ops rule: rev_induct)
  case Nil
  show ?case by (blast intro: runs.start)
next
  case (snoc op ops)
  then obtain w1 where "runs L s w ops w1" by blast
  then show ?case using runs.operate [of L s w ops w1 op] by (metis surj_pair)
qed

lemma schema_after:
  "effect (pg_rel (db_step P)) m \<Longrightarrow> run_state m w = (r, w') \<Longrightarrow> schema_ok P (w_pg w) \<Longrightarrow> schema_ok P (w_pg w')"
  by (drule (1) effectD) (simp add: pg_rel_def db_step_def)

subsection \<open>One-time tokens\<close>

text \<open>Over any interleaving of calls with other steps a token is consumed once.\<close>

context single_use
begin

lemma calls_once:
  assumes "calls (OneTime_Consume R h) other w rs w'" "inv w"
    and "\<And>w1 w2. other w1 w2 \<Longrightarrow> later_state w1 w2 \<and> (inv w1 \<longrightarrow> inv w2)"
    and "effect (\<lambda>w1 w2. later_state w1 w2 \<and> (inv w1 \<longrightarrow> inv w2)) (OneTime_Consume R h)"
  shows "inv w' \<and> ((\<exists>r \<in> set rs. \<not> isl r) \<longrightarrow> spent w' h) \<and> length (filter (\<lambda>r. \<not> isl r) rs) \<le> 1"
  using assms(1)
proof (induction rule: calls.induct)
  case none
  from assms(2) show ?case by simp
next
  case (again rs w1 w2 r w3)
  have step: "later_state w1 w2" "inv w2" "later_state w2 w3" "inv w3"
    using assms(3) [OF again.hyps(2)] effectD [OF assms(4) again.hyps(3)] again.IH by blast+
  show ?case
  proof (cases "isl r")
    case True
    have "spent w3 h" if "spent w1 h" using that spent_later step(1,3) by blast
    with True step(4) again.IH show ?thesis by auto
  next
    case False
    then obtain u where u: "r = Inr u" by (cases r) auto
    have "\<not> spent w2 h" using spent_refused [OF step(2), of h u] again.hyps(3) u by auto
    with again.IH spent_later [OF _ step(1)] have "\<forall>x \<in> set rs. isl x" by blast
    then have "filter (\<lambda>r. \<not> isl r) rs = []" by (simp add: filter_empty_conv)
    with consume_spends [OF step(2) again.hyps(3) [unfolded u]] step(4) u show ?thesis by simp
  qed
qed

text \<open>A spent token is refused by the operations that take it.\<close>

lemma reset_refused:
  assumes "svc_resets s = R" "inv w" "spent w (token_Hash (lib_C L) (in_Token (reset_TokenInput i)))"
  shows "\<exists>e. fst (run_state (ResetPassword L s i) w) = Inl e"
proof -
  let ?h = "token_Hash (lib_C L) (in_Token (reset_TokenInput i))"
  obtain a w1 where a: "run_state (OneTime_Consume R ?h) w = (a, w1)" by fastforce
  with spent_refused [OF assms(2,3)] obtain e where "a = Inl e" by (cases a) auto
  with a assms(1) show ?thesis
    by (cases "requireInput (lib_T L) (lib_U L) (reset_fields i)")
      (simp_all add: ResetPassword_def require_input_def run_simps)
qed

lemma verify_refused:
  assumes "svc_verify s = R" "inv w" "spent w (token_Hash (lib_C L) (in_Token i))"
  shows "\<exists>e. fst (run_state (VerifyEmail L s i) w) = Inl e"
proof -
  obtain a w1 where a: "run_state (OneTime_Consume R (token_Hash (lib_C L) (in_Token i))) w = (a, w1)" by fastforce
  with spent_refused [OF assms(2,3)] obtain e where "a = Inl e" by (cases a) auto
  with a assms(1) show ?thesis
    by (cases "requireInput (lib_T L) (lib_U L) (token_fields i)")
      (simp_all add: VerifyEmail_def require_input_def run_simps)
qed

end

text \<open>When the database answers, a usable token is consumed on behalf of its owner.\<close>

lemma Consume_succeeds:
  assumes "healthy w" "schema_ok P (w_pg w)" "r \<in> set (onetime_rows tab (w_pg w))"
    and "usable h (w_clock (advance w)) r"
  shows "run_state (OneTimeRepo_Consume tab h) w = (Inr (o_user r), (advance w)\<lparr>w_pg :=
    snd (consume_onetime tab h (w_clock (advance w)) (uuid_at (w_env w) (w_ticks w)) (w_pg w))\<rparr>)"
proof -
  have "find (usable h (w_clock (advance w))) (onetime_rows tab (w_pg w)) = Some r"
  proof (rule find_unique)
    fix y
    assume y: "y \<in> set (onetime_rows tab (w_pg w))" "usable h (w_clock (advance w)) y"
    have "distinct (map o_hash (onetime_rows tab (w_pg w)))"
      using schema_ok_rows [OF assms(2)] by (simp add: onetime_ok_def)
    then show "y = r" by (rule distinct_map_inj) (use y assms(3,4) in \<open>auto simp: usable_def\<close>)
  qed (use assms in auto)
  then show ?thesis
    by (simp add: OneTimeRepo_Consume_def run_pg_stmt_healthy assms(1) consume_onetime_def)
qed

lemma consume_users [simp]: "tb_users (snd (consume_onetime tab h now nid d)) = tb_users d"
  by (cases tab) (simp_all add: consume_onetime_def)

lemma update_succeeds:
  assumes "healthy w" "u \<in> set (tb_users (w_pg w))" "live_id uid u"
  shows "\<exists>w'. run_state (or_return (pg_stmt (update_user uid f)) (\<lambda>n. guard_err (n = 0) ErrNotFound (ok ()))) w = (Inr (), w')"
  using assms by (auto simp: run_simps run_pg_stmt_healthy update_user_def filter_empty_conv)

lemma VerifyEmail_succeeds:
  assumes "healthy w" "schema_ok P (w_pg w)" "requireInput (lib_T L) (lib_U L) (token_fields i) = Inr ()"
    and "r \<in> set (tb_verify (w_pg w))" "usable (token_Hash (lib_C L) (in_Token i)) (w_clock (advance w)) r"
    and "u \<in> set (tb_users (w_pg w))" "live_id (o_user r) u"
  shows "fst (run_state (VerifyEmail L (app_auth L P c M cfg) i) w) = Inr ()"
proof -
  have r: "r \<in> set (onetime_rows EmailVerifications (w_pg w))" using assms(4) by simp
  note c = Consume_succeeds [OF assms(1,2) r assms(5)]
  let ?w1 = "snd (run_state (OneTimeRepo_Consume EmailVerifications (token_Hash (lib_C L) (in_Token i))) w)"
  have "healthy ?w1" "u \<in> set (tb_users (w_pg ?w1))" using assms(1,6) c by simp_all
  then have "\<exists>w'. run_state (UserRepo_MarkEmailVerified (o_user r)) ?w1 = (Inr (), w')"
    unfolding UserRepo_MarkEmailVerified_def using assms(7) by (rule update_succeeds)
  then show ?thesis using c assms(3) by (auto simp: VerifyEmail_def require_input_def run_simps)
qed

lemma ResetPassword_succeeds:
  assumes "healthy w" "schema_ok P (w_pg w)" "requireInput (lib_T L) (lib_U L) (reset_fields i) = Inr ()"
    and "r \<in> set (tb_resets (w_pg w))"
    and "usable (token_Hash (lib_C L) (in_Token (reset_TokenInput i))) (w_clock (advance w)) r"
    and "u \<in> set (tb_users (w_pg w))" "live_id (o_user r) u"
    and hash: "\<And>n. \<exists>h. bcrypt_Generate (lib_C L) n (reset_NewPassword i) (sec_BcryptCost (cfg_Security cfg)) = Inr h \<and> length h \<le> 255"
  shows "fst (run_state (ResetPassword L (app_auth L P c M cfg) i) w) = Inr ()"
proof -
  have r: "r \<in> set (onetime_rows PasswordResets (w_pg w))" using assms(4) by simp
  note c = Consume_succeeds [OF assms(1,2) r assms(5)]
  let ?w1 = "snd (run_state (OneTimeRepo_Consume PasswordResets (token_Hash (lib_C L) (in_Token (reset_TokenInput i)))) w)"
  obtain h where h: "bcrypt_Generate (lib_C L) (w_ticks ?w1) (reset_NewPassword i) (sec_BcryptCost (cfg_Security cfg)) = Inr h"
    "length h \<le> 255"
    using hash by blast
  have same: "update_password (o_user r) h = update_user (o_user r) (\<lambda>now u. u\<lparr>u_hash := h, u_updated := now\<rparr>)"
    using varchar_le [OF h(2)] by (intro ext) (simp add: update_password_def)
  have "healthy (advance ?w1)" "u \<in> set (tb_users (w_pg (advance ?w1)))" using assms(1,6) c by simp_all
  then have "\<exists>w'. run_state (UserRepo_UpdatePassword (o_user r) h) (advance ?w1) = (Inr (), w')"
    unfolding UserRepo_UpdatePassword_def same using assms(7) by (rule update_succeeds)
  then show ?thesis using c h(1) assms(3) by (auto simp: ResetPassword_def require_input_def run_simps)
qed

lemma ResetPassword_spent:
  assumes "schema_ok P (w_pg w)" "used_hash (token_Hash (lib_C L) (in_Token (reset_TokenInput i))) (tb_resets (w_pg w))"
  shows "\<exists>e. fst (run_state (ResetPassword L (app_auth L P c M cfg) i) w) = Inl e"
  by (rule resets.reset_refused [OF _ assms]) simp

lemma VerifyEmail_spent:
  assumes "schema_ok P (w_pg w)" "used_hash (token_Hash (lib_C L) (in_Token i)) (tb_verify (w_pg w))"
  shows "\<exists>e. fst (run_state (VerifyEmail L (app_auth L P c M cfg) i) w) = Inl e"
  by (rule verify.verify_refused [OF _ assms]) simp

lemma runs_used:
  "runs L (app_auth L P c M cfg) w ops w' \<Longrightarrow> used_hash h (tb_resets (w_pg w)) \<Longrightarrow> used_hash h (tb_resets (w_pg w'))"
  "runs L (app_auth L P c M cfg) w ops w' \<Longrightarrow> used_hash h (tb_verify (w_pg w)) \<Longrightarrow> used_hash h (tb_verify (w_pg w'))"
  by (rule resets.spent_later verify.spent_later, assumption, simp add: pg_rel_def runs_evolves)+

context redis_server
begin

lemma frameD:
  assumes "redis_frame view elapse K w w'" "w_wait w = elapse"
  shows "w_wait w' = elapse" "w_clock w \<le> w_clock w'"
  using assms by (auto simp: redis_frame_def)

subsection \<open>Logout\<close>

text \<open>The steps of \<open>Logout\<close> after the blacklist was written leave the entry alone.\<close>

lemma Logout_bars:
  assumes "w_wait w = elapse" "jti \<noteq> []" "w_clock (advance w) < exp"
    and add: "run_state (Blacklist_add c jti (exp - w_clock (advance w))) (advance w) = (Inr u, wb)"
    and run: "run_state (Logout L (app_auth L P c M cfg) uid sid jti exp raw ip ua) w = (r, w1)"
  obtains e where "until view w1 (keyBlacklist jti) e" "exp - millis < e" "w_wait w1 = elapse"
proof -
  let ?s = "app_auth L P c M cfg" and ?R = "redis_frame view elapse {keyBlacklist jti}"
  let ?rest = "do {
     _ \<leftarrow> (if raw \<noteq> [] then Revoke (svc_refresh ?s) (token_Hash (lib_C L) raw) else ok ());
     ignoring (Session_Delete (svc_sessions ?s) sid uid)
     (ignoring (logAudit L ?s (Some uid) ''auth.logout'' ip ua None)
     (ok ())) } :: ('r svc_world, unit) call"
  have wt: "w_wait (advance w) = elapse" using assms(1) by simp
  obtain e where e: "until view wb (keyBlacklist jti) e" "w_clock wb + (exp - w_clock (advance w)) - millis < e"
    using blacklist_adds [OF wt add] assms(3) by auto
  have wb: "w_wait wb = elapse" "w_clock (advance w) \<le> w_clock wb"
    using redis_step_time [OF wt add [unfolded Blacklist_add_def]] by simp_all
  have "run_state ?rest wb = (r, w1)"
    using run add assms(2,3) by (simp add: Logout_def run_time_Now Let_def)
  moreover have "effect ?R ?rest"
    unfolding wired_simps by (auto intro!: keep_intros store_frames)
  ultimately have f: "?R wb w1" by (blast dest: effectD)
  have "until view w1 (keyBlacklist jti) e" using until_frame(1) [OF f wb(1) _ e(1)] by simp
  with that [of e] e(2) wb(2) frameD(1) [OF f wb(1)] show thesis by simp
qed

lemma barred_refused:
  assumes "w_wait w = elapse" "until view w (keyBlacklist (claim_ID claims)) e"
    and "run_state (jwt_ParseAccess (lib_J L) (jwt_NewService (cfg_JWT cfg)) tok) w = (Inr claims, w1)"
    and "run_state (ParseAccess L (app_auth L P c M cfg) tok) w = (res, w2)" "w_clock w2 < e"
  shows "res = Inl ErrUnauthorized"
  using assms(4)
proof (cases rule: ParseAccess_cases)
  case (2 claims' w1')
  with assms(3) have eq: "claims' = claims" "w1' = w1" by simp_all
  have f: "redis_frame view elapse {keyBlacklist (claim_ID claims)} w w1"
    using effectD [OF library_frames(4) assms(3)] .
  have "until view w1 (keyBlacklist (claim_ID claims)) e" using until_frame(1) [OF f assms(1) _ assms(2)] by simp
  with blacklist_exists [OF frameD(1) [OF f assms(1)] this _ assms(5), of False] 2(3) eq
  show ?thesis by simp
qed

lemma logged_out:
  assumes "w_wait w = elapse" "jti \<noteq> []" "w_clock (advance w) < exp"
    and "run_state (Blacklist_add c jti (exp - w_clock (advance w))) (advance w) = (Inr u, wb)"
    and "run_state (Logout L (app_auth L P c M cfg) uid sid jti exp raw ip ua) w = (r, w1)"
    and ops: "runs L (app_auth L P c M cfg) w1 ops w2" "\<forall>op \<in> set ops. \<not> shortens jti exp op"
    and tok: "\<And>claims w'. run_state (jwt_ParseAccess (lib_J L) (jwt_NewService (cfg_JWT cfg)) tok) w2 = (Inr claims, w')
      \<Longrightarrow> claim_ID claims = jti"
    and parse: "run_state (ParseAccess L (app_auth L P c M cfg) tok) w2 = (res, w3)" "w_clock w3 \<le> exp - millis"
  shows "res = Inl ErrUnauthorized"
proof -
  obtain e where e: "until view w1 (keyBlacklist jti) e" "exp - millis < e" "w_wait w1 = elapse"
    by (rule Logout_bars [OF assms(1-5)])
  have "barred view w1 jti (exp - millis)" using e(1,2) unfolding barred_def by blast
  with runs_keep_bar [OF ops] e(3) have k: "w_wait w2 = elapse" "barred view w2 jti (exp - millis)"
    unfolding keeps_bar_def by blast+
  then obtain e2 where u: "until view w2 (keyBlacklist jti) e2" "exp - millis < e2" unfolding barred_def by blast
  show ?thesis
    using parse(1)
  proof (cases rule: ParseAccess_cases)
    case (2 claims w')
    then have p: "run_state (jwt_ParseAccess (lib_J L) (jwt_NewService (cfg_JWT cfg)) tok) w2 = (Inr claims, w')" by simp
    have "until view w2 (keyBlacklist (claim_ID claims)) e2" using u(1) tok [OF p] by simp
    from barred_refused [OF k(1) this p parse(1)] parse(2) u(2) show ?thesis by simp
  qed
qed

subsection \<open>Rate limits\<close>

lemma frame_other:
  assumes "redis_frame view elapse {k} u v" "w_wait u = elapse"
  shows "w_wait v = elapse \<and> w_clock u \<le> w_clock v \<and> (counted view u k i e \<longrightarrow> counted view v k i e)"
  using frameD [OF assms] until_frame(2) [OF assms] by blast

lemma rate_respected:
  assumes "w_wait w = elapse" "absent view w (keyRateLimit k)"
    and "run_state (RateLimiter_Allow c k n d) w = (Inr b, w1)"
    and "calls (RateLimiter_Allow c k n d) (redis_frame view elapse {keyRateLimit k}) w1 rs w2"
    and "w_clock w2 < w_clock w1 + script_secs d * nanos"
  shows "int (length (filter (\<lambda>r. r = Inr True) (Inr b # rs))) \<le> max 0 n"
  by (rule rl.at_most_limit [of w k n d b w1 "redis_frame view elapse {keyRateLimit k}" rs w2])
    (use assms frame_other in \<open>simp_all add: redis_store_simps\<close>)

subsection \<open>Lockout\<close>

lemma locked_out:
  assumes "w_wait w = elapse" "absent view w (keyLoginFail k)"
    and "run_state (Lockout_RecordFailure c k m d) w = (Inr u, w1)"
    and "calls (Lockout_RecordFailure c k m d) (redis_frame view elapse {keyLoginFail k}) w1 rs w2"
    and "\<forall>r \<in> set rs. \<exists>u. r = Inr u"
    and "redis_frame view elapse {keyLoginFail k} w2 w3"
    and "run_state (Lockout_RecordFailure c k m d) w3 = (Inr v, w4)"
    and "m \<le> 2 + int (length rs)" "0 < d" "w_clock w4 < w_clock w + script_secs d * nanos"
    and w4: "redis_frame view elapse {keyLockout k} w4 w5"
    and input: "requireInput (lib_T L) (lib_U L) (login_fields i) = Inr ()" "normEmail L (login_Email i) = k"
    and run: "run_state (Lockout_IsLocked c k) w5 = (q, w6)" "w_clock w6 \<le> w_clock w4 + d - millis"
  shows "fst (run_state (Login L (app_auth L P c M cfg) i ip ua) w5) =
    (case q of Inl e \<Rightarrow> Inl e | Inr _ \<Rightarrow> Inl ErrAccountLocked)"
proof -
  have "\<exists>e. until view w4 (keyLockout k) e \<and> w_clock w4 + d - millis < e"
    by (rule lo.locks_at_limit [of w k m d u w1 "redis_frame view elapse {keyLoginFail k}" rs w2 w3 v w4])
      (use assms frame_other in \<open>simp_all add: redis_store_simps\<close>)
  then obtain e where e: "until view w4 (keyLockout k) e" "w_clock w4 + d - millis < e" by blast
  have w3: "w_wait w3 = elapse"
  proof -
    have f1: "effect (redis_frame view elapse {}) (Lockout_RecordFailure c k m d)" by (rule store_frames) simp_all
    have "w_wait w1 = elapse" using store_inv [OF f1 assms(1,3)] by simp
    with assms(4) have "w_wait w2 = elapse"
    proof (induction rule: calls.induct)
      case (again rs w1 w2 r w3)
      then show ?case using frameD(1) store_inv [OF f1] by blast
    qed simp
    with frameD(1) [OF assms(6)] show ?thesis by simp
  qed
  have "effect (redis_frame view elapse {}) (Lockout_RecordFailure c k m d)" by (rule store_frames) simp_all
  from store_inv [OF this w3 assms(7)] have wt: "w_wait w4 = elapse" by simp
  have u5: "until view w5 (keyLockout k) e" using until_frame(1) [OF w4 wt _ e(1)] by simp
  show ?thesis
  proof (cases q)
    case (Inl err)
    with run(1) input show ?thesis by (simp add: Login_def require_input_def run_simps Let_def)
  next
    case (Inr b)
    from locked_check [OF frameD(1) [OF w4 wt] u5 run(1) [unfolded Inr]] run(2) e(2) have b by simp
    with Login_locked [of L i "app_auth L P c M cfg" w5 w6] input run(1) Inr show ?thesis by simp
  qed
qed

end

end
