(* ===== verification/Samples.thy ===== *)
theory Samples
  imports Wiring
begin

text \<open>
  Concrete instances of the parameters of the model, on which the theorems are evaluated: simple
  functions that satisfy the specifications of the libraries, the in-memory Redis server, and a
  world in which every remote call succeeds and no time passes unless it is said to. UUIDs are
  drawn as the interaction number, so they never collide.
\<close>

definition ex_crypto :: crypto_lib where
  "ex_crypto = \<lparr>sha256_Sum = \<lambda>s. take 32 (s @ replicate 32 (CHR ''.'')),
     bcrypt_Generate = \<lambda>n p cost. if 72 < length p then Inl (ErrOther ''bcrypt'') else Inr (CHR ''$'' # p),
     bcrypt_Compare = \<lambda>h p. if h = CHR ''$'' # p then None else Some (ErrOther ''mismatch'')\<rparr>"

text \<open>A UUID as a row of letters, which parses back.\<close>

definition ex_uuid :: uuid_lib where
  "ex_uuid = \<lparr>uuid_String = \<lambda>u. replicate (unat u) (CHR ''x''), uuid_Parse = \<lambda>s. Some (of_nat (length s))\<rparr>"

definition ex_validator :: validator_lib where
  "ex_validator = \<lparr>tag_required = \<lambda>s. s \<noteq> [], tag_email = \<lambda>s. CHR ''@'' \<in> set s,
     tag_max = \<lambda>n s. length (runes s) \<le> n, tag_min = \<lambda>n s. n \<le> length (runes s),
     tag_len = \<lambda>n s. length (runes s) = n,
     tag_hexadecimal = \<lambda>s. s \<noteq> [] \<and> (\<forall>c \<in> set s. is_hex_digit c)\<rparr>"

definition ex_url_parse :: "string \<Rightarrow> url option" where
  "ex_url_parse s = (if has_prefix s ''https://''
     then Some \<lparr>Scheme = ''https'', Host = takeWhile (\<lambda>c. c \<noteq> CHR ''/'') (drop 8 s), RawQuery = [],
       url_Rest = dropWhile (\<lambda>c. c \<noteq> CHR ''/'') (drop 8 s)\<rparr>
     else None)"

definition ex_url :: url_lib where
  "ex_url = \<lparr>url_Parse = ex_url_parse,
     url_String = \<lambda>u. Scheme u @ ''://'' @ Host u @ url_Rest u @ (if RawQuery u = [] then [] else CHR ''?'' # RawQuery u),
     url_Assemble = \<lambda>sch us h p q. sch @ ''://'' @ h @ ''/'' @ p @ ''?'' @ q\<rparr>"

text \<open>A JWT library for one set of claims under one key.\<close>

definition ex_jwt :: "string \<Rightarrow> Claims \<Rightarrow> jwt_lib" where
  "ex_jwt key0 c0 =
     \<lparr>SignedString = \<lambda>alg key c. if alg = ''HS256'' \<and> key = key0 \<and> c = c0 then Inr ''token'' else Inl (ErrOther ''sign''),
      ParseWithClaims = \<lambda>tok kf ms iss now.
        (if tok = ''token'' \<and> ''HS256'' \<in> set ms \<and> kf ''HS256'' = Inr key0 \<and> iss = claim_Issuer c0 \<and>
            (case claim_ExpiresAt c0 of None \<Rightarrow> True | Some e \<Rightarrow> now < e)
         then Inr (c0, True) else Inl (ErrOther ''token'')),
      genuine = \<lambda>alg key tok c. alg = ''HS256'' \<and> key = key0 \<and> tok = ''token'' \<and> c = c0\<rparr>"

definition ex_libs :: "string \<Rightarrow> Claims \<Rightarrow> libs" where
  "ex_libs key c0 = \<lparr>lib_U = latin1, lib_T = ex_validator, lib_C = ex_crypto, lib_V = ex_uuid,
     lib_W = ex_url, lib_J = ex_jwt key c0, lib_json = \<lambda>_. Some ''{}''\<rparr>"

definition ex_pg :: pg_lib where
  "ex_pg = \<lparr>sql_LOWER = map lower_byte, agg_DISTINCT = remdups,
     text_ok = \<lambda>s. valid_utf8 s \<and> char_of (0::nat) \<notin> set s, inet_ok = \<lambda>s. s = ''127.0.0.1''\<rparr>"

definition ex_dto :: "sessionDTO \<Rightarrow> err + string" where
  "ex_dto d = Inr ''{}''"

definition ex_bytes :: "nat \<Rightarrow> nat \<Rightarrow> char" where
  "ex_bytes n i = char_of ((n + i) mod 256)"

definition ex_env :: env where
  "ex_env = \<lparr>fate_at = \<lambda>_. Done, delay_at = \<lambda>_. 0, rnd_at = \<lambda>n. Some (ex_bytes n), uuid_at = of_nat\<rparr>"

text \<open>A Redis client without a server: every command succeeds, and no key is ever set.\<close>

definition ex_client :: "unit Client" where
  "ex_client = \<lparr>c_Set = \<lambda>_ _ _. ok (), c_SetNX = \<lambda>_ _ _. ok True, c_Get = \<lambda>_. fail RedisNil,
     c_Exists = \<lambda>_. ok 0, c_Del = \<lambda>_. ok 0, c_SAdd = \<lambda>_ _. ok 1, c_SRem = \<lambda>_ _. ok 0,
     c_SMembers = \<lambda>_. ok [], c_Expire = \<lambda>_ _. ok True, s_INCR = \<lambda>_. ok 1, s_EXPIRE = \<lambda>_ _. ok 1,
     c_Script = \<lambda>m. m\<rparr>"

text \<open>The world after \<open>n\<close> interactions, at time 0.\<close>

definition ex_world :: "nat \<Rightarrow> tables \<Rightarrow> unit svc_world" where
  "ex_world n d = \<lparr>w_env = ex_env, w_ticks = n, w_clock = 0, w_pg = d, w_redis = (),
     w_wait = \<lambda>_ _. (), w_outbox = []\<rparr>"

definition ex_config :: Config where
  "ex_config = default_config
     \<lparr>cfg_JWT := (cfg_JWT default_config)\<lparr>jwt_AccessSecret := replicate 32 (CHR ''k'')\<rparr>,
      cfg_Email := (cfg_Email default_config)\<lparr>email_VerifyLinkBase := ''https://app/verify'',
        email_ResetLinkBase := ''https://app/reset''\<rparr>\<rparr>"

definition ex_user :: user_row where
  "ex_user = \<lparr>u_id = 1, u_email = ''a@b.c'', u_hash = ''$correct horse'', u_verified = False,
     u_active = True, u_created = 0, u_updated = 0, u_deleted = None\<rparr>"

definition ex_refresh :: "string \<Rightarrow> refresh_row" where
  "ex_refresh raw = \<lparr>t_id = 2, t_user = 1, t_session = 3, t_hash = token_Hash ex_crypto raw, t_family = 4,
     t_expires = hour, t_revoked = None, t_created = 0\<rparr>"

definition ex_onetime :: "string \<Rightarrow> onetime_row" where
  "ex_onetime raw = \<lparr>o_id = 5, o_user = 1, o_hash = token_Hash ex_crypto raw, o_expires = hour,
     o_used = None, o_created = 0\<rparr>"

definition ex_token :: string where "ex_token = replicate 64 (CHR ''a'')"

definition ex_tables :: tables where
  "ex_tables = \<lparr>tb_roles = [(7, ''user'')], tb_permissions = [(8, ''read_profile'')],
     tb_role_permissions = [(7, 8)], tb_users = [ex_user], tb_user_roles = [(1, 7)],
     tb_refresh = [ex_refresh ex_token], tb_resets = [ex_onetime ex_token],
     tb_verify = [ex_onetime ex_token], tb_audit = []\<rparr>"

text \<open>The claims of the access token for the sample user in session \<open>sid\<close>, issued at time 0.\<close>

definition ex_claims :: "uuid \<Rightarrow> uuid \<Rightarrow> Claims" where
  "ex_claims sid jti = access_claims ex_uuid (jwt_NewService (cfg_JWT ex_config))
     \<lparr>iss_UserID = 1, iss_Email = ''a@b.c'', iss_Role = ''user'', iss_Permissions = [''read_profile''],
      iss_SessionID = sid\<rparr> 0 jti"

definition ex_key :: string where "ex_key = replicate 32 (CHR ''k'')"

definition ex_auth :: "Claims \<Rightarrow> unit svc_world AuthService" where
  "ex_auth c0 = app_auth (ex_libs ex_key c0) ex_pg ex_client ex_dto ex_config"

definition is_ok :: "(err + 'a) \<times> 'w \<Rightarrow> bool" where
  "is_ok r \<longleftrightarrow> (case fst r of Inl _ \<Rightarrow> False | Inr _ \<Rightarrow> True)"

abbreviation exL :: "Claims \<Rightarrow> libs" where "exL c0 \<equiv> ex_libs ex_key c0"

subsection \<open>Running the samples\<close>

lemma ex_world_simps [simp]:
  "w_env (ex_world n d) = ex_env" "w_ticks (ex_world n d) = n" "w_clock (ex_world n d) = 0"
  "w_pg (ex_world n d) = d" "w_outbox (ex_world n d) = []"
  "(ex_world n d)\<lparr>w_pg := d'\<rparr> = ex_world n d'" "(ex_world n d)\<lparr>w_redis := r\<rparr> = ex_world n d"
  "advance (ex_world n d) = ex_world (Suc n) d" "healthy (ex_world n d)"
  by (simp_all add: ex_world_def advance_def ex_env_def healthy_def)

lemma ex_env_simps [simp]: "uuid_at ex_env n = of_nat n" "rnd_at ex_env n = Some (ex_bytes n)" "delay_at ex_env n = 0"
  by (simp_all add: ex_env_def)

named_theorems ex_run "running the sample service"

lemmas ex_steps [ex_run] = run_simps run_pg_stmt_healthy run_pg_query_healthy queued_def
  redis_store_defs runIncrExpire_def incrWithExpire_def

lemma ex_client_simps [ex_run]:
  "c_Set ex_client k v d = ok ()" "c_Exists ex_client k = ok 0" "c_Del ex_client k = ok 0"
  "c_SAdd ex_client k m = ok 1" "c_SRem ex_client k m = ok 0" "c_SMembers ex_client k = ok []"
  "c_Expire ex_client k d = ok True" "s_INCR ex_client k = ok 1" "s_EXPIRE ex_client k n = ok 1"
  "c_Script ex_client body = body"
  by (simp_all add: ex_client_def)

lemma ex_libs_simps [simp]:
  "lib_U (ex_libs key c0) = latin1" "lib_T (ex_libs key c0) = ex_validator" "lib_C (ex_libs key c0) = ex_crypto"
  "lib_V (ex_libs key c0) = ex_uuid" "lib_W (ex_libs key c0) = ex_url" "lib_J (ex_libs key c0) = ex_jwt key c0"
  by (simp_all add: ex_libs_def)

lemma ex_tables_simps [simp]:
  "tb_roles ex_tables = [(7, ''user'')]" "tb_permissions ex_tables = [(8, ''read_profile'')]"
  "tb_role_permissions ex_tables = [(7, 8)]" "tb_users ex_tables = [ex_user]"
  "tb_user_roles ex_tables = [(1, 7)]" "tb_refresh ex_tables = [ex_refresh ex_token]"
  "tb_resets ex_tables = [ex_onetime ex_token]" "tb_verify ex_tables = [ex_onetime ex_token]"
  "tb_audit ex_tables = []"
  by (simp_all add: ex_tables_def)

lemma ex_rows_simps [simp]:
  "u_id ex_user = 1" "u_email ex_user = ''a@b.c''" "u_hash ex_user = ''$correct horse''"
  "u_active ex_user" "u_deleted ex_user = None"
  "t_id (ex_refresh raw) = 2" "t_user (ex_refresh raw) = 1" "t_session (ex_refresh raw) = 3"
  "t_hash (ex_refresh raw) = token_Hash ex_crypto raw" "t_family (ex_refresh raw) = 4"
  "t_expires (ex_refresh raw) = hour" "t_revoked (ex_refresh raw) = None"
  "o_id (ex_onetime raw) = 5" "o_user (ex_onetime raw) = 1"
  "o_hash (ex_onetime raw) = token_Hash ex_crypto raw" "o_expires (ex_onetime raw) = hour"
  "o_used (ex_onetime raw) = None"
  by (simp_all add: ex_user_def ex_refresh_def ex_onetime_def)

lemma ex_pg_simps [simp]:
  "sql_LOWER ex_pg = map lower_byte" "agg_DISTINCT ex_pg = remdups" "inet_ok ex_pg s = (s = ''127.0.0.1'')"
  by (simp_all add: ex_pg_def)

lemma ex_token_simps [simp]: "ex_token \<noteq> []" "token_shape ex_token" "0 < hour"
  by (auto simp: ex_token_def token_shape_def is_hex_digit_def ascii_digit_def hour_def)

lemma ex_sha256_spec: "sha256_spec ex_crypto"
  by (auto simp: sha256_spec_def ex_crypto_def min_def)

lemma ex_varchars [simp]:
  "varchar 64 (token_Hash ex_crypto t)" "varchar 50 ''user''" "varchar 100 ''read_profile''"
  "varchar 255 ''a@b.c''" "varchar 255 ''n@b.c''" "varchar 255 ''$correct horse''" "varchar 255 ''$battery staple''"
  using token_Hash_shape [OF ex_sha256_spec, of t] by (auto simp: token_shape_def intro!: varchar_le)

lemma ex_schema [simp]: "schema_ok ex_pg ex_tables"
  by (simp add: schema_ok_def names_ok_def links_ok_def columns_ok_def live_users_def onetime_ok_def user_ids_def
      ex_tables_def ex_pg_def)

lemma ex_text [simp]: "text_ok ex_pg ''a@b.c''" "text_ok ex_pg ''n@b.c''"
proof -
  have "valid_utf8 ''a@b.c''" "valid_utf8 ''n@b.c''" by (rule valid_utf8_ascii; simp)+
  then show "text_ok ex_pg ''a@b.c''" "text_ok ex_pg ''n@b.c''" by (simp_all add: ex_pg_def char_of_def)
qed

lemma ex_dto_simp [simp]: "ex_dto x = Inr ''{}''"
  by (simp add: ex_dto_def)

lemma ex_sign [simp]:
  "SignedString (ex_jwt key c0) ''HS256'' key c0 = Inr ''token''"
  by (simp add: ex_jwt_def)

lemma ex_profile [ex_run]:
  assumes "tb_users d = [ex_user]" "tb_user_roles d = [(1, 7)]" "tb_roles d = [(7, ''user'')]"
    "tb_permissions d = [(8, ''read_profile'')]" "tb_role_permissions d = [(7, 8)]"
  shows "run_state (UserRepo_GetAuthProfile ex_pg 1) (ex_world n d) =
    (Inr \<lparr>prof_UserID = 1, prof_Email = ''a@b.c'', prof_Roles = [''user''],
       prof_Permissions = [''read_profile'']\<rparr>, ex_world (Suc n) d)"
  using assms by (simp add: UserRepo_GetAuthProfile_def run_pg_query_healthy live_id_def roles_of_def
      permissions_of_def)

text \<open>The random tokens of the samples differ from the token the tables start with.\<close>

definition ex_random :: "nat \<Rightarrow> string" where
  "ex_random n = hex_EncodeToString (map (ex_bytes n) [0..<32])"

lemma ex_random_run [ex_run]: "run_state (token_Random 32) (ex_world n d) = (Inr (ex_random n), ex_world (Suc n) d)"
  by (simp add: token_Random_def run_simps ex_random_def)

lemma ex_key_simps [simp]:
  "jwts_secret (jwt_NewService (cfg_JWT ex_config)) = ex_key"
  "cfg_Security ex_config = cfg_Security default_config" "\<not> email_Enabled (cfg_Email ex_config)"
  "email_VerifyLinkBase (cfg_Email ex_config) = ''https://app/verify''"
  "email_ResetLinkBase (cfg_Email ex_config) = ''https://app/reset''"
  "cfg_App ex_config = cfg_App default_config"
  by (simp_all add: jwt_NewService_def ex_config_def ex_key_def default_config_def)

lemma hd_ex_random: "hd (ex_random n) = hex_digit (n mod 256 div 16)"
proof -
  have "[0..<32] = 0 # [1..<32]" by (simp add: upt_rec)
  moreover have "byte (ex_bytes n 0) = n mod 256"
    unfolding ex_bytes_def by (rule trans [OF byte_char_of]) simp_all
  ultimately show ?thesis by (simp add: ex_random_def hex_EncodeToString_def hex_byte_def)
qed

lemma hd_hash: "s \<noteq> [] \<Longrightarrow> hd (sha256_Sum ex_crypto s) = hd s"
  by (cases s) (simp_all add: ex_crypto_def)

lemma ex_random_fresh [simp]:
  assumes "96 \<le> n" "n < 160"
  shows "token_Hash ex_crypto (ex_random n) \<noteq> token_Hash ex_crypto ex_token"
    "token_Hash ex_crypto ex_token \<noteq> token_Hash ex_crypto (ex_random n)"
proof -
  let ?k = "n mod 256 div 16"
  have k: "6 \<le> ?k" "?k < 10"
    using assms div_le_mono [of 96 n 16] by (simp_all add: less_mult_imp_div_less)
  have "byte (hex_digit ?k) < 58" using k byte_hex_digit [of ?k] by simp
  then have "hex_digit ?k \<noteq> CHR ''a''" by auto
  moreover have "ex_random n \<noteq> []" "ex_token \<noteq> []"
    using length_hex [of "map (ex_bytes n) [0..<32]"] by (auto simp: ex_random_def ex_token_def)
  ultimately have "sha256_Sum ex_crypto (ex_random n) \<noteq> sha256_Sum ex_crypto ex_token"
    using hd_hash [of "ex_random n"] hd_hash [of ex_token] hd_ex_random [of n]
    by (auto simp: ex_token_def)
  then show "token_Hash ex_crypto (ex_random n) \<noteq> token_Hash ex_crypto ex_token"
    "token_Hash ex_crypto ex_token \<noteq> token_Hash ex_crypto (ex_random n)"
    by (auto simp: token_Hash_eq)
qed

lemmas ex_repos [ex_run] = RefreshRepo_Save_def RefreshRepo_GetByHash_def RefreshRepo_GetRevokedFamily_def
  RefreshRepo_Revoke_def RefreshRepo_RevokeFamily_def RefreshRepo_RevokeAllForUser_def
  OneTimeRepo_Create_def OneTimeRepo_Consume_def UserRepo_GetByEmail_def UserRepo_scanOne_def
  UserRepo_UpdatePassword_def UserRepo_MarkEmailVerified_def insert_refresh_def revoke_where_def
  live_at_def row_record_def insert_onetime_def consume_onetime_def usable_def update_user_def update_password_def live_id_def
  by_email_def user_ids_def jwt_IssueAccess_def ex_claims_def [symmetric] Let_def ex_auth_def

lemma ex_audit [ex_run]: "run_state (AuditRepo_Log ex_pg e) (ex_world n d) =
    (fst (insert_audit ex_pg e 0 (of_nat n) d), ex_world (Suc n) (snd (insert_audit ex_pg e 0 (of_nat n) d)))"
  by (simp add: AuditRepo_Log_def run_pg_stmt_healthy case_prod_unfold)

end
