(* ===== verification/SampleRuns.thy ===== *)
theory SampleRuns
  imports System Samples
begin

text \<open>
  Runs of the operations on the concrete parameters of \<open>Samples\<close>, which show that the hypotheses
  of the theorems about successful runs can hold.
\<close>

definition run_ok :: "(unit svc_world, 'a) call \<Rightarrow> bool" where
  "run_ok m \<longleftrightarrow> (\<exists>x w'. run_state m (ex_world 100 ex_tables) = (Inr x, w'))"

lemma run_okE:
  assumes "run_ok m"
  obtains x w' where "run_state m (ex_world 100 ex_tables) = (Inr x, w')"
  using assms unfolding run_ok_def by blast

definition ex_login :: LoginInput where
  "ex_login = \<lparr>login_Email = ''A@b.c'', login_Password = ''correct horse''\<rparr>"

definition ex_reset :: ResetPasswordInput where
  "ex_reset = \<lparr>reset_TokenInput = \<lparr>in_Token = ex_token\<rparr>, reset_NewPassword = ''battery staple''\<rparr>"

definition ex_register :: RegisterInput where
  "ex_register = \<lparr>reg_Email = ''n@b.c'', reg_Password = ''correct horse''\<rparr>"

lemma ex_validator_spec: "validator_spec ex_validator"
  by (simp add: validator_spec_def ex_validator_def)

lemma ex_safe [simp]:
  "IsSafeText latin1 ''A@b.c''" "IsSafeText latin1 ''n@b.c''" "IsSafeText latin1 ''a@b.c''"
  by code_simp+

lemma ascii_runes: "is_ascii s \<Longrightarrow> length (runes s) = length s"
  by (simp add: runes_ascii is_ascii_def)

lemma ex_ascii [simp]: "is_ascii ''correct horse''" "is_ascii ''battery staple''" "is_ascii ''A@b.c''"
  "is_ascii ''n@b.c''" "is_ascii ''a@b.c''"
  by (simp_all add: is_ascii_def)

lemma ex_lower: "map lower_byte ''A@b.c'' = ''a@b.c''" "map lower_byte ''n@b.c'' = ''n@b.c''"
    "map lower_byte ''a@b.c'' = ''a@b.c''"
  by code_simp+

lemma ex_lower_bytes: "lower_byte (CHR ''n'') = CHR ''n''" "lower_byte (CHR ''a'') = CHR ''a''"
    "lower_byte (CHR ''@'') = CHR ''@''" "lower_byte (CHR ''b'') = CHR ''b''"
    "lower_byte (CHR ''.'') = CHR ''.''" "lower_byte (CHR ''c'') = CHR ''c''"
  using ex_lower by simp_all

lemma ex_input_fields [simp]:
  "login_Email ex_login = ''A@b.c''" "login_Password ex_login = ''correct horse''"
  "reg_Email ex_register = ''n@b.c''" "reg_Password ex_register = ''correct horse''"
  "in_Token (reset_TokenInput ex_reset) = ex_token" "reset_NewPassword ex_reset = ''battery staple''"
  by (simp_all add: ex_login_def ex_register_def ex_reset_def)

lemma ex_by_email [simp]: "by_email ex_pg ''a@b.c'' ex_user"
  by (simp add: by_email_def)

lemma ex_row_user [simp]:
  "user_ID (row_user ex_user) = 1" "user_Email (row_user ex_user) = ''a@b.c''" "user_IsActive (row_user ex_user)"
  "user_PasswordHash (row_user ex_user) = ''$correct horse''"
  by (simp_all add: row_user_def)

lemma ex_norm [simp]: "normEmail (exL c0) ''A@b.c'' = ''a@b.c''" "normEmail (exL c0) ''n@b.c'' = ''n@b.c''"
    "normEmail (exL c0) ''a@b.c'' = ''a@b.c''"
proof -
  have "TrimSpace ''A@b.c'' = ''A@b.c''" "TrimSpace ''n@b.c'' = ''n@b.c''" "TrimSpace ''a@b.c'' = ''a@b.c''"
    by (rule TrimSpace_id; simp add: IsSpace_def)+
  then show "normEmail (exL c0) ''A@b.c'' = ''a@b.c''" "normEmail (exL c0) ''n@b.c'' = ''n@b.c''"
    "normEmail (exL c0) ''a@b.c'' = ''a@b.c''"
    by (simp_all only: normEmail_def ex_libs_simps ToLower_ascii ex_ascii ex_lower)
qed

lemma ex_inputs [simp]:
  "requireInput ex_validator latin1 (login_fields ex_login) = Inr ()"
  "requireInput ex_validator latin1 (reset_fields ex_reset) = Inr ()"
  "requireInput ex_validator latin1 (register_fields ex_register) = Inr ()"
  "requireInput ex_validator latin1 (forgot_fields \<lparr>forgot_Email = ''a@b.c''\<rparr>) = Inr ()"
  "requireInput ex_validator latin1 (token_fields \<lparr>in_Token = ex_token\<rparr>) = Inr ()"
  using token_input_ok [OF ex_validator_spec ex_token_simps(2)]
  by (simp_all add: requireInput_ok login_fields_def reset_fields_def register_fields_def forgot_fields_def
      ex_login_def ex_reset_def ex_register_def password_bytes ascii_runes ex_validator_def)

subsection \<open>Runs\<close>

lemma ex_refresh_run: "run_ok (Refresh (exL (ex_claims 3 105)) (ex_auth (ex_claims 3 105)) ex_token [] [])"
  unfolding run_ok_def by (simp add: Refresh_def issueTokens_def ex_run logAudit_def)

lemma ex_compare [simp]:
  "bcrypt_Compare ex_crypto ''$correct horse'' ''correct horse'' = None"
  "bcrypt_Generate ex_crypto n ''battery staple'' cost = Inr ''$battery staple''"
  "bcrypt_Generate ex_crypto n ''correct horse'' cost = Inr ''$correct horse''"
  by (simp_all add: ex_crypto_def)

lemma ex_login_run: "run_ok (Login (exL (ex_claims 103 108)) (ex_auth (ex_claims 103 108)) ex_login [] [])"
  unfolding run_ok_def
  by (simp add: Login_def require_input_def issueTokens_def ex_run logAudit_def
      password_Compare_def ex_compare)

lemma ex_verify_run: "run_ok (VerifyEmail (exL c0) (ex_auth c0) \<lparr>in_Token = ex_token\<rparr>)"
  unfolding run_ok_def
  by (simp add: VerifyEmail_def require_input_def ex_run logAudit_def)

lemma ex_reset_run: "run_ok (ResetPassword (exL c0) (ex_auth c0) ex_reset)"
  unfolding run_ok_def
  by (simp add: ResetPassword_def require_input_def ex_run logAudit_def revokeAllSessions_def)

definition ex_new_user :: user_row where
  "ex_new_user = \<lparr>u_id = 102, u_email = ''n@b.c'', u_hash = ''$correct horse'', u_verified = False,
     u_active = True, u_created = 0, u_updated = 0, u_deleted = None\<rparr>"

lemma ex_create [ex_run]:
  "run_state (UserRepo_CreateWithRole ex_pg ''n@b.c'' ''$correct horse'' defaultRole) (ex_world 101 ex_tables) =
     (Inr (row_user ex_new_user), ex_world 105 (ex_tables\<lparr>tb_users := [ex_user, ex_new_user],
        tb_user_roles := [(1, 7), (102, 7)]\<rparr>))"
  by (simp add: UserRepo_CreateWithRole_def pg_begin_def tx_stmt_def pg_commit_def run_simps
      run_pg_query_healthy run_pg_stmt_healthy insert_user_def insert_role_def user_ids_def live_users_def
      ex_lower_bytes row_user_def ex_new_user_def defaultRole_def Let_def ex_env_def)

lemma ex_link: "\<exists>l. ActionLink ex_url ''https://app/verify'' tok = Inr l"
proof -
  have p: "ex_url_parse ''https://app/verify'' = Some \<lparr>Scheme = ''https'', Host = ''app'', RawQuery = [], url_Rest = ''/verify''\<rparr>"
    by (simp add: ex_url_parse_def)
  show ?thesis by (simp add: ActionLink_ok ex_url_def p)
qed

lemma ex_register_run: "run_ok (Register (exL c0) (ex_auth c0) ex_register [] [])"
proof -
  obtain l where l: "ActionLink ex_url ''https://app/verify'' (ex_random 105) = Inr l" using ex_link by blast
  then show ?thesis unfolding run_ok_def
    by (simp add: Register_def require_input_def ex_run logAudit_def issueOneTime_def consumeEmailQuota_def
        sendActionEmail_def sendTransactional_def row_user_def ex_new_user_def)
qed

subsection \<open>With email on\<close>

definition ex_mailing :: Config where
  "ex_mailing = ex_config\<lparr>cfg_App := (cfg_App ex_config)\<lparr>app_Environment := ''Production''\<rparr>,
     cfg_Email := (cfg_Email ex_config)\<lparr>email_Enabled := True, email_From := ''s@b.c''\<rparr>\<rparr>"

lemma ex_mailing_hides [simp]: "\<not> ExposeDevTokens ex_mailing"
proof -
  have "EqualFold ''Production'' ''production''" by code_simp
  then show ?thesis by (simp add: ExposeDevTokens_def IsProduction_def ex_mailing_def)
qed

abbreviation mailL :: libs where "mailL \<equiv> exL (ex_claims 3 105)"

definition ex_mail_auth :: "unit svc_world AuthService" where
  "ex_mail_auth = app_auth mailL ex_pg ex_client ex_dto ex_mailing"

lemma ex_mailing_simps [simp]:
  "cfg_Security ex_mailing = cfg_Security default_config" "email_Enabled (cfg_Email ex_mailing)"
  "email_VerifyLinkBase (cfg_Email ex_mailing) = ''https://app/verify''" "email_From (cfg_Email ex_mailing) = ''s@b.c''"
  "email_PerRecipientLimit (cfg_Email ex_mailing) = 5"
  by (simp_all add: ex_mailing_def) (simp add: ex_config_def default_config_def)

lemma ex_create_mail [ex_run]:
  "run_state (UserRepo_CreateWithRole ex_pg ''n@b.c'' ''$correct horse'' defaultRole) (ex_world 102 ex_tables) =
     (Inr (row_user (ex_new_user\<lparr>u_id := 103\<rparr>)), ex_world 106 (ex_tables\<lparr>tb_users := [ex_user, ex_new_user\<lparr>u_id := 103\<rparr>],
        tb_user_roles := [(1, 7), (103, 7)]\<rparr>))"
  by (simp add: UserRepo_CreateWithRole_def pg_begin_def tx_stmt_def pg_commit_def run_simps
      run_pg_query_healthy run_pg_stmt_healthy insert_user_def insert_role_def user_ids_def live_users_def
      ex_lower_bytes row_user_def ex_new_user_def defaultRole_def Let_def ex_env_def)

lemma ex_fate [simp]: "fate_at ex_env n = Done"
  by (simp add: ex_env_def)

lemma ex_register_mail_run: "run_ok (Register mailL ex_mail_auth ex_register [] [])"
proof -
  obtain l where l: "ActionLink ex_url ''https://app/verify'' (ex_random 106) = Inr l" using ex_link by blast
  then show ?thesis unfolding run_ok_def ex_mail_auth_def
    by (simp add: Register_def require_input_def ex_run issueOneTime_def consumeEmailQuota_def
        sendActionEmail_def sendTransactional_def row_user_def ex_new_user_def app_mailer_def resend_Send_def send_mail_def)
qed

end
