(* ===== verification/MemSamples.thy ===== *)
theory MemSamples
  imports Guarantees SampleRuns Httputil
begin

text \<open>
  A world whose Redis server is the in-memory one, in which no time passes and no call fails: the
  concrete instance on which the theorems that rest on \<open>redis_server\<close> are evaluated.
\<close>

definition mem_world :: "nat \<Rightarrow> tables \<Rightarrow> keyspace \<Rightarrow> mem svc_world" where
  "mem_world n d S = \<lparr>w_env = ex_env, w_ticks = n, w_clock = 0, w_pg = d,
     w_redis = \<lparr>mem_keys = S, mem_fates = []\<rparr>, w_wait = mem_elapse, w_outbox = []\<rparr>"

definition mem_auth :: "Claims \<Rightarrow> mem svc_world AuthService" where
  "mem_auth c0 = app_auth (exL c0) ex_pg mem_client ex_dto ex_config"

definition no_keys :: keyspace where "no_keys = \<lparr>ks_now = 0, ks_entries = \<lambda>_. None\<rparr>"

lemma mem_world_simps [simp]:
  "w_env (mem_world n d S) = ex_env" "w_ticks (mem_world n d S) = n" "w_clock (mem_world n d S) = 0"
  "w_pg (mem_world n d S) = d" "w_wait (mem_world n d S) = mem_elapse"
  "w_redis (mem_world n d S) = \<lparr>mem_keys = S, mem_fates = []\<rparr>"
  "(mem_world n d S)\<lparr>w_pg := d'\<rparr> = mem_world n d' S"
  "(mem_world n d S)\<lparr>w_redis := \<lparr>mem_keys = S', mem_fates = []\<rparr>\<rparr> = mem_world n d S'"
  "advance (mem_world n d S) = mem_world (Suc n) d S" "healthy (mem_world n d S)"
  by (simp_all add: mem_world_def advance_def ex_env_def healthy_def mem_elapse_def ks_wait_def)

lemma mem_elapse_0 [simp]: "mem_elapse 0 s = s"
  by (simp add: mem_elapse_def ks_wait_def)

named_theorems mem_run_simps "running the sample service on the in-memory server"

lemma mem_steps [mem_run_simps]:
  "run_state (mem_run f) \<lparr>mem_keys = S, mem_fates = []\<rparr> = (fst (f S), \<lparr>mem_keys = snd (f S), mem_fates = []\<rparr>)"
  "run_state (mem_exact g) \<lparr>mem_keys = S, mem_fates = []\<rparr> = (fst (g S), \<lparr>mem_keys = snd (g S), mem_fates = []\<rparr>)"
  by (simp_all add: mem_run_def mem_exact_def case_prod_unfold)

lemma mem_client_steps [mem_run_simps]:
  "c_Set mem_client k v d = mem_run (ks_set k v d)" "c_SetNX mem_client k v d = mem_run (ks_setnx k v d)"
  "c_Get mem_client k = mem_run (ks_get k)" "c_Exists mem_client k = mem_run (ks_exists k)"
  "c_Del mem_client k = mem_run (ks_del k)" "c_SAdd mem_client k m = mem_run (ks_sadd k m)"
  "c_SRem mem_client k m = mem_run (ks_srem k m)" "c_SMembers mem_client k = mem_run (ks_smembers k)"
  "c_Expire mem_client k d = mem_run (ks_expire k d)" "s_INCR mem_client k = mem_exact (ks_incr k)"
  "s_EXPIRE mem_client k n = mem_exact (ks_expire_secs k n)" "c_Script mem_client = mem_script"
  by (simp_all add: mem_client_def)

lemma mem_script_steps [mem_run_simps]:
  "run_state body \<lparr>mem_keys = S, mem_fates = []\<rparr> = (r, \<lparr>mem_keys = S', mem_fates = []\<rparr>) \<Longrightarrow>
     run_state (mem_script body) \<lparr>mem_keys = S, mem_fates = []\<rparr> = (r, \<lparr>mem_keys = S', mem_fates = []\<rparr>)"
  by (simp add: mem_script_def)

lemmas mem_ops = mem_run_simps run_simps run_pg_stmt_healthy run_pg_query_healthy

text \<open>One hit of a counter.\<close>

lemma mem_hit:
  "run_state (on_redis (runIncrExpire mem_client k ttl)) (mem_world n d S) =
     (fst (ks_incr_expire k (script_secs ttl) S), mem_world (Suc n) d (snd (ks_incr_expire k (script_secs ttl) S)))"
proof -
  have b: "run_state (incrWithExpire mem_client k secs) \<lparr>mem_keys = S, mem_fates = []\<rparr> =
      (fst (ks_incr_expire k secs S), \<lparr>mem_keys = snd (ks_incr_expire k secs S), mem_fates = []\<rparr>)" for secs
    by (auto simp: incrWithExpire_def ks_incr_expire_def mem_run_simps run_simps case_prod_unfold split: sum.splits)
  have "runIncrExpire mem_client k ttl = mem_script (incrWithExpire mem_client k (script_secs ttl))"
    by (simp add: runIncrExpire_def script_secs_def Let_def mem_run_simps)
  with mem_script_steps [OF b] show ?thesis by (simp add: run_on_redis)
qed

subsection \<open>Runs\<close>

definition mem_jti :: string where "mem_jti = claim_ID (ex_claims 3 105)"

lemma mem_jti_nonempty [simp]: "mem_jti \<noteq> []"
  by (simp add: mem_jti_def ex_claims_def access_claims_def ex_uuid_def)

text \<open>A program of commands without faults leaves the world in the same form.\<close>

definition faultless :: "(mem, 'a) state \<Rightarrow> bool" where
  "faultless = effect (\<lambda>s s'. mem_fates s = [] \<longrightarrow> mem_fates s' = [])"

lemma faultless_on_redis:
  assumes "faultless m"
  obtains S' where "run_state (on_redis m) (mem_world n d S) = (fst (run_state m \<lparr>mem_keys = S, mem_fates = []\<rparr>), mem_world (Suc n) d S')"
proof -
  obtain r s where r: "run_state m \<lparr>mem_keys = S, mem_fates = []\<rparr> = (r, s)" by fastforce
  with assms have "mem_fates s = []" unfolding faultless_def by (auto dest: effectD)
  then obtain ks where "s = \<lparr>mem_keys = ks, mem_fates = []\<rparr>" by (cases s) simp
  with r have "run_state (on_redis m) (mem_world n d S) = (r, mem_world (Suc n) d ks)" by (simp add: run_on_redis)
  with r that show thesis by simp
qed

lemma faultless_commands:
  "faultless (mem_run f)" "faultless (queued (mem_run g))"
  unfolding faultless_def by (auto simp: effect_def mem_run_def queued_def run_simps case_prod_unfold split: sum.splits)

lemma mem_session_delete:
  obtains r S' where "run_state (SessionStore_Delete mem_client V i u) (mem_world n d S) = (r, mem_world (Suc n) d S')"
proof -
  have "faultless (pipe_Exec [queued (c_Del mem_client k), queued (c_SRem mem_client k' m)])" for k k' m
    using faultless_commands unfolding faultless_def mem_run_simps by (auto intro!: keep_intros)
  from faultless_on_redis [OF this] that show thesis unfolding SessionStore_Delete_def by blast
qed

lemma mem_audit:
  "run_state (AuditRepo_Log P e) (mem_world n d S) =
     (fst (insert_audit P e 0 (of_nat n) d), mem_world (Suc n) (snd (insert_audit P e 0 (of_nat n) d)) S)"
  by (simp add: AuditRepo_Log_def run_pg_stmt_healthy case_prod_unfold)

lemma mem_logout_run:
  "\<exists>n d S. run_state (Logout (exL c0) (mem_auth c0) 1 3 mem_jti hour [] [] []) (mem_world 100 ex_tables no_keys)
     = (Inr (), mem_world n d S)"
proof -
  let ?S = "snd (ks_set (keyBlacklist mem_jti) ''1'' hour no_keys)"
  obtain r S' where "run_state (SessionStore_Delete mem_client ex_uuid 3 1) (mem_world 102 ex_tables ?S) = (r, mem_world (Suc 102) ex_tables S')"
    by (rule mem_session_delete)
  then have del: "run_state (SessionStore_Delete mem_client ex_uuid 3 1) (mem_world 102 ex_tables ?S) = (r, mem_world 103 ex_tables S')" by simp
  have "run_state (Blacklist_add mem_client mem_jti hour) (mem_world 101 ex_tables no_keys) = (Inr (), mem_world 102 ex_tables ?S)"
    by (simp add: Blacklist_add_def mem_ops ks_set_def)
  moreover note del
  ultimately show ?thesis
    by (simp add: Logout_def mem_auth_def run_time_Now run_ok run_ignoring logAudit_def mem_audit Let_def) blast
qed

lemma mem_parse_run:
  "\<exists>res n S'. run_state (ParseAccess (exL c0) (mem_auth c0) tok) (mem_world m d S) = (res, mem_world n d S')"
  by (auto simp: ParseAccess_def jwt_ParseAccess_def mem_auth_def mem_ops redis_store_defs ks_exists_def
      split: sum.splits prod.splits)

lemma mem_token_id:
  "run_state (jwt_ParseAccess (lib_J (exL (ex_claims 3 105))) s ''token'') w = (Inr claims, w') \<Longrightarrow> claim_ID claims = mem_jti"
  by (auto simp: jwt_ParseAccess_def run_simps ex_jwt_def mem_jti_def split: if_splits sum.splits prod.splits)

lemma mem_allow:
  "run_state (RateLimiter_Allow mem_client k n d) (mem_world m t S) =
     (map_sum id (\<lambda>i. i \<le> n) (fst (ks_incr_expire (keyRateLimit k) (script_secs d) S)),
      mem_world (Suc m) t (snd (ks_incr_expire (keyRateLimit k) (script_secs d) S)))"
  by (simp add: RateLimiter_Allow_def run_or_return mem_hit run_ok split: sum.splits)

lemma mem_counter:
  "ks_incr_expire k 60 no_keys = (Inr 1, ks_put k (Some (RCount 1, Some minute)) no_keys)"
  "0 < j \<Longrightarrow> ks_incr_expire k 60 (ks_put k (Some (RCount j, Some minute)) no_keys) =
     (Inr (j + 1), ks_put k (Some (RCount (j + 1), Some minute)) no_keys)"
  by (simp_all add: ks_incr_expire_def ks_incr_def ks_expire_secs_def ks_entry_put no_keys_def ks_entry_def
      unexpired_def ks_put_def minute_def)

lemma script_minute [simp]: "script_secs minute = 60"
  by (simp add: script_secs_def minute_def whole_seconds_def)

lemma mem_unused: "absent mem_keys (mem_world n d no_keys) k"
  by (simp add: absent_def ks_entry_def no_keys_def)

lemma mem_frame_refl [simp]: "redis_frame mem_keys mem_elapse K w w"
  by (rule preorder_refl) simp

lemma script_positive [simp]: "0 < script_secs d"
  by (simp add: script_secs_def)

text \<open>Two failures against a limit of two, and the lock they leave.\<close>

lemma mem_set:
  "run_state (on_redis (c_Set mem_client k v d)) (mem_world m t S) = (Inr (), mem_world (Suc m) t (snd (ks_set k v d S)))"
  by (simp add: mem_ops ks_set_def)

lemma mem_record:
  "run_state (Lockout_RecordFailure mem_client k 2 minute) (mem_world m t no_keys) =
     (Inr (), mem_world (Suc m) t (ks_put (keyLoginFail k) (Some (RCount 1, Some minute)) no_keys))"
  "\<exists>n' S'. run_state (Lockout_RecordFailure mem_client k 2 minute)
       (mem_world m t (ks_put (keyLoginFail k) (Some (RCount 1, Some minute)) no_keys)) = (Inr (), mem_world n' t S')"
proof -
  show "run_state (Lockout_RecordFailure mem_client k 2 minute) (mem_world m t no_keys) =
     (Inr (), mem_world (Suc m) t (ks_put (keyLoginFail k) (Some (RCount 1, Some minute)) no_keys))"
    by (simp add: Lockout_RecordFailure_def run_or_return mem_hit mem_counter run_ok)
  show "\<exists>n' S'. run_state (Lockout_RecordFailure mem_client k 2 minute)
       (mem_world m t (ks_put (keyLoginFail k) (Some (RCount 1, Some minute)) no_keys)) = (Inr (), mem_world n' t S')"
    by (simp add: Lockout_RecordFailure_def run_or_return mem_hit mem_counter mem_set) blast
qed

lemma mem_is_locked:
  "\<exists>b. run_state (Lockout_IsLocked mem_client k) (mem_world m t S) = (Inr b, mem_world (Suc m) t S)"
  by (simp add: Lockout_IsLocked_def mem_ops ks_exists_def)

end
