(* ===== verification/HttpTheorems.thy ===== *)
theory HttpTheorems
  imports Router MemSamples
begin

text \<open>
  What a client of the HTTP interface can rely on: protected routes, the answer to a login, rate
  limits, idempotent requests, error messages, the guards of the metrics endpoint, trace
  identifiers, panics, and a validated configuration.
\<close>

lemma http_result:
  fixes m :: "('w, unit) http"
  obtains w' p' where "run_state m s = ((), (w', p'))"
proof -
  obtain u q where "run_state m s = (u, q)" by (rule prod.exhaust)
  moreover obtain w' p' where "q = (w', p')" by (rule prod.exhaust)
  ultimately show thesis using that by simp
qed

subsection \<open>Routes\<close>

definition auth_handler :: "'w Deps \<Rightarrow> 'w AuthHandler" where
  "auth_handler d = NewAuth (dep_Config d) (dep_Auth d) (dep_Idem d)"

text \<open>What the routes are bound to.\<close>

lemma dispatch_routes:
  assumes "r_method = req_method r" "r_path = req_path r"
  shows "r_method = ''POST'' \<Longrightarrow> r_path = ''/api/v1/auth/logout'' \<Longrightarrow>
      dispatch X (mountHealth X ''/api/v1'' (new_health d) @ auth_routes L D d) r =
        Authenticate L (dep_Auth d) (handle_Logout L (auth_handler d)) r"
    "r_method = ''POST'' \<Longrightarrow> r_path = ''/api/v1/auth/logout-all'' \<Longrightarrow>
      dispatch X (mountHealth X ''/api/v1'' (new_health d) @ auth_routes L D d) r =
        Authenticate L (dep_Auth d) (handle_LogoutAll L (auth_handler d)) r"
    "r_method = ''GET'' \<Longrightarrow> r_path = ''/api/v1/me'' \<Longrightarrow>
      dispatch X (mountHealth X ''/api/v1'' (new_health d) @ auth_routes L D d) r =
        Authenticate L (dep_Auth d) (RequirePermission ''read_profile'' (handle_Me L (auth_handler d))) r"
    "r_method = ''POST'' \<Longrightarrow> r_path = ''/api/v1/auth/login'' \<Longrightarrow>
      dispatch X (mountHealth X ''/api/v1'' (new_health d) @ auth_routes L D d) r =
        rateLimit d ''login'' (sec_LoginRateLimitRPM (cfg_Security (dep_Config d))) (handle_Login L D (auth_handler d)) r"
  unfolding assms
  by (simp_all add: dispatch_def mountHealth_def auth_routes_def auth_handler_def Let_def)

text \<open>The closed routes with the handlers behind their guards.\<close>

definition protected_handlers ::
    "libs \<Rightarrow> ('d, 'r) world Deps \<Rightarrow> ((string \<times> string) \<times> ('d, 'r) world handler) list" where
  "protected_handlers L d =
     [((''POST'', ''/api/v1/auth/logout''), handle_Logout L (auth_handler d)),
      ((''POST'', ''/api/v1/auth/logout-all''), handle_LogoutAll L (auth_handler d)),
      ((''GET'', ''/api/v1/me''), RequirePermission ''read_profile'' (handle_Me L (auth_handler d)))]"

lemma dispatch_protected:
  assumes "((req_method r, req_path r), h) \<in> set (protected_handlers L d)"
  shows "dispatch X (mountHealth X ''/api/v1'' (new_health d) @ auth_routes L D d) r = Authenticate L (dep_Auth d) h r"
proof -
  from assms consider
      "req_method r = ''POST''" "req_path r = ''/api/v1/auth/logout''" "h = handle_Logout L (auth_handler d)"
    | "req_method r = ''POST''" "req_path r = ''/api/v1/auth/logout-all''" "h = handle_LogoutAll L (auth_handler d)"
    | "req_method r = ''GET''" "req_path r = ''/api/v1/me''"
      "h = RequirePermission ''read_profile'' (handle_Me L (auth_handler d))"
    unfolding protected_handlers_def by auto
  then show ?thesis by cases (use dispatch_routes [OF refl refl, of r] in blast)+
qed

text \<open>What the global limit answers to a request in a world.\<close>

definition global_allow :: "('d, 'r) world Deps \<Rightarrow> request \<Rightarrow> ('d, 'r) world \<Rightarrow> (err + bool) \<times> ('d, 'r) world" where
  "global_allow d r w =
     (let rpm = sec_RateLimitRPM (cfg_Security (dep_Config d))
      in case dep_Limiter d of
           None \<Rightarrow> (Inr True, w)
         | Some A \<Rightarrow> if rpm < 1 then (Inr True, w)
             else run_state (Allow A (''global:ip:'' @ ClientIP r) rpm minute) w)"

lemma v1_run:
  assumes "resp_status p = None" "global_allow d r w = (a, w1)"
  shows "run_state (v1_router L D X d r) (w, p) =
    (if a = Inr True
     then run_state (dispatch X (mountHealth X ''/api/v1'' (new_health d) @ auth_routes L D d) r) (w1, p)
     else ((), (w1, error_response (retry_after minute p) ErrRateLimited)))"
proof (cases "dep_Limiter d = None \<or> sec_RateLimitRPM (cfg_Security (dep_Config d)) < 1")
  case True
  with assms(2) show ?thesis
    by (auto simp: global_allow_def v1_router_def rateLimit_def RateLimit_Middleware_def split: option.splits)
next
  case False
  then obtain A where A: "dep_Limiter d = Some A" and n: "1 \<le> sec_RateLimitRPM (cfg_Security (dep_Config d))" by auto
  let ?rl = "\<lparr>rl_Limiter = dep_Limiter d, rl_Scope = ''global'',
    rl_Limit = sec_RateLimitRPM (cfg_Security (dep_Config d)), rl_Window = minute\<rparr>"
  have a: "run_state (Allow A (rl_Scope ?rl @ '':ip:'' @ ClientIP r) (rl_Limit ?rl) (rl_Window ?rl)) w = (a, w1)"
    using assms(2) A n by (simp add: global_allow_def)
  have rl: "rl_Limiter ?rl = Some A" "1 \<le> rl_Limit ?rl" using A n by simp_all
  show ?thesis
  proof (cases "a = Inr True")
    case True
    with RateLimit_passes [OF rl] a show ?thesis by (simp add: v1_router_def rateLimit_def)
  next
    case False
    with RateLimit_refuses [OF rl assms(1) a] show ?thesis by (simp add: v1_router_def rateLimit_def)
  qed
qed

lemma ParseAccess_err: "run_state (ParseAccess L s raw) w = (Inl e, w') \<Longrightarrow> e = ErrUnauthorized"
  by (erule ParseAccess_cases) auto

text \<open>
  C17. The routes for logging out and for the own profile are closed. What such a request gets is
  decided in the world it arrives in: 429 when the global limit does not allow it or Redis fails;
  401 without a bearer token; 401 when the service refuses the token there and then (it is not
  genuine, has expired or is blacklisted, or the blacklist cannot be read: C5, C6). Only with
  claims the service accepted does the handler of the route run, on exactly those claims.
\<close>

theorem protected_routes_need_token:
  assumes "((req_method r, req_path r), h) \<in> set (protected_handlers L d)" "resp_status p = None"
    and "global_allow d r w = (a, w1)"
    and "run_state (ParseAccess L (dep_Auth d) (BearerToken (req_header r ''Authorization''))) w1 = (b, w2)"
  shows "run_state (v1_router L D X d r) (w, p) =
    (if a \<noteq> Inr True then ((), (w1, error_response (retry_after minute p) ErrRateLimited))
     else if BearerToken (req_header r ''Authorization'') = [] then ((), (w1, error_response p ErrUnauthorized))
     else case b of
         Inl e \<Rightarrow> ((), (w2, error_response p ErrUnauthorized))
       | Inr claims \<Rightarrow> run_state (h (r\<lparr>req_claims := Some claims\<rparr>)) (w2, p))"
proof (cases "a = Inr True")
  case False
  with v1_run [OF assms(2,3)] show ?thesis by simp
next
  case True
  then have v: "run_state (v1_router L D X d r) (w, p) = run_state (Authenticate L (dep_Auth d) h r) (w1, p)"
    using v1_run [OF assms(2,3)] dispatch_protected [OF assms(1)] by simp
  show ?thesis
  proof (cases b)
    case (Inl e)
    with assms(4) have "e = ErrUnauthorized" by (simp add: ParseAccess_err)
    with v True Inl assms(2,4) show ?thesis by (simp add: Authenticate_def run_service run_WriteError)
  next
    case (Inr claims)
    with v True assms(2,4) show ?thesis by (simp add: Authenticate_def run_service run_WriteError)
  qed
qed

definition ex_request :: "string \<Rightarrow> string \<Rightarrow> (string \<Rightarrow> string) \<Rightarrow> request" where
  "ex_request m pth hs = \<lparr>req_method = m, req_path = pth, req_header = hs, req_cookie = (\<lambda>_. None),
     req_remote = ''127.0.0.1:80'', req_body = ''{}'', req_broken = False, req_claims = None,
     req_request_id = [], req_correlation_id = []\<rparr>"

definition no_log :: "'w zap_lib" where
  "no_log = \<lparr>zap_Info = \<lambda>_ _. State_Monad.return (), zap_Error = \<lambda>_ _. State_Monad.return (),
     debug_Stack = State_Monad.return ''goroutine 1''\<rparr>"

definition ex_deps :: "Claims \<Rightarrow> mem svc_world Deps" where
  "ex_deps c0 = \<lparr>dep_Config = ex_config, dep_Logger = no_log, dep_DB = (''postgres'', ok ()), dep_Redis = (''redis'', ok ()),
     dep_Auth = mem_auth c0, dep_Limiter = Some (RedisRateLimiter mem_client),
     dep_Idem = Some (RedisIdempotency mem_client)\<rparr>"

definition ex_web :: "mem svc_world web_lib" where
  "ex_web = \<lparr>chi_RealIP = \<lambda>h. h, chi_Timeout = \<lambda>_ h. h, cors_Handler = \<lambda>_ h. h,
     promhttp_Handler = \<lambda>_. write_body ''metrics'',
     file_Handler = \<lambda>_. write_body ''file'', chi_NotFound = \<lambda>_. WriteHeader 404,
     chi_MethodNotAllowed = \<lambda>_. WriteHeader 405, show_duration = \<lambda>_. ''0s'',
     loopback_ip = \<lambda>s. s = ''127.0.0.1''\<rparr>"

text \<open>Decoders that know one body each, ''{}''.\<close>

definition ex_decoders :: decoders where
  "ex_decoders = \<lparr>
     dec_unmarshal = \<lambda>s. if s = ''{}'' then Some \<lparr>body_Email = ''n@b.c'', body_Password = ''correct horse''\<rparr> else None,
     dec_credentials = \<lambda>s. if s = ''{}'' then Some (\<lparr>body_Email = ''A@b.c'', body_Password = ''correct horse''\<rparr>, []) else None,
     dec_email = \<lambda>s. if s = ''{}'' then Some (''a@b.c'', []) else None,
     dec_reset = \<lambda>s. if s = ''{}'' then Some (\<lparr>body_Token = ex_token, body_NewPassword = ''battery staple''\<rparr>, []) else None,
     dec_token = \<lambda>s. if s = ''{}'' then Some (\<lparr>in_Token = ex_token\<rparr>, []) else None\<rparr>"

lemma ex_request_simps [simp]:
  "req_method (ex_request m pth hs) = m" "req_path (ex_request m pth hs) = pth"
  "req_header (ex_request m pth hs) = hs" "resp_status no_response = None"
  "req_claims (ex_request m pth hs) = None"
  by (simp_all add: ex_request_def no_response_def)

lemma ex_parse:
  assumes "claim_Issuer c0 = ''auth-service''" "claim_ExpiresAt c0 = Some e" "0 < e"
  shows "run_state (ParseAccess (exL c0) (ex_auth c0) ''token'') (ex_world n d) = (Inr c0, ex_world (Suc (Suc n)) d)"
proof -
  have "jwts_issuer (jwt_NewService (cfg_JWT ex_config)) = ''auth-service''"
    by (simp add: jwt_NewService_def ex_config_def default_config_def)
  then show ?thesis using assms
    by (simp add: ParseAccess_def jwt_ParseAccess_def ex_run keyfunc_def ex_jwt_def)
qed

definition ex_plain_claims :: Claims where
  "ex_plain_claims = (ex_claims 3 105)\<lparr>claim_Permissions := []\<rparr>"

lemma ex_claims_fields [simp]:
  "claim_Issuer (ex_claims sid jti) = ''auth-service''" "claim_ExpiresAt (ex_claims sid jti) = Some (15 * minute)"
  "claim_Permissions (ex_claims sid jti) = [''read_profile'']"
  by (simp_all add: ex_claims_def access_claims_def jwt_NewService_def ex_config_def default_config_def
      NumericDate_def minute_def)

lemma ex_plain_claims_fields [simp]:
  "claim_Issuer ex_plain_claims = ''auth-service''" "claim_ExpiresAt ex_plain_claims = Some (15 * minute)"
  "claim_Permissions ex_plain_claims = []"
  by (simp_all add: ex_plain_claims_def)

definition ex_unit_deps :: "Claims \<Rightarrow> unit svc_world Deps" where
  "ex_unit_deps c0 = \<lparr>dep_Config = ex_config, dep_Logger = no_log, dep_DB = (''postgres'', ok ()), dep_Redis = (''redis'', ok ()),
     dep_Auth = ex_auth c0, dep_Limiter = Some (RedisRateLimiter ex_client),
     dep_Idem = Some (RedisIdempotency ex_client)\<rparr>"

definition ex_bearer :: "string \<Rightarrow> string" where
  "ex_bearer k = (if k = ''Authorization'' then ''Bearer token'' else [])"

lemma ex_bearer_token [simp]: "BearerToken (ex_bearer ''Authorization'') = ''token''"
proof -
  have "EqualFold ''Bearer'' ''Bearer''" by (simp add: EqualFold_def)
  from BearerToken_ok [OF this, of "''token''"] show ?thesis
    using TrimSpace_id [of "''token''"] by (simp add: ex_bearer_def is_ascii_def IsSpace_def)
qed

definition ex_unit_web :: "unit svc_world web_lib" where
  "ex_unit_web = \<lparr>chi_RealIP = \<lambda>h. h, chi_Timeout = \<lambda>_ h. h, cors_Handler = \<lambda>_ h. h,
     promhttp_Handler = \<lambda>_. write_body ''metrics'',
     file_Handler = \<lambda>_. write_body ''file'', chi_NotFound = \<lambda>_. WriteHeader 404,
     chi_MethodNotAllowed = \<lambda>_. WriteHeader 405, show_duration = \<lambda>_. ''0s'',
     loopback_ip = \<lambda>s. s = ''127.0.0.1''\<rparr>"

lemma ex_unit_deps_auth [simp]: "dep_Auth (ex_unit_deps c0) = ex_auth c0"
  by (simp add: ex_unit_deps_def)

text \<open>The counter of the sample server answers 1, so the limit of the sample service is open.\<close>

lemma ex_global_allow: "global_allow (ex_unit_deps c0) r (ex_world n d) = (Inr True, ex_world (Suc n) d)"
  by (simp add: global_allow_def ex_unit_deps_def RedisRateLimiter_def RateLimiter_Allow_def runIncrExpire_def
      incrWithExpire_def ex_run ex_config_def default_config_def Let_def)

definition ex_old_claims :: Claims where
  "ex_old_claims = (ex_claims 3 105)\<lparr>claim_ExpiresAt := Some 0\<rparr>"

lemma ex_old_parse:
  "run_state (ParseAccess (exL ex_old_claims) (ex_auth ex_old_claims) ''token'') (ex_world n d)
     = (Inl ErrUnauthorized, ex_world (Suc n) d)"
  by (simp add: ParseAccess_def jwt_ParseAccess_def ex_run ex_jwt_def ex_old_claims_def)

text \<open>The limit is open, and the token has expired.\<close>

theorem protected_routes_need_token_witness:
  "run_state (v1_router (exL ex_old_claims) ex_decoders ex_unit_web (ex_unit_deps ex_old_claims)
       (ex_request ''GET'' ''/api/v1/me'' ex_bearer)) (ex_world 0 ex_tables, no_response)
     = ((), (ex_world 2 ex_tables, error_response no_response ErrUnauthorized))"
proof -
  let ?r = "ex_request ''GET'' ''/api/v1/me'' ex_bearer" and ?d = "ex_unit_deps ex_old_claims"
  let ?h = "RequirePermission ''read_profile'' (handle_Me (exL ex_old_claims) (auth_handler ?d))"
  have r: "((req_method ?r, req_path ?r), ?h) \<in> set (protected_handlers (exL ex_old_claims) ?d)"
    by (simp add: protected_handlers_def)
  have b: "run_state (ParseAccess (exL ex_old_claims) (dep_Auth ?d) (BearerToken (req_header ?r ''Authorization'')))
      (ex_world (Suc 0) ex_tables) = (Inl ErrUnauthorized, ex_world 2 ex_tables)"
    by (simp add: ex_old_parse numeral_2_eq_2)
  from protected_routes_need_token [OF r _ ex_global_allow b, of no_response] show ?thesis by simp
qed

text \<open>
  C18. The own profile needs the permission \<open>read_profile\<close>: a request the global limit allows, with
  an accepted token that does not carry it, is answered 403, and nothing is read from the database.
\<close>

theorem me_needs_permission:
  assumes "req_method r = ''GET''" "req_path r = ''/api/v1/me''" "resp_status p = None"
    and "global_allow d r w0 = (Inr True, w)" "BearerToken (req_header r ''Authorization'') \<noteq> []"
    and "run_state (ParseAccess L (dep_Auth d) (BearerToken (req_header r ''Authorization''))) w = (Inr claims, w1)"
    and "''read_profile'' \<notin> set (claim_Permissions claims)"
  shows "run_state (v1_router L D X d r) (w0, p) = ((), (w1, error_response p ErrForbidden))"
proof -
  have "run_state (v1_router L D X d r) (w0, p) = run_state (Authenticate L (dep_Auth d)
      (RequirePermission ''read_profile'' (handle_Me L (auth_handler d))) r) (w, p)"
    using v1_run [OF assms(3,4), of L D X] dispatch_routes(3) [OF refl refl assms(1,2), of X d L D] by simp
  also have "\<dots> = run_state (RequirePermission ''read_profile'' (handle_Me L (auth_handler d)) (r\<lparr>req_claims := Some claims\<rparr>)) (w1, p)"
    using assms(5,6) by (simp add: Authenticate_def run_service)
  also have "\<dots> = ((), (w1, error_response p ErrForbidden))"
    using RequirePermission_denies [of "r\<lparr>req_claims := Some claims\<rparr>" "''read_profile''" p] assms(3,7) by simp
  finally show ?thesis .
qed

theorem me_needs_permission_witness:
  "run_state (v1_router (exL ex_plain_claims) ex_decoders ex_unit_web (ex_unit_deps ex_plain_claims)
       (ex_request ''GET'' ''/api/v1/me'' ex_bearer)) (ex_world 0 ex_tables, no_response)
     = ((), (ex_world 3 ex_tables, error_response no_response ErrForbidden))"
proof -
  have "run_state (ParseAccess (exL ex_plain_claims) (ex_auth ex_plain_claims) ''token'') (ex_world (Suc 0) ex_tables)
      = (Inr ex_plain_claims, ex_world 3 ex_tables)"
    using ex_parse [of ex_plain_claims "15 * minute" "Suc 0" ex_tables] by (simp add: minute_def numeral_3_eq_3)
  then show ?thesis
    by (intro me_needs_permission [where claims = ex_plain_claims, OF _ _ _ ex_global_allow]) simp_all
qed

subsection \<open>Answers\<close>

text \<open>
  C19. The answer to a successful login has the access token in the body and the refresh token in
  a cookie only. The cookie is this one: name, domain and \<open>Secure\<close> as configured; the configured
  path, \<open>/\<close> when there is none; \<open>HttpOnly\<close> always; \<open>SameSite\<close> is \<open>Lax\<close> or \<open>None\<close> when the configuration
  says so, in this spelling or in lower case, and \<open>Strict\<close> otherwise; and it lives as long as the
  refresh token.
\<close>

theorem login_answer:
  assumes "body_read r = Some b" "dec_credentials D b = Some (body, rest)" "json_eof rest" "resp_status p = None"
    and "run_state (Login L (ah_svc h) \<lparr>login_Email = body_Email body, login_Password = body_Password body\<rparr>
      (ClientIP r) (req_header r ''User-Agent'')) w = (Inr pair, w')"
    and "RefreshToken pair \<noteq> []" "jwt_RefreshCookieName (cfg_JWT (ah_cfg h)) \<noteq> []"
    and "\<forall>ch \<in> set (jwt_RefreshCookieName (cfg_JWT (ah_cfg h))). token_char ch"
  shows "\<exists>p'. run_state (handle_Login L D h r) (w, p) = ((), (w', p')) \<and> resp_status p' = Some 200 \<and>
      resp_body p' = resp_body p @ json_Marshal (json_map
        [(''access_token'', JStr (AccessToken pair)), (''expires_in'', JInt (ExpiresIn pair)),
         (''token_type'', JStr ''Bearer'')]) @ [CHR 0x0A] \<and>
      resp_cookies p' = resp_cookies p @
        [let cfg = cfg_JWT (ah_cfg h) in
         \<lparr>ck_Name = jwt_RefreshCookieName cfg, ck_Value = RefreshToken pair,
          ck_Path = (if jwt_RefreshCookiePath cfg = [] then ''/'' else jwt_RefreshCookiePath cfg),
          ck_Domain = jwt_RefreshCookieDomain cfg, ck_Secure = jwt_RefreshCookieSecure cfg, ck_HttpOnly = True,
          ck_SameSite = (if jwt_RefreshCookieSameSite cfg \<in> {''Lax'', ''lax''} then ''Lax''
            else if jwt_RefreshCookieSameSite cfg \<in> {''None'', ''none''} then ''None'' else ''Strict''),
          ck_MaxAge = whole_seconds (jwt_RefreshTTL cfg)\<rparr>]"
proof -
  let ?ck = "refreshCookie (cfg_JWT (ah_cfg h)) (RefreshToken pair) (whole_seconds (jwt_RefreshTTL (cfg_JWT (ah_cfg h))))"
  have name: "ck_Name ?ck = jwt_RefreshCookieName (cfg_JWT (ah_cfg h))" by (simp add: refreshCookie_def Let_def)
  have "run_state (handle_Login L D h r) (w, p) =
      run_state (WriteTokenPair pair) (w', p\<lparr>resp_cookies := resp_cookies p @ [?ck]\<rparr>)"
    using assms name
    by (simp add: handle_Login_def httputil_Decode_def peer_def run_service writeSession_def SetRefreshCookie_def
        http_SetCookie_def run_respond)
  then show ?thesis using assms(4) name
    by (intro exI [of _ "written (p\<lparr>resp_cookies := resp_cookies p @ [?ck]\<rparr>) 200
      (json_Marshal (json_map [(''access_token'', JStr (AccessToken pair)), (''expires_in'', JInt (ExpiresIn pair)),
         (''token_type'', JStr ''Bearer'')]) @ [CHR 0x0A])"])
      (simp add: WriteTokenPair_def run_write_JSON, simp add: written_def refreshCookie_def parseSameSite_def Let_def)
qed

definition ex_handler :: "Claims \<Rightarrow> unit svc_world AuthHandler" where
  "ex_handler c0 = NewAuth ex_config (ex_auth c0) None"

theorem login_answer_witness:
  "\<exists>w' p' ck. run_state (handle_Login (exL (ex_claims 103 108)) ex_decoders (ex_handler (ex_claims 103 108))
       (ex_request ''POST'' ''/api/v1/auth/login'' (\<lambda>_. []))) (ex_world 100 ex_tables, no_response) = ((), (w', p')) \<and>
     resp_status p' = Some 200 \<and> resp_cookies p' = [ck] \<and> ck_HttpOnly ck \<and> ck_SameSite ck = ''Strict''"
proof -
  let ?r = "ex_request ''POST'' ''/api/v1/auth/login'' (\<lambda>_. [])"
  let ?L = "exL (ex_claims 103 108)" and ?h = "ex_handler (ex_claims 103 108)"
  have ip: "ClientIP ?r = ''127.0.0.1''" by (rule ClientIP_join [of _ "''127.0.0.1''" "''80''"])
      (simp_all add: ex_request_def JoinHostPort_def TrimSpace_id is_ascii_def IsSpace_def)
  have "run_ok (Login ?L (ex_auth (ex_claims 103 108)) ex_login ''127.0.0.1'' [])"
    unfolding run_ok_def
    by (simp add: Login_def require_input_def issueTokens_def ex_run logAudit_def password_Compare_def)
  then obtain pair w' where run: "run_state (Login ?L (ah_svc ?h) \<lparr>login_Email = ''A@b.c'', login_Password = ''correct horse''\<rparr>
      (ClientIP ?r) (req_header ?r ''User-Agent'')) (ex_world 100 ex_tables) = (Inr pair, w')"
    unfolding ip run_ok_def by (auto simp: ex_login_def ex_handler_def NewAuth_def)
  have "RefreshToken pair \<noteq> []"
  proof -
    obtain u sid fid w3 w4 where
      "run_state (issueTokens ?L (app_auth ?L ex_pg ex_client ex_dto ex_config) u sid fid) w3 = (Inr pair, w4)"
      using run by (auto simp: ex_handler_def NewAuth_def ex_auth_def elim!: Login_Inr)
    then show ?thesis by (rule issueTokens_Inr) (simp add: token_shape_nonempty)
  qed
  moreover have "jwt_RefreshCookieName (cfg_JWT (ah_cfg ?h)) = ''refresh_token''"
    by (simp add: ex_handler_def NewAuth_def ex_config_def default_config_def)
  moreover have "\<forall>ch \<in> set ''refresh_token''. token_char ch" by (simp add: token_char_def ascii_letter_def)
  moreover have "body_read ?r = Some ''{}''" by (simp add: body_read_def ex_request_def MaxBody_def)
  moreover have "dec_credentials ex_decoders ''{}'' = Some (\<lparr>body_Email = ''A@b.c'', body_Password = ''correct horse''\<rparr>, [])"
    by (simp add: ex_decoders_def)
  moreover have "json_eof []" by (simp add: json_eof_def)
  ultimately show ?thesis
    using login_answer [of ?r "''{}''" ex_decoders "\<lparr>body_Email = ''A@b.c'', body_Password = ''correct horse''\<rparr>" "[]" no_response
        ?L ?h "ex_world 100 ex_tables" pair w'] run
    by (auto simp: no_response_def Let_def ex_handler_def NewAuth_def ex_config_def default_config_def)
qed

text \<open>
  C20. The rate-limit middleware fails closed: a request is passed on exactly when the limiter
  allows it; when the window is full or Redis reports an error, the answer is 429 with
  \<open>Retry-After\<close>, and the handler behind it does not run.
\<close>

theorem rate_limit_fails_closed:
  assumes "rl_Limiter rl = Some A" "1 \<le> rl_Limit rl" "resp_status p = None"
    and "run_state (Allow A (rl_Scope rl @ '':ip:'' @ ClientIP r) (rl_Limit rl) (rl_Window rl)) w = (a, w')"
  shows "run_state (RateLimit_Middleware rl next r) (w, p) =
    (if a = Inr True then run_state (next r) (w', p)
     else ((), (w', error_response (retry_after (rl_Window rl) p) ErrRateLimited)))"
  using RateLimit_passes [OF assms(1,2)] RateLimit_refuses [OF assms(1,2,3)] assms(4) by simp

theorem rate_limit_fails_closed_witness:
  "run_state (RateLimit_Middleware \<lparr>rl_Limiter = Some \<lparr>Allow = \<lambda>_ _ _. fail (ErrOther ''down'')\<rparr>, rl_Scope = ''s'',
       rl_Limit = 1, rl_Window = minute\<rparr> (\<lambda>_. WriteHeader 200) (ex_request ''GET'' ''/'' (\<lambda>_. [])))
     (mem_world 0 ex_tables no_keys, no_response) =
   ((), (mem_world 0 ex_tables no_keys, error_response (retry_after minute no_response) ErrRateLimited))"
  using rate_limit_fails_closed [of "\<lparr>rl_Limiter = Some \<lparr>Allow = \<lambda>_ _ _. fail (ErrOther ''down'')\<rparr>, rl_Scope = ''s'',
       rl_Limit = 1, rl_Window = minute\<rparr>" "\<lparr>Allow = \<lambda>_ _ _. fail (ErrOther ''down'')\<rparr>" no_response
       "ex_request ''GET'' ''/'' (\<lambda>_. [])" "mem_world 0 ex_tables no_keys" "Inl (ErrOther ''down'')"
       "mem_world 0 ex_tables no_keys"] by (simp add: run_fail)

text \<open>
  C21. An internal error does not leak: what the client sees of an error, status, code and message,
  depends only on which of the public sentinels the error wraps, is one of the eight fixed answers
  listed here, and is the answer 500 exactly when it wraps none of them.
\<close>

theorem errors_do_not_leak:
  assumes "\<And>t. t \<in> set public_errors \<Longrightarrow> errors_Is e t = errors_Is e' t"
  shows "MapError e = MapError e' \<and>
    MapError e \<in> {(400, \<lparr>api_Code = ''invalid_request'', api_Message = ''Invalid request''\<rparr>),
      (401, \<lparr>api_Code = ''unauthorized'', api_Message = ''Unauthorized''\<rparr>),
      (403, \<lparr>api_Code = ''forbidden'', api_Message = ''Forbidden''\<rparr>),
      (404, \<lparr>api_Code = ''not_found'', api_Message = ''Not found''\<rparr>),
      (409, \<lparr>api_Code = ''conflict'', api_Message = ''Resource already exists''\<rparr>),
      (429, \<lparr>api_Code = ''account_locked'', api_Message = ''Account temporarily locked''\<rparr>),
      (429, \<lparr>api_Code = ''rate_limited'', api_Message = ''Rate limit exceeded''\<rparr>),
      (500, \<lparr>api_Code = ''internal'', api_Message = ''Internal server error''\<rparr>)} \<and>
    fst (MapError e) \<in> {400, 401, 403, 404, 409, 429, 500} \<and>
    (fst (MapError e) = 500 \<longleftrightarrow> (\<forall>t \<in> set public_errors. \<not> errors_Is e t))"
  using MapError_no_leak [OF assms] MapError_internal [of e] MapError_table [of e] by auto

theorem errors_do_not_leak_witness:
  "MapError (Wrapped ''insert user'' (PgError ''23503'')) = MapError (ErrOther ''connection refused'')"
proof -
  have "errors_Is (Wrapped ''insert user'' (PgError ''23503'')) t = errors_Is (ErrOther ''connection refused'') t"
    if "t \<in> set public_errors" for t
    using that by (auto simp: public_errors_def)
  from errors_do_not_leak [OF this] show ?thesis by blast
qed

subsection \<open>Idempotent requests\<close>

context redis_server
begin

lemma replay_answer:
  assumes "resp_status p = None"
    and "run_state (Idem_Get (RedisIdempotency c) key) w = (Inr None, w1)"
    and "run_state (Idem_SetNX (RedisIdempotency c) (key @ '':lock'') ''1'' idemTTL) w1 = (Inr True, w2)"
    and "run_state fn w2 = (Inr (CHR ''{'' # b), w3)" "w_wait w3 = elapse"
    and "run_state (Idem_Set (RedisIdempotency c) key (CHR ''{'' # b) idemTTL) w3 = (Inr u, w4)"
    and "run_state (RunIdempotent (RedisIdempotency c) key fn) (w, p) = ((), (w5, p5))"
    and fr: "redis_frame view elapse {keyIdem key} w5 w6"
    and get: "run_state (Idem_Get (RedisIdempotency c) key) w6 = (Inr r, w7)" "w_clock w7 \<le> w_clock w4 + idemTTL - millis"
  shows "p5 = written p 201 (CHR ''{'' # b) \<and>
    run_state (RunIdempotent (RedisIdempotency c) key fn') (w6, p) = ((), (w7, written p 201 (CHR ''{'' # b)))"
proof -
  let ?S = "RedisIdempotency c" and ?v = "CHR ''{'' # b"
  obtain w5' e where f: "run_state (RunIdempotent ?S key fn) (w, p) = ((), (w5', written p 201 ?v))"
    "w_wait w5' = elapse" "stored view w5' (keyIdem key) = Some (RStr ?v, Some (e + skew view w5'))"
    "w_clock w4 + idemTTL - millis < e"
    by (rule idem.first_request [OF assms(2-6) assms(1)]) blast
  with assms(7) have eq: "w5' = w5" "p5 = written p 201 ?v" by simp_all
  from fr f(2,3) eq have k: "w_wait w6 = elapse" "stored view w6 (keyIdem key) = Some (RStr ?v, Some (e + skew view w6))"
    by (auto simp: redis_frame_def)
  have "run_state (RunIdempotent ?S key fn') (w6, p) = ((), (w7, written p 201 ?v))"
    by (rule idem.replayed [OF k get(1)]) (use get(2) f(4) assms(1) in auto)
  with eq show ?thesis by simp
qed

end

text \<open>
  C22. Idempotent registration: when the first request with a key ran its operation and the
  answer was stored, a repetition with the same key, as long as the entry lives (five minutes,
  less a millisecond) and Redis answers its lookup, gets the same answer, status 201 and body,
  without running any operation. (An error of the lookup is dropped, and the operation may then
  run again.)
\<close>

theorem idempotent_replay:
  assumes "redis_server c view elapse" "resp_status p = None"
    and "run_state (Idem_Get (RedisIdempotency c) key) w = (Inr None, w1)"
    and "run_state (Idem_SetNX (RedisIdempotency c) (key @ '':lock'') ''1'' idemTTL) w1 = (Inr True, w2)"
    and "run_state fn w2 = (Inr (CHR ''{'' # b), w3)" "w_wait w3 = elapse"
    and "run_state (Idem_Set (RedisIdempotency c) key (CHR ''{'' # b) idemTTL) w3 = (Inr u, w4)"
    and "run_state (RunIdempotent (RedisIdempotency c) key fn) (w, p) = ((), (w5, p5))"
    and "redis_frame view elapse {keyIdem key} w5 w6"
    and "run_state (Idem_Get (RedisIdempotency c) key) w6 = (Inr r, w7)" "w_clock w7 \<le> w_clock w4 + idemTTL - millis"
  shows "p5 = written p 201 (CHR ''{'' # b) \<and>
    run_state (RunIdempotent (RedisIdempotency c) key fn') (w6, p) = ((), (w7, written p 201 (CHR ''{'' # b)))"
  by (rule redis_server.replay_answer [OF assms])

lemma mem_idem:
  "run_state (Idem_Get (RedisIdempotency mem_client) k) (mem_world n d S) =
     (case ks_live S (keyIdem k) of None \<Rightarrow> Inr None | Some (RStr v) \<Rightarrow> Inr (Some v) | Some _ \<Rightarrow> Inl wrong_type,
      mem_world (Suc n) d S)"
  "run_state (Idem_Set (RedisIdempotency mem_client) k v ttl) (mem_world n d S) =
     (Inr (), mem_world (Suc n) d (snd (ks_set (keyIdem k) v ttl S)))"
  "run_state (Idem_SetNX (RedisIdempotency mem_client) k v ttl) (mem_world n d S) =
     (fst (ks_setnx (keyIdem k) v ttl S), mem_world (Suc n) d (snd (ks_setnx (keyIdem k) v ttl S)))"
  "\<exists>q. run_state (Idem_Delete (RedisIdempotency mem_client) k) (mem_world n d S) =
     (q, mem_world (Suc n) d (ks_put (keyIdem k) None S))"
  by (auto simp: RedisIdempotency_def Idempotency_Get_def Idempotency_Set_def Idempotency_SetNX_def
      Idempotency_Delete_def mem_ops ks_get_def ks_set_def ks_setnx_def ks_del_def wrong_type_def
      split: option.splits rvalue.splits)

theorem idempotent_replay_witness:
  "\<exists>w5 w7. run_state (RunIdempotent (RedisIdempotency mem_client) ''k'' (ok ''{}'')) (mem_world 0 ex_tables no_keys, no_response)
       = ((), (w5, written no_response 201 ''{}'')) \<and>
     run_state (RunIdempotent (RedisIdempotency mem_client) ''k'' (fail ErrConflict)) (w5, no_response)
       = ((), (w7, written no_response 201 ''{}''))"
proof -
  let ?S1 = "ks_put (keyIdem ''k:lock'') (Some (RStr ''1'', Some idemTTL)) no_keys"
  let ?S2 = "ks_put (keyIdem ''k'') (Some (RStr ''{}'', Some idemTTL)) ?S1"
  let ?S3 = "ks_put (keyIdem ''k:lock'') None ?S2"
  have ttl: "ttl_millis idemTTL = idemTTL" "0 < idemTTL" by (simp_all add: idemTTL_def minute_def ttl_millis_def)
  have now: "ks_now no_keys = 0" by (simp add: no_keys_def)
  have g: "run_state (Idem_Get (RedisIdempotency mem_client) ''k'') (mem_world 0 ex_tables no_keys) = (Inr None, mem_world 1 ex_tables no_keys)"
    by (simp add: mem_idem ks_live_def ks_entry_def no_keys_def)
  have l: "run_state (Idem_SetNX (RedisIdempotency mem_client) (''k'' @ '':lock'') ''1'' idemTTL) (mem_world 1 ex_tables no_keys)
      = (Inr True, mem_world 2 ex_tables ?S1)"
    using ttl now by (simp add: mem_idem ks_setnx_def ks_entry_def no_keys_def ks_ttl_def numeral_2_eq_2)
  have s: "run_state (Idem_Set (RedisIdempotency mem_client) ''k'' ''{}'' idemTTL) (mem_world 2 ex_tables ?S1) = (Inr (), mem_world 3 ex_tables ?S2)"
    using ttl now by (simp add: mem_idem ks_set_def ks_ttl_def)
  obtain q where "run_state (Idem_Delete (RedisIdempotency mem_client) ''k:lock'') (mem_world 3 ex_tables ?S2) = (q, mem_world (Suc 3) ex_tables ?S3)"
    using mem_idem(4) by blast
  then have "run_state (RunIdempotent (RedisIdempotency mem_client) ''k'' (ok ''{}'')) (mem_world 0 ex_tables no_keys, no_response)
       = ((), (mem_world (Suc 3) ex_tables ?S3, written no_response 201 ''{}''))"
    using g l s writeCached_miss [OF g, of no_response]
    by (simp add: RunIdempotent_def run_service run_ok run_WriteBytes no_response_def Let_def)
  note first = this
  have again: "run_state (Idem_Get (RedisIdempotency mem_client) ''k'') (mem_world (Suc 3) ex_tables ?S3)
      = (Inr (Some ''{}''), mem_world (Suc (Suc 3)) ex_tables ?S3)"
    using ttl now by (simp add: mem_idem ks_live_put unexpired_def)
  have "w_clock (mem_world (Suc (Suc 3)) ex_tables ?S3) \<le> w_clock (mem_world 3 ex_tables ?S2) + idemTTL - millis"
    by (simp add: idemTTL_def minute_def)
  from idempotent_replay [OF mem.redis_server_axioms _ g l run_ok _ s first mem_frame_refl again this, of "fail ErrConflict"] first
  show ?thesis by (auto simp: no_response_def)
qed

subsection \<open>Guards and addresses\<close>

text \<open>
  The metrics endpoint: with a token configured, exactly the requests that present it are let
  through and the others get 401; without one, exactly the requests from a loopback address, and
  the others get 403.
\<close>

theorem metrics_guard:
  assumes "resp_status p = None"
  shows "run_state (MetricsAuth loopback token next r) (w, p) =
    (if token \<noteq> [] \<and> BearerToken (req_header r ''Authorization'') = token \<or>
        token = [] \<and> isLoopback loopback r
     then run_state (next r) (w, p)
     else ((), (w, error_response p (if token \<noteq> [] then ErrUnauthorized else ErrForbidden))))"
  by (rule MetricsAuth_passes_iff [OF assms])

theorem metrics_guard_witness:
  "run_state (MetricsAuth (\<lambda>_. True) ''secret'' (\<lambda>_. WriteHeader 200) (ex_request ''GET'' ''/metrics'' ex_bearer))
     (mem_world 0 ex_tables no_keys, no_response) =
   ((), (mem_world 0 ex_tables no_keys, error_response no_response ErrUnauthorized))"
  using metrics_guard [of no_response "\<lambda>_. True" "''secret''" "\<lambda>_. WriteHeader 200"
      "ex_request ''GET'' ''/metrics'' ex_bearer"] by simp

text \<open>
  Trace identifiers are safe to log and to send back: whatever the client sends, the handler
  behind \<open>TraceContext\<close> sees, and the response carries, a request and a correlation identifier
  of 1 to 64 letters, digits, dashes and underscores; a value of that form from the client is kept.
\<close>

theorem trace_ids_are_safe:
  assumes "\<And>u. traceIDPattern (uuid_String V u)" "resp_status p = None"
  shows "\<exists>i j w1 p1. traceIDPattern i \<and> traceIDPattern j \<and>
    (traceIDPattern (req_header r ''X-Request-ID'') \<longrightarrow> i = req_header r ''X-Request-ID'') \<and>
    (traceIDPattern (req_header r ''X-Correlation-ID'') \<longrightarrow> j = req_header r ''X-Correlation-ID'') \<and>
    (''X-Request-ID'', i) \<in> set (resp_header p1) \<and> (''X-Correlation-ID'', j) \<in> set (resp_header p1) \<and>
    run_state (TraceContext V next r) (w, p) =
      run_state (next (r\<lparr>req_request_id := i, req_correlation_id := j\<rparr>)) (w1, p1)"
proof -
  let ?a = "req_header r ''X-Request-ID''" and ?b = "req_header r ''X-Correlation-ID''"
  obtain i w1 p1 where i: "run_state (sanitizeTraceID V ?a) (w, p) = (i, (w1, p1))" by (metis surj_pair)
  note si = sanitizeTraceID_ok [OF i assms(1)]
  obtain j w2 p2 where j: "run_state (sanitizeTraceID V ?b) (w1, p) = (j, (w2, p2))" by (metis surj_pair)
  note sj = sanitizeTraceID_ok [OF j assms(1)]
  let ?h = "(''X-Correlation-ID'', j) # filter (\<lambda>h. fst h \<noteq> ''X-Correlation-ID'')
    ((''X-Request-ID'', i) # filter (\<lambda>h. fst h \<noteq> ''X-Request-ID'') (resp_header p))"
  have "run_state (TraceContext V next r) (w, p) =
      run_state (next (r\<lparr>req_request_id := i, req_correlation_id := j\<rparr>)) (w2, p\<lparr>resp_header := ?h\<rparr>)"
    using i j si sj assms(2) by (simp add: TraceContext_def header_Set_def run_respond)
  then show ?thesis using si sj
    by (intro exI [of _ i] exI [of _ j] exI [of _ w2] exI [of _ "p\<lparr>resp_header := ?h\<rparr>"]) simp
qed

definition ex_trace_uuid :: uuid_lib where
  "ex_trace_uuid = \<lparr>uuid_String = \<lambda>_. ''u-1'', uuid_Parse = \<lambda>_. None\<rparr>"

theorem trace_ids_are_safe_witness:
  "\<exists>i j w1 p1. traceIDPattern i \<and> (''X-Request-ID'', i) \<in> set (resp_header p1) \<and>
     run_state (TraceContext ex_trace_uuid (\<lambda>_. WriteHeader 200) (ex_request ''GET'' ''/'' (\<lambda>_. ''bad id'')))
       (mem_world 0 ex_tables no_keys, no_response) =
     run_state (WriteHeader 200) (w1, p1)"
proof -
  have "traceIDPattern (uuid_String ex_trace_uuid u)" for u
    by (simp add: traceIDPattern_def ex_trace_uuid_def trace_char_def ascii_letter_def ascii_digit_def)
  from trace_ids_are_safe [OF this, of no_response "ex_request ''GET'' ''/'' (\<lambda>_. ''bad id'')" "\<lambda>_. WriteHeader 200"]
  show ?thesis by fastforce
qed

text \<open>
  The client address: for the remote address of a connection, host and port joined as Go does
  it, IPv6 hosts in brackets, \<open>ClientIP\<close> is the host.
\<close>

theorem client_ip_of_connection:
  assumes "req_remote r = JoinHostPort host port" "TrimSpace (req_remote r) = req_remote r"
    and "CHR ''['' \<notin> set host" "CHR '']'' \<notin> set host"
    and "CHR '':'' \<notin> set port" "CHR ''['' \<notin> set port" "CHR '']'' \<notin> set port"
  shows "ClientIP r = host"
  by (rule ClientIP_join [OF assms])

theorem client_ip_of_connection_witness:
  "ClientIP ((ex_request ''GET'' ''/'' (\<lambda>_. []))\<lparr>req_remote := ''[::1]:80''\<rparr>) = ''::1''"
  by (rule client_ip_of_connection [of _ "''::1''" "''80''"])
    (simp_all add: JoinHostPort_def TrimSpace_id is_ascii_def IsSpace_def)

text \<open>
  C24. Every request is answered: whatever the handlers and the middlewares behind the stack do,
  also when one of them panics, the request ends with a response, the inner one or, after a panic,
  one with a status, which is 500 unless a status was already sent. The inner handlers see a
  request and a correlation identifier of 1 to 64 letters, digits, dashes and underscores, those of
  the client where they have that form, and the identifiers and the security headers are set
  before they run.
\<close>

theorem every_request_is_answered:
  assumes "\<And>u. traceIDPattern (uuid_String V u)" "resp_status p = None"
  shows "\<exists>reqID corrID w1 p1 res w2 q w'.
    run_state (Stack_Use X V s next r) (w, p) = ((), (w', recovered res q)) \<and>
    run_state (stack_inner X s next (r\<lparr>req_request_id := reqID, req_correlation_id := corrID\<rparr>)) (w1, p1) = (res, (w2, q)) \<and>
    (out_panic res \<noteq> None \<longrightarrow> resp_status (recovered res q) =
       (case resp_status q of None \<Rightarrow> Some 500 | Some st \<Rightarrow> Some st)) \<and>
    traceIDPattern reqID \<and> traceIDPattern corrID \<and>
    (traceIDPattern (req_header r ''X-Request-ID'') \<longrightarrow> reqID = req_header r ''X-Request-ID'') \<and>
    (traceIDPattern (req_header r ''X-Correlation-ID'') \<longrightarrow> corrID = req_header r ''X-Correlation-ID'') \<and>
    resp_status p1 = None \<and> {(''X-Request-ID'', reqID), (''X-Correlation-ID'', corrID)} \<union>
      set (security_headers (st_Production s)) \<subseteq> set (resp_header p1)"
proof -
  obtain reqID corrID w1 p1 res w2 q w' where stack:
    "traceIDPattern reqID" "traceIDPattern corrID"
    "traceIDPattern (req_header r ''X-Request-ID'') \<longrightarrow> reqID = req_header r ''X-Request-ID''"
    "traceIDPattern (req_header r ''X-Correlation-ID'') \<longrightarrow> corrID = req_header r ''X-Correlation-ID''"
    "resp_status p1 = None" "resp_body p1 = resp_body p"
    "{(''X-Request-ID'', reqID), (''X-Correlation-ID'', corrID)} \<union> set (security_headers (st_Production s))
       \<subseteq> set (resp_header p1)"
    "run_state (stack_inner X s next (r\<lparr>req_request_id := reqID, req_correlation_id := corrID\<rparr>)) (w1, p1) = (res, (w2, q))"
    "run_state (Stack_Use X V s next r) (w, p) = ((), (w', recovered res q))"
    by (rule Stack_run [OF assms])
  show ?thesis
    by (rule exI [of _ reqID], rule exI [of _ corrID], rule exI [of _ w1], rule exI [of _ p1], rule exI [of _ res],
        rule exI [of _ w2], rule exI [of _ q], rule exI [of _ w'])
      (intro conjI impI stack recovered_status)
qed

text \<open>A handler that panics before it writes anything, behind middlewares that only pass on.\<close>

definition ex_panic :: "mem svc_world phandler" where
  "ex_panic r = State_Monad.return \<lparr>out_remote = req_remote r, out_panic = Some ''boom''\<rparr>"

definition ex_stack :: "mem svc_world Stack" where
  "ex_stack = \<lparr>st_Logger = no_log, st_AllowedOrigins = [], st_Timeout = second, st_Production = True, st_TrustProxy = False\<rparr>"

theorem every_request_is_answered_witness:
  "\<exists>w' p'. run_state (Stack_Use ex_web ex_trace_uuid ex_stack ex_panic (ex_request ''GET'' ''/'' (\<lambda>_. ''bad id'')))
      (mem_world 0 ex_tables no_keys, no_response) = ((), (w', p')) \<and> resp_status p' = Some 500"
proof -
  have ids: "traceIDPattern (uuid_String ex_trace_uuid u)" for u
    by (simp add: traceIDPattern_def ex_trace_uuid_def trace_char_def ascii_letter_def ascii_digit_def)
  have none: "resp_status no_response = None" by (simp add: no_response_def)
  obtain reqID corrID w1 p1 res w2 q w' where stack:
    "run_state (Stack_Use ex_web ex_trace_uuid ex_stack ex_panic (ex_request ''GET'' ''/'' (\<lambda>_. ''bad id'')))
      (mem_world 0 ex_tables no_keys, no_response) = ((), (w', recovered res q))"
    "run_state (stack_inner ex_web ex_stack ex_panic
      ((ex_request ''GET'' ''/'' (\<lambda>_. ''bad id''))\<lparr>req_request_id := reqID, req_correlation_id := corrID\<rparr>)) (w1, p1) = (res, (w2, q))"
    "resp_status p1 = None"
    using every_request_is_answered [OF ids none, of ex_web ex_stack ex_panic "ex_request ''GET'' ''/'' (\<lambda>_. ''bad id'')"
        "mem_world 0 ex_tables no_keys"]
    by - (elim exE conjE, rule that, assumption+)
  then have "out_panic res = Some ''boom''" "resp_status q = None"
    by (auto simp: stack_inner_def ex_web_def ex_stack_def ex_panic_def)
  with stack(1) recovered_status [of res q] show ?thesis by auto
qed

subsection \<open>The configuration\<close>

text \<open>
  C27. A configuration that passes validation is safe to run with: the signing secret has at least
  32 bytes, the bcrypt cost is between 10 and 14, every rate limit is positive; in production the
  refresh cookie is \<open>Secure\<close>, the allowed origins are listed and have no wildcard, and TLS to
  the database is not disabled; with email on, both action links can be built for every token
  (with email off their bases are not checked, see \<open>unchecked_link_base\<close> in \<open>Divergences\<close>).
\<close>

theorem validated_config_is_safe:
  assumes "Config_Validate W cfg = Inr u"
  shows "32 \<le> length (jwt_AccessSecret (cfg_JWT cfg)) \<and>
    10 \<le> sec_BcryptCost (cfg_Security cfg) \<and> sec_BcryptCost (cfg_Security cfg) \<le> 14 \<and>
    (\<forall>(n, v) \<in> set (limits_of (cfg_Security cfg)). 1 \<le> v) \<and>
    (IsProduction cfg \<longrightarrow> jwt_RefreshCookieSecure (cfg_JWT cfg) \<and> http_AllowedOrigins (cfg_HTTP cfg) \<noteq> [] \<and>
       ''*'' \<notin> set (http_AllowedOrigins (cfg_HTTP cfg)) \<and> pg_SSLMode (cfg_Postgres cfg) \<noteq> ''disable'') \<and>
    (email_Enabled (cfg_Email cfg) \<longrightarrow>
       (\<exists>l. ActionLink W (email_VerifyLinkBase (cfg_Email cfg)) tok = Inr l) \<and>
       (\<exists>l. ActionLink W (email_ResetLinkBase (cfg_Email cfg)) tok = Inr l))"
  using validated_always [OF assms] validated_production [OF assms] validated_email(1,2) [OF assms] by blast

theorem validated_config_is_safe_witness:
  "Config_Validate ex_url ex_config = Inr () \<and> 32 \<le> length (jwt_AccessSecret (cfg_JWT ex_config))"
proof -
  have p: "\<not> EqualFold ''development'' ''production''" by code_simp
  have "Config_Validate ex_url ex_config = Inr ()"
    by (simp add: Config_Validate_def check_production_def check_email_def validate_ok_iffs IsProduction_def p
        limits_of_def ex_config_def default_config_def)
  with validated_config_is_safe [OF this] show ?thesis by blast
qed

end
