(* ===== verification/Seed.thy ===== *)
theory Seed
  imports System
begin

text \<open>
  \<open>migrations/000002_seed.up.sql\<close> and its \<open>down\<close>: the roles and permissions the service relies on.
  The UUIDs Postgres draws for the new rows are arguments. A migration file is sent as one message,
  which Postgres runs as one transaction: an error undoes all of it. Shown: both files keep the
  constraints of the schema, a seeded database
  gives every account that registers the permission that \<open>GET /me\<close> asks for, and undoing the seed
  takes the roles of the accounts along, because \<open>user_roles\<close> refers to \<open>roles\<close> with
  \<open>ON DELETE CASCADE\<close>.
\<close>

subsection \<open>The statements\<close>

definition seed_roles :: "string list" where
  "seed_roles = [''admin'', ''moderator'', ''user'']"

definition seed_permissions :: "string list" where
  "seed_permissions = [''create_user'', ''delete_user'', ''manage_roles'', ''read_profile'', ''update_profile'', ''moderate_content'']"

text \<open>An insert of names into \<open>roles\<close> or \<open>permissions\<close>, where ids and names are unique.\<close>

definition insert_names :: "uuid list \<Rightarrow> string list \<Rightarrow> (uuid \<times> string) list \<Rightarrow> err + (uuid \<times> string) list" where
  "insert_names ids names rows =
     (let rows' = rows @ zip ids names
      in if distinct (map fst rows') \<and> distinct (map snd rows') then Inr rows' else Inl unique_violation)"

text \<open>\<open>INSERT INTO role_permissions SELECT .. WHERE r.name = role AND p.name\<close> satisfies \<open>which\<close>.\<close>

definition grant :: "string \<Rightarrow> (string \<Rightarrow> bool) \<Rightarrow> tables \<Rightarrow> err + tables" where
  "grant role which d =
     (let new = concat (map (\<lambda>r. map (\<lambda>p. (fst r, fst p)) (filter (\<lambda>p. which (snd p)) (tb_permissions d)))
            (filter (\<lambda>r. snd r = role) (tb_roles d)))
      in if distinct (tb_role_permissions d @ new)
         then Inr (d\<lparr>tb_role_permissions := tb_role_permissions d @ new\<rparr>)
         else Inl unique_violation)"

definition seed_statements :: "uuid list \<Rightarrow> uuid list \<Rightarrow> tables \<Rightarrow> err + tables" where
  "seed_statements rids pids d =
     (case insert_names rids seed_roles (tb_roles d) of
        Inl e \<Rightarrow> Inl e
      | Inr roles \<Rightarrow>
     (case insert_names pids seed_permissions (tb_permissions d) of
        Inl e \<Rightarrow> Inl e
      | Inr perms \<Rightarrow>
     (case grant ''admin'' (\<lambda>_. True) (d\<lparr>tb_roles := roles, tb_permissions := perms\<rparr>) of
        Inl e \<Rightarrow> Inl e
      | Inr d1 \<Rightarrow>
     (case grant ''moderator'' (\<lambda>n. n \<in> {''read_profile'', ''update_profile'', ''moderate_content''}) d1 of
        Inl e \<Rightarrow> Inl e
      | Inr d2 \<Rightarrow> grant ''user'' (\<lambda>n. n \<in> {''read_profile'', ''update_profile''}) d2))))"

definition seed_up :: "uuid list \<Rightarrow> uuid list \<Rightarrow> tables \<Rightarrow> (err + unit) \<times> tables" where
  "seed_up rids pids d = (case seed_statements rids pids d of Inl e \<Rightarrow> (Inl e, d) | Inr d' \<Rightarrow> (Inr (), d'))"

definition seed_down :: "tables \<Rightarrow> tables" where
  "seed_down d = d\<lparr>tb_role_permissions := [], tb_permissions := [], tb_roles := [], tb_user_roles := []\<rparr>"

subsection \<open>What a seeded database grants\<close>

lemma insert_names_Inr:
  "insert_names ids names rows = Inr rows' \<Longrightarrow> rows' = rows @ zip ids names \<and> distinct (map fst rows') \<and> distinct (map snd rows')"
  by (auto simp: insert_names_def Let_def split: if_splits)

lemma grant_Inr:
  assumes "grant role which d = Inr d'"
  shows "\<exists>rp. d' = d\<lparr>tb_role_permissions := rp\<rparr> \<and> set (tb_role_permissions d) \<subseteq> set rp \<and>
    (\<forall>r p. r \<in> set (tb_roles d) \<longrightarrow> snd r = role \<longrightarrow> p \<in> set (tb_permissions d) \<longrightarrow> which (snd p) \<longrightarrow> (fst r, fst p) \<in> set rp)"
proof -
  define new where "new = concat (map (\<lambda>r. map (\<lambda>p. (fst r, fst p)) (filter (\<lambda>p. which (snd p)) (tb_permissions d)))
    (filter (\<lambda>r. snd r = role) (tb_roles d)))"
  have "d' = d\<lparr>tb_role_permissions := tb_role_permissions d @ new\<rparr>"
    using assms unfolding grant_def Let_def new_def [symmetric]
    by (cases "distinct (tb_role_permissions d @ new)") (simp_all only: if_True if_False sum.inject sum.distinct)
  moreover have "(fst r, fst p) \<in> set new"
    if "r \<in> set (tb_roles d)" "snd r = role" "p \<in> set (tb_permissions d)" "which (snd p)" for r p
    using that by (force simp: new_def)
  ultimately show ?thesis by (intro exI [of _ "tb_role_permissions d @ new"]) simp
qed

text \<open>The role every account gets, with its permissions, and that no other role has its name.\<close>

definition seeded :: "tables \<Rightarrow> bool" where
  "seeded d \<longleftrightarrow> distinct (map fst (tb_roles d)) \<and> distinct (map snd (tb_roles d)) \<and>
     (\<exists>r p. (r, defaultRole) \<in> set (tb_roles d) \<and> (p, ''read_profile'') \<in> set (tb_permissions d) \<and>
        (r, p) \<in> set (tb_role_permissions d))"

lemma seed_up_seeded:
  assumes "seed_up rids pids d = (Inr (), d')" "length rids = 3" "length pids = 6"
  shows "seeded d' \<and> tb_users d' = tb_users d \<and> tb_user_roles d' = tb_user_roles d"
proof -
  obtain roles perms d1 d2 where s: "insert_names rids seed_roles (tb_roles d) = Inr roles"
    "insert_names pids seed_permissions (tb_permissions d) = Inr perms"
    "grant ''admin'' (\<lambda>_. True) (d\<lparr>tb_roles := roles, tb_permissions := perms\<rparr>) = Inr d1"
    "grant ''moderator'' (\<lambda>n. n \<in> {''read_profile'', ''update_profile'', ''moderate_content''}) d1 = Inr d2"
    "grant ''user'' (\<lambda>n. n \<in> {''read_profile'', ''update_profile''}) d2 = Inr d'"
    using assms(1) by (auto simp: seed_up_def seed_statements_def split: sum.splits)
  obtain a1 a2 a3 where r: "rids = [a1, a2, a3]" using assms(2) by (auto simp: length_Suc_conv numeral_eq_Suc)
  obtain b1 b2 b3 b4 b5 b6 where p: "pids = [b1, b2, b3, b4, b5, b6]" using assms(3) by (auto simp: length_Suc_conv numeral_eq_Suc)
  have "roles = tb_roles d @ zip rids seed_roles" and distinct: "distinct (map fst roles)" "distinct (map snd roles)"
    using insert_names_Inr [OF s(1)] by blast+
  then have roles: "(a3, ''user'') \<in> set roles" by (simp add: r seed_roles_def)
  have perms: "(b4, ''read_profile'') \<in> set perms"
    using insert_names_Inr [OF s(2)] by (simp add: p seed_permissions_def)
  obtain rp1 where 1: "d1 = d\<lparr>tb_roles := roles, tb_permissions := perms, tb_role_permissions := rp1\<rparr>"
    using grant_Inr [OF s(3)] by auto
  obtain rp2 where 2: "d2 = d1\<lparr>tb_role_permissions := rp2\<rparr>" using grant_Inr [OF s(4)] by auto
  obtain rp3 where 3: "d' = d2\<lparr>tb_role_permissions := rp3\<rparr>"
    "\<forall>r p. r \<in> set (tb_roles d2) \<longrightarrow> snd r = ''user'' \<longrightarrow> p \<in> set (tb_permissions d2) \<longrightarrow>
       snd p \<in> {''read_profile'', ''update_profile''} \<longrightarrow> (fst r, fst p) \<in> set rp3"
    using grant_Inr [OF s(5)] by blast
  have "(a3, b4) \<in> set rp3" using 3(2) [rule_format, of "(a3, ''user'')" "(b4, ''read_profile'')"] roles perms 1 2 by simp
  with roles distinct perms 1 2 3(1) show ?thesis by (auto simp: seeded_def defaultRole_def)
qed

text \<open>A second run of the seed changes nothing.\<close>

lemma seed_twice:
  assumes "seed_up rids pids d = (Inr (), d')" "length rids = 3" "length pids = 6" "length rids' = 3"
  shows "seed_up rids' pids' d' = (Inl unique_violation, d')"
proof -
  obtain r where r: "(r, ''user'') \<in> set (tb_roles d')"
    using seed_up_seeded [OF assms(1-3)] by (auto simp: seeded_def defaultRole_def)
  obtain a1 a2 a3 where ids: "rids' = [a1, a2, a3]" using assms(4) by (auto simp: length_Suc_conv numeral_eq_Suc)
  have "\<not> distinct (map snd (tb_roles d' @ zip rids' seed_roles))"
    using r by (force simp: ids seed_roles_def)
  then have "insert_names rids' seed_roles (tb_roles d') = Inl unique_violation"
    unfolding insert_names_def Let_def by presburger
  then show ?thesis by (simp add: seed_up_def seed_statements_def)
qed

text \<open>The constraints of the schema hold before and after, whichever way the file is run.\<close>

lemma insert_names_ok:
  assumes "insert_names ids names rows = Inr rows'" "names_ok n rows" "\<forall>x \<in> set names. varchar n x"
  shows "names_ok n rows' \<and> set rows \<subseteq> set rows'"
proof -
  have r: "set rows' = set rows \<union> set (zip ids names)" "distinct (map fst rows')" "distinct (map snd rows')"
    using insert_names_Inr [OF assms(1)] set_append [of rows "zip ids names"] by metis+
  moreover have "varchar n (snd x)" if "x \<in> set (zip ids names)" for x
    using that assms(3) set_zip_rightD [of "fst x" "snd x" ids names] by simp
  ultimately show ?thesis using assms(2) by (auto simp: names_ok_def simp del: map_append distinct_append)
qed

lemma links_ok_mono: "links_ok as bs xs \<Longrightarrow> as \<subseteq> as' \<Longrightarrow> bs \<subseteq> bs' \<Longrightarrow> links_ok as' bs' xs"
  unfolding links_ok_def by blast

lemma grant_ok:
  assumes "grant role which d = Inr d'" "schema_ok P d"
  shows "schema_ok P d'"
proof -
  define new where "new = concat (map (\<lambda>r. map (\<lambda>p. (fst r, fst p)) (filter (\<lambda>p. which (snd p)) (tb_permissions d)))
    (filter (\<lambda>r. snd r = role) (tb_roles d)))"
  have d': "d' = d\<lparr>tb_role_permissions := tb_role_permissions d @ new\<rparr>" and dist: "distinct (tb_role_permissions d @ new)"
    using assms(1) unfolding grant_def Let_def new_def [symmetric]
    by (cases "distinct (tb_role_permissions d @ new)"; simp only: if_True if_False sum.inject sum.distinct)+
  have "set new \<subseteq> fst ` set (tb_roles d) \<times> fst ` set (tb_permissions d)" by (auto simp: new_def)
  with assms(2) dist show ?thesis
    by (auto simp: d' schema_ok_def links_ok_def live_users_def onetime_ok_def user_ids_def columns_ok_def)
qed

lemma seed_up_schema:
  assumes "schema_ok P d" "seed_up rids pids d = (r, d')"
  shows "schema_ok P d'"
proof (cases "seed_statements rids pids d")
  case (Inl e)
  with assms show ?thesis by (simp add: seed_up_def)
next
  case (Inr d0)
  with assms(2) have d0: "d0 = d'" by (simp add: seed_up_def)
  obtain roles perms d1 d2 where s: "insert_names rids seed_roles (tb_roles d) = Inr roles"
    "insert_names pids seed_permissions (tb_permissions d) = Inr perms"
    "grant ''admin'' (\<lambda>_. True) (d\<lparr>tb_roles := roles, tb_permissions := perms\<rparr>) = Inr d1"
    "grant ''moderator'' (\<lambda>n. n \<in> {''read_profile'', ''update_profile'', ''moderate_content''}) d1 = Inr d2"
    "grant ''user'' (\<lambda>n. n \<in> {''read_profile'', ''update_profile''}) d2 = Inr d0"
    using Inr by (auto simp: seed_statements_def split: sum.splits)
  have short: "\<forall>x \<in> set seed_roles. varchar 50 x" "\<forall>x \<in> set seed_permissions. varchar 100 x"
    by (auto simp: seed_roles_def seed_permissions_def intro!: varchar_le)
  have "names_ok 50 (tb_roles d)" "names_ok 100 (tb_permissions d)" using assms(1) by (simp_all add: schema_ok_def)
  then have n: "names_ok 50 roles \<and> set (tb_roles d) \<subseteq> set roles" "names_ok 100 perms \<and> set (tb_permissions d) \<subseteq> set perms"
    using insert_names_ok [OF s(1) _ short(1)] insert_names_ok [OF s(2) _ short(2)] by blast+
  then have "fst ` set (tb_roles d) \<subseteq> fst ` set roles" "fst ` set (tb_permissions d) \<subseteq> fst ` set perms"
    by (simp_all add: image_mono)
  with n have "schema_ok P (d\<lparr>tb_roles := roles, tb_permissions := perms\<rparr>)"
    using assms(1) links_ok_mono [of "fst ` set (tb_roles d)" "fst ` set (tb_permissions d)"]
      links_ok_mono [of "user_ids d" "fst ` set (tb_roles d)" "tb_user_roles d" "user_ids d"]
    by (simp add: schema_ok_def live_users_def onetime_ok_def user_ids_def columns_ok_def)
  then show ?thesis using s(3-5) grant_ok unfolding d0 by blast
qed

lemma seed_down_schema: "schema_ok P d \<Longrightarrow> schema_ok P (seed_down d)"
  by (simp add: seed_down_def schema_ok_def names_ok_def links_ok_def live_users_def onetime_ok_def user_ids_def columns_ok_def)

text \<open>Undoing the seed leaves every account without a role, and doing it again does not give it back.\<close>

lemma reseeding_loses_roles:
  assumes "seed_up rids pids (seed_down d) = (Inr (), d')" "length rids = 3" "length pids = 6"
  shows "tb_users d' = tb_users d \<and> permissions_of uid d' = []"
  using seed_up_seeded [OF assms] by (simp add: seed_down_def permissions_of_def roles_of_def)

subsection \<open>From registration to the profile\<close>

lemma seeded_evolves: "seeded d \<Longrightarrow> evolves d d' \<Longrightarrow> seeded d'"
  by (auto simp: seeded_def evolves_def)

text \<open>An account with the role \<open>user\<close> in a seeded database may read its profile.\<close>

lemma profile_of_seeded:
  assumes "healthy w" "seeded (w_pg w)" "\<And>xs. set (agg_DISTINCT P xs) = set xs"
    and "u \<in> set (tb_users (w_pg w))" "u_deleted u = None"
    and "\<And>r. (r, defaultRole) \<in> set (tb_roles (w_pg w)) \<Longrightarrow> (u_id u, r) \<in> set (tb_user_roles (w_pg w))"
  shows "\<exists>p. run_state (UserRepo_GetAuthProfile P (u_id u)) w = (Inr p, advance w) \<and>
    defaultRole \<in> set (prof_Roles p) \<and> ''read_profile'' \<in> set (prof_Permissions p)"
proof -
  let ?d = "w_pg w"
  obtain r p where rp: "(r, defaultRole) \<in> set (tb_roles ?d)" "(p, ''read_profile'') \<in> set (tb_permissions ?d)"
    "(r, p) \<in> set (tb_role_permissions ?d)"
    using assms(2) unfolding seeded_def by blast
  have role: "(r, defaultRole) \<in> set (roles_of (u_id u) ?d)" using rp(1) assms(6) by (simp add: roles_of_def)
  then have "''read_profile'' \<in> set (permissions_of (u_id u) ?d)"
    using rp(2,3) by (force simp: permissions_of_def)
  moreover have "defaultRole \<in> snd ` set (roles_of (u_id u) ?d)" using role by force
  moreover obtain v vs where "filter (live_id (u_id u)) (tb_users ?d) = v # vs"
    using assms(4,5) by (cases "filter (live_id (u_id u)) (tb_users ?d)") (auto simp: live_id_def filter_empty_conv)
  ultimately show ?thesis
    using assms(1,3) by (simp add: UserRepo_GetAuthProfile_def run_pg_query_healthy)
qed

lemma registered_reads_profile:
  assumes "seeded (w_pg w)" "\<And>xs. set (agg_DISTINCT P xs) = set xs"
    and "run_state (Register L (app_auth L P c M cfg) i ip ua) w = (Inr tok, w1)"
    and "runs L (app_auth L P c M cfg) w1 ops w2" "healthy w2"
  shows "\<exists>uid p. uid \<notin> user_ids (w_pg w) \<and> uid \<in> user_ids (w_pg w1) \<and>
    run_state (GetProfile (app_auth L P c M cfg) uid) w2 = (Inr p, advance w2) \<and>
    defaultRole \<in> set (prof_Roles p) \<and> ''read_profile'' \<in> set (prof_Permissions p)"
proof -
  obtain row hash where row: "u_id row \<notin> user_ids (w_pg w)" "new_user_row P (normEmail L (reg_Email i)) hash row"
    "tb_users (w_pg w1) = tb_users (w_pg w) @ [row]"
    "tb_user_roles (w_pg w1) = tb_user_roles (w_pg w) @
       map (\<lambda>r. (u_id row, fst r)) (filter (\<lambda>r. snd r = defaultRole) (tb_roles (w_pg w)))"
    by (rule Register_done [OF assms(3)])
  have e0: "evolves (w_pg w) (w_pg w1)"
    using effectD [OF wired_db_step(1) [of P L c M cfg i ip ua] assms(3)] by (simp add: pg_rel_def db_step_def)
  have e: "evolves (w_pg w1) (w_pg w2)" by (rule runs_evolves [OF assms(4)])
  have s: "seeded (w_pg w2)" by (rule seeded_evolves [OF seeded_evolves [OF assms(1) e0] e])
  have same: "tb_roles (w_pg w2) = tb_roles (w_pg w)" using e0 e by (simp add: evolves_def)
  have "row \<in> set (tb_users (w_pg w1))" using row(3) by simp
  then obtain u where u: "u \<in> set (tb_users (w_pg w2))" "user_le row u"
    using e growsD [of user_le "tb_users (w_pg w1)" "tb_users (w_pg w2)" row] by (auto simp: evolves_def)
  have id: "u_id u = u_id row" "u_deleted u = None" using u(2) row(2) by (simp_all add: user_le_def new_user_row_def)
  have "(u_id u, r) \<in> set (tb_user_roles (w_pg w2))" if "(r, defaultRole) \<in> set (tb_roles (w_pg w2))" for r
  proof -
    have "(u_id row, r) \<in> set (tb_user_roles (w_pg w1))" using that row(4) same by force
    then show ?thesis using e id(1) growsD [of "(=)" "tb_user_roles (w_pg w1)" "tb_user_roles (w_pg w2)"] by (auto simp: evolves_def)
  qed
  from profile_of_seeded [OF assms(5) s assms(2) u(1) id(2) this] row(1,3) id(1) show ?thesis
    by (auto simp: GetProfile_def user_ids_def)
qed

end
