(* ===== verification/WellTyped.thy ===== *)
theory WellTyped
  imports System
begin

text \<open>
  The values the service stores have the form the code means them to have, beyond what the schema
  checks: a token column holds what \<open>token_Hash\<close> computes, the SHA-256 digest in hexadecimal; an
  audit entry has one of the nine actions of \<open>internal/usecase\<close>, and its
  address and user agent are absent or not empty and within the limits of \<open>logAudit\<close>. \<open>well_typed\<close>
  is this typing of the tables; every statement keeps it, hence every operation and every run.
\<close>

definition audit_actions :: "string list" where
  "audit_actions = [''user.registered'', ''auth.login'', ''auth.login_failed'', ''auth.refresh'', ''auth.logout'',
     ''auth.logout_all'', ''auth.password_reset_requested'', ''auth.password_reset'', ''auth.email_verified'']"

definition text_within :: "nat \<Rightarrow> string option \<Rightarrow> bool" where
  "text_within n x \<longleftrightarrow> (\<forall>s \<in> set_option x. s \<noteq> [] \<and> length s \<le> n)"

definition audit_typed :: "audit_row \<Rightarrow> bool" where
  "audit_typed r \<longleftrightarrow> a_action r \<in> set audit_actions \<and> text_within 45 (a_ip r) \<and> text_within 512 (a_ua r)"

definition digest :: "crypto_lib \<Rightarrow> string \<Rightarrow> bool" where
  "digest C h \<longleftrightarrow> h \<in> range (token_Hash C)"

lemma digest_Hash [simp]: "digest C (token_Hash C v)"
  by (simp add: digest_def)

lemma digest_shape: "digest C h \<Longrightarrow> sha256_spec C \<Longrightarrow> token_shape h"
  unfolding digest_def using token_Hash_shape by blast

definition well_typed :: "crypto_lib \<Rightarrow> tables \<Rightarrow> bool" where
  "well_typed C d \<longleftrightarrow> (\<forall>r \<in> set (tb_refresh d). digest C (t_hash r)) \<and>
     (\<forall>r \<in> set (tb_resets d) \<union> set (tb_verify d). digest C (o_hash r)) \<and>
     (\<forall>r \<in> set (tb_audit d). audit_typed r)"

abbreviation typing :: "('d \<Rightarrow> 'd \<Rightarrow> bool) \<Rightarrow> (('d, 'r) world, 'a) state \<Rightarrow> bool" where
  "typing R m \<equiv> effect (pg_rel R) m"

definition typed_step :: "crypto_lib \<Rightarrow> tables \<Rightarrow> tables \<Rightarrow> bool" where
  "typed_step C d d' \<longleftrightarrow> (well_typed C d \<longrightarrow> well_typed C d')"

lemma preorder_typed_step [simp, intro]: "preorder_rel (typed_step C)"
  by (simp add: preorder_rel_def typed_step_def)

subsection \<open>Statements\<close>

lemma typed_step_same:
  "tb_refresh d' = tb_refresh d \<Longrightarrow> tb_resets d' = tb_resets d \<Longrightarrow> tb_verify d' = tb_verify d \<Longrightarrow>
   tb_audit d' = tb_audit d \<Longrightarrow> typed_step C d d'"
  by (simp add: typed_step_def well_typed_def)

lemma typed_insert_refresh: "digest C (rec_TokenHash rec) \<Longrightarrow> typed_step C d (snd (insert_refresh rec now nid d))"
  by (auto simp: insert_refresh_def typed_step_def well_typed_def)

lemma typed_revoke_where: "typed_step C d (snd (revoke_where p now nid d))"
  by (auto simp: revoke_where_def typed_step_def well_typed_def)

lemma typed_insert_onetime: "digest C h \<Longrightarrow> typed_step C d (snd (insert_onetime tab u h e now nid d))"
  by (cases tab) (auto simp: insert_onetime_def typed_step_def well_typed_def)

lemma typed_consume: "typed_step C d (snd (consume_onetime tab h now nid d))"
  by (cases tab) (auto simp: consume_onetime_def typed_step_def well_typed_def)

lemma typed_update_user: "typed_step C d (snd (update_user uid f now nid d))"
  by (rule typed_step_same) (simp_all add: update_user_def)

lemma typed_update_password: "typed_step C d (snd (update_password uid h now nid d))"
  by (simp add: update_password_def typed_update_user typed_step_same)

text \<open>An entry as \<open>logAudit\<close> makes it.\<close>

definition entry_typed :: "AuditEntry \<Rightarrow> bool" where
  "entry_typed e \<longleftrightarrow> audit_Action e \<in> set audit_actions \<and> length (audit_IPAddress e) \<le> 45 \<and>
     length (audit_UserAgent e) \<le> 512"

lemma typed_insert_audit:
  assumes "entry_typed e"
  shows "typed_step C d (snd (insert_audit P e now nid d))"
proof -
  have row: "audit_typed \<lparr>a_id = nid, a_user = u, a_action = audit_Action e, a_ip = nullif_empty (audit_IPAddress e),
      a_ua = nullif_empty (audit_UserAgent e), a_metadata = m, a_created = now\<rparr>" for u m
    using assms by (simp add: audit_typed_def entry_typed_def text_within_def nullif_empty_def)
  have "typed_step C d (d\<lparr>tb_audit := tb_audit d @ [r]\<rparr>)" if "audit_typed r" for r
    using that by (auto simp: typed_step_def well_typed_def)
  from this [OF row] show ?thesis by (rule insert_audit_rule [rotated]) (simp add: typed_step_def)
qed

subsection \<open>Repositories\<close>

lemma typed_repos [keep_intros]:
  "digest C (rec_TokenHash rec) \<Longrightarrow> typing (typed_step C) (RefreshRepo_Save rec)"
  "typing (typed_step C) (RefreshRepo_GetByHash hash)" "typing (typed_step C) (RefreshRepo_GetRevokedFamily hash)"
  "typing (typed_step C) (RefreshRepo_Revoke hash)" "typing (typed_step C) (RefreshRepo_RevokeFamily fam)"
  "typing (typed_step C) (RefreshRepo_RevokeAllForUser u)"
  "digest C h \<Longrightarrow> typing (typed_step C) (OneTimeRepo_Create tab u h e)"
  "typing (typed_step C) (OneTimeRepo_Consume tab h)" "entry_typed a \<Longrightarrow> typing (typed_step C) (AuditRepo_Log P a)"
  "typing (typed_step C) (UserRepo_GetByEmail P email)" "typing (typed_step C) (UserRepo_UpdatePassword u hash)"
  "typing (typed_step C) (UserRepo_MarkEmailVerified u)" "typing (typed_step C) (UserRepo_GetAuthProfile P u)"
  unfolding RefreshRepo_Save_def RefreshRepo_GetByHash_def RefreshRepo_GetRevokedFamily_def
    RefreshRepo_Revoke_def RefreshRepo_RevokeFamily_def RefreshRepo_RevokeAllForUser_def OneTimeRepo_Create_def
    OneTimeRepo_Consume_def AuditRepo_Log_def UserRepo_GetByEmail_def UserRepo_scanOne_def
    UserRepo_UpdatePassword_def UserRepo_MarkEmailVerified_def UserRepo_GetAuthProfile_def
  by (intro keep_intros effect_pg_rel_stmt preorder_pg_rel preorder_typed_step typed_insert_refresh typed_revoke_where
      typed_insert_onetime typed_consume typed_insert_audit typed_update_user typed_update_password; assumption)+

lemma typed_both_inserts: "both_inserts P email hash role d u d2 \<Longrightarrow> typed_step C d d2"
  by (erule both_insertsD) (rule typed_step_same; simp)

lemma typed_CreateWithRole [keep_intros]:
  "typing (typed_step C) (UserRepo_CreateWithRole P email hash role)"
  unfolding effect_def pg_rel_def
proof
  fix w :: "'r svc_world"
  obtain res w' where r: "run_state (UserRepo_CreateWithRole P email hash role) w = (res, w')" by fastforce
  from CreateWithRole_cases [OF r] have "typed_step C (w_pg w) (w_pg w')"
    by (auto dest: typed_both_inserts simp: typed_step_def)
  with r show "typed_step C (w_pg w) (w_pg (snd (run_state (UserRepo_CreateWithRole P email hash role) w)))" by simp
qed

subsection \<open>The service\<close>

lemma sanitized_short: "length (SanitizeLogValue U s 45) \<le> 45" "length (SanitizeLogValue U s 512) \<le> 512"
  using sanitize_length [of 45 U s] sanitize_length [of 512 U s] by simp_all

lemma typed_helpers:
  fixes L P c M cfg
  defines "s \<equiv> app_auth L P c M cfg"
  shows "a \<in> set audit_actions \<Longrightarrow> typing (typed_step (lib_C L)) (logAudit L s u a ip ua m)"
    "typing (typed_step (lib_C L)) (failLogin L s email ip ua)" "typing (typed_step (lib_C L)) (revokeAllSessions s uid)"
    "typing (typed_step (lib_C L)) (issueOneTime L (OneTimeRepo tab) uid ttl)" "typing (typed_step (lib_C L)) (issueTokens L s uid sid fid)"
    "typing (typed_step (lib_C L)) (consumeEmailQuota L s email)" "typing (typed_step (lib_C L)) (sendActionEmail L s email raw kind)"
    "typing (typed_step (lib_C L)) (require_input L fs)"
  unfolding s_def helper_defs app_auth_simps UserRepo_simps RefreshRepo_simps OneTimeRepo_simps
    AuditRepo_simps redis_store_simps Let_def if_distrib option.case
  by (auto intro!: keep_intros preorder_pg_rel preorder_typed_step split: option.splits
      simp: entry_typed_def sanitized_short audit_actions_def)

lemma typed_service:
  fixes L P c M cfg
  defines "s \<equiv> app_auth L P c M cfg"
  shows "typing (typed_step (lib_C L)) (Register L s ri ip ua)" "typing (typed_step (lib_C L)) (Login L s li ip ua)"
    "typing (typed_step (lib_C L)) (Refresh L s raw ip ua)" "typing (typed_step (lib_C L)) (Logout L s uid sid jti exp raw ip ua)"
    "typing (typed_step (lib_C L)) (LogoutAll L s uid)" "typing (typed_step (lib_C L)) (ForgotPassword L s fi)"
    "typing (typed_step (lib_C L)) (ResetPassword L s pi)" "typing (typed_step (lib_C L)) (VerifyEmail L s ti)"
    "typing (typed_step (lib_C L)) (GetProfile s uid)" "typing (typed_step (lib_C L)) (ParseAccess L s raw)"
  unfolding s_def usecase_defs wired_simps Let_def
  by (auto intro!: typed_helpers keep_intros preorder_pg_rel preorder_typed_step
      split: sum.splits option.splits simp: audit_actions_def)

lemma perform_typed: "typing (typed_step (lib_C L)) (perform L (app_auth L P c M cfg) op)"
  by (cases op) (auto intro!: keep_intros typed_service preorder_pg_rel preorder_typed_step)

lemma runs_typed:
  assumes "runs L (app_auth L P c M cfg) w ops w'" "well_typed (lib_C L) (w_pg w)"
  shows "well_typed (lib_C L) (w_pg w')"
  using runs_effect [OF assms(1) preorder_pg_rel [OF preorder_typed_step] perform_typed] assms(2)
  by (simp add: pg_rel_def typed_step_def)

end
