(* ===== verification/EdgeTheorems.thy ===== *)
theory EdgeTheorems
  imports HttpTheorems Seed WellTyped
begin

text \<open>
  What crosses the edge of the service: which input is accepted, what reaches the audit log and Redis
  keys, what is stored, who wins when a one-time token arrives twice at once, what the readiness
  endpoint reports, which mail is sent, what a new account may do and what an answer can contain.
\<close>

section \<open>Text from outside\<close>

text \<open>
  C34. What registration accepts. Exactly the inputs whose email is an address of at most 255
  characters without control characters other than the tab, without shell metacharacters and, in
  lower case, without one of the listed injection hints, and whose password has 8 to 72 characters
  and no NUL, line feed or carriage return. The scans by rune and by byte agree, also on text that
  is not UTF-8.
\<close>

theorem accepted_registrations:
  assumes "validator_spec T"
  shows "requireInput T U (register_fields i) = Inr () \<longleftrightarrow>
    tag_email T (reg_Email i) \<and> reg_Email i \<noteq> [] \<and> length (runes (reg_Email i)) \<le> 255 \<and>
    (\<forall>c \<in> set (reg_Email i). (32 \<le> byte c \<or> byte c = 9) \<and> byte c \<noteq> 127 \<and> c \<notin> set shell_meta) \<and>
    (\<forall>h \<in> set hints. \<forall>a b. ToLower U (reg_Email i) \<noteq> a @ h @ b) \<and>
    8 \<le> length (runes (reg_Password i)) \<and> length (runes (reg_Password i)) \<le> 72 \<and>
    (\<forall>c \<in> set (reg_Password i). byte c \<noteq> 0 \<and> byte c \<noteq> 10 \<and> byte c \<noteq> 13)"
proof -
  have "reg_Password i \<noteq> []" if "8 \<le> length (runes (reg_Password i))"
    using that by auto
  then show ?thesis using assms
    by (auto simp: requireInput_ok register_fields_def validator_spec_def safe_text_iff password_bytes)
qed

theorem accepted_registrations_witness:
  "requireInput ex_validator latin1 (register_fields \<lparr>reg_Email = ''a@b.c;'', reg_Password = ''correct horse''\<rparr>) \<noteq> Inr ()"
  unfolding accepted_registrations [OF ex_validator_spec] by (simp add: shell_meta_def)

text \<open>
  C35. What the audit log gets of a header: never more than the limit; an ASCII value stays ASCII;
  and a value that fits is cut to its printable characters and stays well-formed UTF-8.
\<close>

theorem sanitized_log_values:
  assumes "0 < n"
  shows "int (length (SanitizeLogValue U s n)) \<le> n \<and>
    (is_ascii s \<longrightarrow> is_ascii (SanitizeLogValue U s n)) \<and>
    (int (length (concat (map encode_rune (filter (loggable U) (runes s))))) \<le> n \<longrightarrow>
       runes (SanitizeLogValue U s n) = filter (loggable U) (runes s) \<and> valid_utf8 (SanitizeLogValue U s n))"
  using sanitize_length [OF assms] sanitize_ascii sanitize_whole by blast

theorem sanitized_log_values_witness:
  "int (length (SanitizeLogValue latin1 ''Mozilla/5.0'' 4)) \<le> 4 \<and> is_ascii (SanitizeLogValue latin1 ''Mozilla/5.0'' 4)"
  using sanitized_log_values [of 4 latin1 "''Mozilla/5.0''"] by (simp add: is_ascii_def)

text \<open>
  An idempotency key is safe to build a Redis key from: fewer than 132 bytes, and only letters,
  digits, dashes and underscores of the client's value, in their order.
\<close>

theorem sanitized_idempotency_keys:
  "length (SanitizeIdempotencyKey U key) < 132 \<and>
   (\<exists>n. SanitizeIdempotencyKey U key =
      concat (map encode_rune (take n (filter (safe_key_rune U) (runes (TrimSpace key))))))"
  using sanitized_key_length keep_safe_shape [of U "runes (TrimSpace key)" "[]"]
  by (simp add: SanitizeIdempotencyKey_def)

section \<open>Tokens under concurrency\<close>

text \<open>
  C36. A one-time token is consumed once, also by requests that run at the same time: from a state
  that keeps the schema, among any number of calls of \<open>Consume\<close> with the same hash, with arbitrary
  statements of other requests before each of them and any remote failures, at most one succeeds.
\<close>

theorem one_time_token_consumed_once:
  fixes w :: "'r svc_world"
  assumes "schema_ok P (w_pg w)" "calls (OneTimeRepo_Consume tab h) (pg_rel (db_step P)) w rs w'"
  shows "length (filter (\<lambda>r. \<not> isl r) rs) \<le> 1"
proof -
  have step: "pg_rel evolves w1 w2 \<and> (schema_ok P (w_pg w1) \<longrightarrow> schema_ok P (w_pg w2))"
    if "pg_rel (db_step P) w1 w2" for w1 w2 :: "'r svc_world"
    using that by (auto simp: pg_rel_def db_step_def)
  have "effect (\<lambda>w1 w2. pg_rel evolves w1 w2 \<and> (schema_ok P (w_pg w1) \<longrightarrow> schema_ok P (w_pg w2)))
      (OneTime_Consume (OneTimeRepo tab :: 'r svc_world OneTimeTokenRepository) h)"
    using effect_mono [OF OneTimeRepo_effect(2) [of P tab h] step] by simp
  from single_use.calls_once [OF single_use_repo [of tab P] _ assms(1) step this] assms(2)
  show ?thesis by simp
qed

theorem one_time_token_consumed_once_witness:
  "\<exists>r w'. calls (OneTimeRepo_Consume PasswordResets (token_Hash ex_crypto ex_token)) (pg_rel (db_step ex_pg))
      (ex_world 0 ex_tables) [Inr 1, r] w' \<and> length (filter (\<lambda>r. \<not> isl r) [Inr 1, r]) \<le> 1"
proof -
  let ?m = "OneTimeRepo_Consume PasswordResets (token_Hash ex_crypto ex_token)"
  have "preorder_rel (pg_rel (db_step ex_pg) :: unit svc_world \<Rightarrow> unit svc_world \<Rightarrow> bool)"
    by (rule preorder_pg_rel [OF preorder_db_step])
  then have refl: "pg_rel (db_step ex_pg) w w" for w :: "unit svc_world" by (simp add: preorder_rel_def)
  obtain w1 where "run_state ?m (ex_world 0 ex_tables) = (Inr 1, w1)"
    by (simp add: OneTimeRepo_Consume_def run_pg_stmt_healthy consume_onetime_def usable_def)
  from calls.again [OF calls.none refl this]
  have first: "calls ?m (pg_rel (db_step ex_pg)) (ex_world 0 ex_tables) ([] @ [Inr 1]) w1" .
  obtain r w2 where second: "run_state ?m w1 = (r, w2)" by fastforce
  have "calls ?m (pg_rel (db_step ex_pg)) (ex_world 0 ex_tables) (([] @ [Inr 1]) @ [r]) w2"
    by (rule calls.again [OF first refl second])
  then have run: "calls ?m (pg_rel (db_step ex_pg)) (ex_world 0 ex_tables) [Inr 1, r] w2" by simp
  from one_time_token_consumed_once [OF _ run] have "length (filter (\<lambda>r. \<not> isl r) [Inr 1, r]) \<le> 1" by simp
  with run show ?thesis by blast
qed

section \<open>Health\<close>

text \<open>The outcomes of the pings, one after the other.\<close>

fun ping_results :: "'w checker list \<Rightarrow> 'w \<Rightarrow> bool list \<times> 'w" where
  "ping_results [] w = ([], w)"
| "ping_results ((name, ping) # cs) w =
     (case run_state ping w of (r, w1) \<Rightarrow>
        (case ping_results cs w1 of (bs, w2) \<Rightarrow> ((case r of Inl _ \<Rightarrow> False | Inr _ \<Rightarrow> True) # bs, w2)))"

definition check_result :: "string \<times> bool \<Rightarrow> string \<times> string" where
  "check_result x = (fst x, if snd x then ''ok'' else ''unavailable'')"

lemma update_new: "k \<notin> fst ` set xs \<Longrightarrow> AList.update k v xs = xs @ [(k, v)]"
  by (induction xs) auto

lemma run_checks_results:
  assumes "ping_results cs w = (bs, w')" "distinct (map fst cs)" "fst ` set cs \<inter> fst ` set checks = {}"
  shows "run_state (run_checks cs (checks, overall, status)) w =
    ((checks @ map check_result (zip (map fst cs) bs),
      if list_all id bs then overall else ''degraded'', if list_all id bs then status else 503), w')"
  using assms
proof (induction cs w arbitrary: bs w' checks overall status rule: ping_results.induct)
  case (1 w)
  then show ?case by (simp add: run_simps)
next
  case (2 name ping cs w)
  obtain r w1 where r: "run_state ping w = (r, w1)" by fastforce
  obtain bs1 where b: "ping_results cs w1 = (bs1, w')" "bs = (case r of Inl _ \<Rightarrow> False | Inr _ \<Rightarrow> True) # bs1"
    using 2(2) r by (auto split: prod.splits)
  have new: "AList.update name v checks = checks @ [(name, v)]" for v
    using 2(4) by (intro update_new) auto
  have d: "distinct (map fst cs)" "fst ` set cs \<inter> fst ` set (checks @ [(name, v)]) = {}" for v :: string
    using 2(3,4) by auto
  show ?case using 2(1) [OF r [symmetric] b(1) d] r b(2) new
    by (auto simp: check_result_def split: sum.splits)
qed

text \<open>
  C37. What the service stores is well typed, over any run: a token column holds what \<open>token_Hash\<close>
  computes, 64 hexadecimal digits, and not what was drawn; an audit entry has one of the nine
  actions of the use cases, and its address and user agent are absent or not empty and within 45
  and 512 bytes.
\<close>

theorem stored_values_typed:
  assumes "runs L (app_auth L P c M cfg) w ops w'" "sha256_spec (lib_C L)" "well_typed (lib_C L) (w_pg w)"
  shows "(\<forall>h \<in> t_hash ` set (tb_refresh (w_pg w')) \<union> o_hash ` set (tb_resets (w_pg w')) \<union> o_hash ` set (tb_verify (w_pg w')).
       (\<exists>v. h = token_Hash (lib_C L) v) \<and> length h = 64 \<and> (\<forall>c \<in> set h. is_hex_digit c)) \<and>
    (\<forall>a \<in> set (tb_audit (w_pg w')). a_action a \<in> set audit_actions \<and>
       (\<forall>s. a_ip a = Some s \<longrightarrow> s \<noteq> [] \<and> length s \<le> 45) \<and> (\<forall>s. a_ua a = Some s \<longrightarrow> s \<noteq> [] \<and> length s \<le> 512))"
proof -
  have w: "well_typed (lib_C L) (w_pg w')" by (rule runs_typed [OF assms(1,3)])
  have "(\<exists>v. h = token_Hash (lib_C L) v) \<and> length h = 64 \<and> (\<forall>c \<in> set h. is_hex_digit c)" if "digest (lib_C L) h" for h
    using digest_shape [OF that assms(2)] that by (auto simp: token_shape_def digest_def)
  with w show ?thesis unfolding well_typed_def audit_typed_def text_within_def by auto
qed

lemma ex_tables_typed: "well_typed ex_crypto ex_tables"
  by (simp add: well_typed_def)

theorem stored_values_typed_witness:
  "\<exists>w'. runs (exL (ex_claims 3 105)) (ex_auth (ex_claims 3 105)) (ex_world 100 ex_tables)
     [OpForgotPassword \<lparr>forgot_Email = ''a@b.c''\<rparr>, OpRegister ex_register [] []] w' \<and>
     (\<forall>r \<in> set (tb_resets (w_pg w')). length (o_hash r) = 64)"
proof -
  obtain w' where r: "runs (exL (ex_claims 3 105)) (ex_auth (ex_claims 3 105)) (ex_world 100 ex_tables)
     [OpForgotPassword \<lparr>forgot_Email = ''a@b.c''\<rparr>, OpRegister ex_register [] []] w'" using runs_exists by blast
  have "sha256_spec (lib_C (exL (ex_claims 3 105)))" using ex_sha256_spec by simp
  from stored_values_typed [OF r [unfolded ex_auth_def] this] ex_tables_typed r show ?thesis by auto
qed

text \<open>
  The readiness endpoint tells the truth: it pings every checker once, in order, reports each
  under its name, and answers 200 and \<open>ok\<close> exactly when all of them answered, otherwise 503 and
  \<open>degraded\<close>.
\<close>

theorem readiness_reports:
  assumes "resp_status p = None" "distinct (map fst (health_checkers h))"
    and "ping_results (health_checkers h) (advance w) = (bs, w1)"
  shows "run_state (handle_Readiness show_dur h r) (w, p) = ((), (advance w1,
    written p (if list_all id bs then 200 else 503) (json_Marshal (json_map
      [(''status'', JStr (if list_all id bs then ''ok'' else ''degraded'')),
       (''checks'', json_map (map (\<lambda>(k, v). (k, JStr v)) (map check_result (zip (map fst (health_checkers h)) bs)))),
       (''duration'', JStr (show_dur (w_clock (advance w1) - w_clock (advance w))))]) @ [CHR 0x0A])))"
  using run_checks_results [OF assms(3,2), of "[]" "''ok''" 200] assms(1)
  by (simp add: handle_Readiness_def run_service run_time_Now run_write_JSON)

theorem readiness_reports_witness:
  "resp_status (snd (snd (run_state (handle_Readiness (\<lambda>_. ''0s'')
     \<lparr>health_service = ''auth'', health_checkers = [(''postgres'', ok ()), (''redis'', fail (ErrOther ''down''))]\<rparr>
     (ex_request ''GET'' ''/ready'' (\<lambda>_. []))) (ex_world 0 ex_tables, no_response)))) = Some 503"
  by (subst readiness_reports [where bs = "[True, False]"]) (simp_all add: run_ok run_fail no_response_def)

section \<open>Mail\<close>

text \<open>\<open>quiet\<close>: no mail is sent. Everything is quiet but \<open>sendActionEmail\<close>.\<close>

definition quiet :: "('d, 'r) world \<Rightarrow> ('d, 'r) world \<Rightarrow> bool" where
  "quiet w w' \<longleftrightarrow> w_outbox w' = w_outbox w"

lemma preorder_quiet [simp, intro]: "preorder_rel quiet"
  by (simp add: preorder_rel_def quiet_def)

lemma effect_quiet [keep_intros]:
  "effect quiet time_Now" "effect quiet uuid_New" "effect quiet (rand_Read n)" "effect quiet (ext_call g)"
  "effect quiet (pg_stmt f)" "effect quiet (pg_query q)" "effect quiet (on_redis m)"
  by (auto simp: effect_def run_simps run_pg_stmt pg_query_def quiet_def Let_def split: prod.splits fate.splits)

lemma quiet_tx [keep_intros]: "effect quiet (tx_stmt g t)"
  by (simp add: effect_def quiet_def run_tx_stmt)

lemma quiet_steps:
  fixes L P c M cfg
  defines "s \<equiv> app_auth L P c M cfg"
  shows "effect quiet (logAudit L s u a ip ua m)" "effect quiet (consumeEmailQuota L s to)"
    "effect quiet (issueOneTime L (OneTimeRepo tab) uid ttl)" "effect quiet (password_Hash C pw cost)"
    "effect quiet (UserRepo_CreateWithRole P email hash role)"
  unfolding s_def logAudit_def consumeEmailQuota_def issueOneTime_def token_Random_def password_Hash_def
    wired_simps AuditRepo_Log_def RateLimiter_Allow_def OneTimeRepo_Create_def UserRepo_CreateWithRole_def
    pg_begin_def pg_commit_def Let_def
  by (auto intro!: keep_intros split: sum.splits prod.splits option.splits)

lemma registration_mail_sent:
  assumes "run_state (Register L (app_auth L P c M cfg) i ip ua) w = (Inr tok, w')" "email_Enabled (cfg_Email cfg)"
  obtains raw link where
    "ActionLink (lib_W L) (email_VerifyLinkBase (cfg_Email cfg)) raw = Inr link"
    "w_outbox w' = w_outbox w @ [(email_From (cfg_Email cfg),
       \<lparr>mail_To = normEmail L (normEmail L (reg_Email i)), mail_Subject = mail_subject MailVerify,
        mail_Text = mail_plain MailVerify link, mail_HTML = html_link (html_EscapeString link)\<rparr>)]"
    "\<exists>r \<in> set (tb_verify (w_pg w')). o_hash r = token_Hash (lib_C L) raw"
proof -
  let ?S = "app_auth L P c M cfg"
  obtain hash user raw w1 w2 w3 w4 w5 where
    1: "run_state (consumeEmailQuota L ?S (normEmail L (reg_Email i))) w = (Inr (), w1)" and
    2: "run_state (password_Hash (lib_C L) (reg_Password i) (sec_BcryptCost (cfg_Security cfg))) w1 = (Inr hash, w2)" and
    3: "run_state (UserRepo_CreateWithRole P (normEmail L (reg_Email i)) hash defaultRole) w2 = (Inr user, w3)" and
    4: "run_state (issueOneTime L (OneTimeRepo EmailVerifications) (user_ID user) (24 * hour)) w3 = (Inr raw, w4)" and
    5: "run_state (sendActionEmail L ?S (normEmail L (reg_Email i)) raw MailVerify) w4 = (Inr (), w5)" and
    6: "w' = snd (run_state (logAudit L ?S (Some (user_ID user)) ''user.registered'' ip ua None) w5)"
    by (rule Register_Inr [OF assms(1)])
  have o4: "w_outbox w4 = w_outbox w"
    using effectD [OF quiet_steps(2) 1] effectD [OF quiet_steps(4) 2] effectD [OF quiet_steps(5) 3]
      effectD [OF quiet_steps(3) 4] by (simp add: quiet_def)
  have o6: "w_outbox w' = w_outbox w5"
    using effect_snd [OF quiet_steps(1)] unfolding 6 quiet_def by blast
  obtain link where l: "ActionLink (lib_W L) (email_VerifyLinkBase (cfg_Email cfg)) raw = Inr link"
    "w_outbox w5 = w_outbox w4 @ [(email_From (cfg_Email cfg), \<lparr>mail_To = normEmail L (normEmail L (reg_Email i)),
       mail_Subject = mail_subject MailVerify, mail_Text = mail_plain MailVerify link,
       mail_HTML = html_link (html_EscapeString link)\<rparr>)]"
    by (rule sendActionEmail_Inr [OF 5 assms(2)]) simp
  obtain row now where v: "new_onetime_row L raw (user_ID user) row"
    "w_pg w4 = set_onetime_rows EmailVerifications (onetime_rows EmailVerifications (w_pg w3) @ [row]) (w_pg w3)"
    by (rule issueOneTime_Inr [OF 4])
  have "row \<in> set (tb_verify (w_pg w'))" using v(2) mail_pg [OF 5] unfolding 6 by simp
  with that [OF l(1)] l(2) o4 o6 v(1) show thesis by (auto simp: new_onetime_row_def)
qed

text \<open>
  C38. A registration with email on sends exactly one mail, from the configured sender to the
  normalised address; its link is built from the configured base and leads back to a token whose
  digest is stored among the verification tokens.
\<close>

theorem registration_sends_link:
  assumes "run_state (Register L (app_auth L P c M cfg) i ip ua) w = (Inr tok, w')" "email_Enabled (cfg_Email cfg)"
  shows "\<exists>raw u. (\<exists>r \<in> set (tb_verify (w_pg w')). o_hash r = token_Hash (lib_C L) raw) \<and>
    token_of_link u = Some raw \<and> (Scheme u = ''http'' \<or> Scheme u = ''https'') \<and> Host u \<noteq> [] \<and>
    w_outbox w' = w_outbox w @ [(email_From (cfg_Email cfg),
       \<lparr>mail_To = normEmail L (normEmail L (reg_Email i)), mail_Subject = ''Verify your email'',
        mail_Text = mail_plain MailVerify (url_String (lib_W L) u),
        mail_HTML = html_link (html_EscapeString (url_String (lib_W L) u))\<rparr>)]"
proof -
  obtain raw link where r: "ActionLink (lib_W L) (email_VerifyLinkBase (cfg_Email cfg)) raw = Inr link"
    "w_outbox w' = w_outbox w @ [(email_From (cfg_Email cfg),
       \<lparr>mail_To = normEmail L (normEmail L (reg_Email i)), mail_Subject = mail_subject MailVerify,
        mail_Text = mail_plain MailVerify link, mail_HTML = html_link (html_EscapeString link)\<rparr>)]"
    "\<exists>r \<in> set (tb_verify (w_pg w')). o_hash r = token_Hash (lib_C L) raw"
    by (rule registration_mail_sent [OF assms])
  obtain u where "link = url_String (lib_W L) u" "Scheme u = ''http'' \<or> Scheme u = ''https''" "Host u \<noteq> []"
    "token_of_link u = Some raw"
    by (rule ActionLink_link [OF r(1)])
  with r(2,3) show ?thesis by (intro exI [of _ raw] exI [of _ u]) simp
qed

theorem registration_sends_link_witness:
  "\<exists>tok w' u. run_state (Register mailL ex_mail_auth ex_register [] []) (ex_world 100 ex_tables) = (Inr tok, w') \<and>
     length (w_outbox w') = 1 \<and> mail_To (snd (hd (w_outbox w'))) = ''n@b.c'' \<and>
     mail_Text (snd (hd (w_outbox w'))) = mail_plain MailVerify (url_String ex_url u)"
proof -
  obtain tok w' where r: "run_state (Register mailL ex_mail_auth ex_register [] []) (ex_world 100 ex_tables) = (Inr tok, w')"
    by (rule run_okE [OF ex_register_mail_run])
  from registration_sends_link [OF r [unfolded ex_mail_auth_def] ex_mailing_simps(2)] r show ?thesis by auto
qed

section \<open>From the seed to a profile\<close>

text \<open>
  C39. On a database seeded by the migration every registration gives an account that may read its
  profile: whatever is served before and after it, the profile of the new account names the role
  \<open>user\<close> and the permission \<open>read_profile\<close>, which \<open>GET /me\<close> asks for.
\<close>

theorem seeded_accounts_read_profile:
  assumes "seed_up rids pids d = (Inr (), w_pg w0)" "length rids = 3" "length pids = 6"
    and "\<And>xs. set (agg_DISTINCT P xs) = set xs"
    and "runs L (app_auth L P c M cfg) w0 before w"
    and "run_state (Register L (app_auth L P c M cfg) i ip ua) w = (Inr tok, w1)"
    and "runs L (app_auth L P c M cfg) w1 after w2" "healthy w2"
  shows "\<exists>uid p. uid \<notin> user_ids (w_pg w) \<and> uid \<in> user_ids (w_pg w1) \<and>
    run_state (GetProfile (app_auth L P c M cfg) uid) w2 = (Inr p, advance w2) \<and>
    ''user'' \<in> set (prof_Roles p) \<and> ''read_profile'' \<in> set (prof_Permissions p)"
proof -
  have "seeded (w_pg w)"
    using seed_up_seeded [OF assms(1-3)] runs_evolves [OF assms(5)] seeded_evolves by blast
  from registered_reads_profile [OF this assms(4,6-8)] show ?thesis by (simp add: defaultRole_def)
qed

definition ex_blank :: tables where
  "ex_blank = \<lparr>tb_roles = [], tb_permissions = [], tb_role_permissions = [], tb_users = [], tb_user_roles = [],
     tb_refresh = [], tb_resets = [], tb_verify = [], tb_audit = []\<rparr>"

definition ex_seeded :: tables where
  "ex_seeded = ex_blank\<lparr>tb_roles := [(11, ''admin''), (12, ''moderator''), (13, ''user'')],
     tb_permissions := [(21, ''create_user''), (22, ''delete_user''), (23, ''manage_roles''), (24, ''read_profile''),
       (25, ''update_profile''), (26, ''moderate_content'')],
     tb_role_permissions := [(11, 21), (11, 22), (11, 23), (11, 24), (11, 25), (11, 26), (12, 24), (12, 25), (12, 26),
       (13, 24), (13, 25)]\<rparr>"

lemma ex_seed_run: "seed_up [11, 12, 13] [21, 22, 23, 24, 25, 26] ex_blank = (Inr (), ex_seeded)"
  by (simp add: seed_up_def seed_statements_def insert_names_def grant_def seed_roles_def seed_permissions_def
      ex_blank_def ex_seeded_def Let_def)

lemma ex_first_register:
  "\<exists>tok w'. run_state (Register (exL c0) (ex_auth c0) ex_register [] []) (ex_world 100 ex_seeded) = (Inr tok, w') \<and> healthy w'"
proof -
  have "run_state (UserRepo_CreateWithRole ex_pg ''n@b.c'' ''$correct horse'' defaultRole) (ex_world 101 ex_seeded) =
     (Inr (row_user ex_new_user), ex_world 105 (ex_seeded\<lparr>tb_users := [ex_new_user], tb_user_roles := [(102, 13)]\<rparr>))"
    by (simp add: UserRepo_CreateWithRole_def pg_begin_def tx_stmt_def pg_commit_def run_simps
        run_pg_query_healthy run_pg_stmt_healthy insert_user_def insert_role_def user_ids_def live_users_def
        ex_lower_bytes row_user_def ex_new_user_def defaultRole_def Let_def ex_env_def ex_seeded_def ex_blank_def)
  moreover obtain l where "ActionLink ex_url ''https://app/verify'' (ex_random 105) = Inr l" using ex_link by blast
  ultimately show ?thesis
    by (simp add: Register_def require_input_def ex_run logAudit_def issueOneTime_def consumeEmailQuota_def
        sendActionEmail_def sendTransactional_def row_user_def ex_new_user_def ex_seeded_def ex_blank_def)
qed

theorem seeded_accounts_read_profile_witness:
  "\<exists>tok w' uid p. run_state (Register (exL (ex_claims 3 105)) (ex_auth (ex_claims 3 105)) ex_register [] [])
       (ex_world 100 ex_seeded) = (Inr tok, w') \<and>
     run_state (GetProfile (ex_auth (ex_claims 3 105)) uid) w' = (Inr p, advance w') \<and> ''read_profile'' \<in> set (prof_Permissions p)"
proof -
  obtain tok w' where r: "run_state (Register (exL (ex_claims 3 105)) (ex_auth (ex_claims 3 105)) ex_register [] [])
      (ex_world 100 ex_seeded) = (Inr tok, w')" "healthy w'" using ex_first_register by blast
  have "seed_up [11, 12, 13] [21, 22, 23, 24, 25, 26] ex_blank = (Inr (), w_pg (ex_world 100 ex_seeded))"
    using ex_seed_run by simp
  from seeded_accounts_read_profile [OF this _ _ _ runs.start r(1) [unfolded ex_auth_def] runs.start r(2)] r(1)
  show ?thesis by (auto simp: ex_auth_def)
qed

section \<open>Password resets\<close>

text \<open>
  A reset with a password of 72 two-byte characters: the validator accepts it (it counts
  characters), the token is used up, then bcrypt refuses it (it counts bytes) and the answer is 500;
  the password is unchanged and the link is dead.
\<close>

theorem wide_password_burns_token:
  assumes "validator_spec (lib_T L)" "bcrypt_spec (lib_C L)" "healthy w" "schema_ok P (w_pg w)" "token_shape tok"
    and "r \<in> set (tb_resets (w_pg w))" "usable (token_Hash (lib_C L) tok) (w_clock (advance w)) r"
  shows "\<exists>e w'. run_state (ResetPassword L (app_auth L P c M cfg)
      \<lparr>reset_TokenInput = \<lparr>in_Token = tok\<rparr>, reset_NewPassword = wide_password\<rparr>) w = (Inl e, w') \<and>
    fst (MapError e) = 500 \<and> used_hash (token_Hash (lib_C L) tok) (tb_resets (w_pg w')) \<and>
    tb_users (w_pg w') = tb_users (w_pg w)"
proof -
  let ?i = "\<lparr>reset_TokenInput = \<lparr>in_Token = tok\<rparr>, reset_NewPassword = wide_password\<rparr>" and ?h = "token_Hash (lib_C L) tok"
  let ?w1 = "(advance w)\<lparr>w_pg := snd (consume_onetime PasswordResets ?h (w_clock (advance w)) (uuid_at (w_env w) (w_ticks w)) (w_pg w))\<rparr>"
  have "requireInput (lib_T L) (lib_U L) (reset_fields ?i) = Inr ()"
    using token_input_ok [OF assms(1,5)] wide_password_accepted(1) [OF assms(1)]
    by (auto simp: reset_fields_def requireInput_ok)
  moreover have c: "run_state (OneTimeRepo_Consume PasswordResets ?h) w = (Inr (o_user r), ?w1)"
    using Consume_succeeds [OF assms(3,4), of r PasswordResets] assms(6,7) by simp
  moreover obtain e where "bcrypt_Generate (lib_C L) (w_ticks ?w1) wide_password (sec_BcryptCost (cfg_Security cfg)) = Inl (ErrOther e)"
    using assms(2) wide_password_accepted(2) [OF assms(1)] unfolding bcrypt_spec_def by fastforce
  ultimately have "run_state (ResetPassword L (app_auth L P c M cfg) ?i) w = (Inl (ErrOther e), advance ?w1)"
    by (simp add: ResetPassword_def require_input_def run_simps run_password_Hash)
  moreover have "used_hash ?h (tb_resets (w_pg (advance ?w1)))" using Consume_Inr(2) [OF c] by simp
  ultimately show ?thesis by (intro exI [of _ "ErrOther e"] exI [of _ "advance ?w1"]) (simp add: MapError_def)
qed

lemma ex_bcrypt_spec: "bcrypt_spec ex_crypto"
  by (auto simp: bcrypt_spec_def ex_crypto_def split: if_splits)

theorem wide_password_burns_token_witness:
  "\<exists>e w'. run_state (ResetPassword (exL (ex_claims 3 105)) (ex_auth (ex_claims 3 105))
      \<lparr>reset_TokenInput = \<lparr>in_Token = ex_token\<rparr>, reset_NewPassword = wide_password\<rparr>) (ex_world 100 ex_tables) = (Inl e, w') \<and>
    fst (MapError e) = 500 \<and> used_hash (token_Hash ex_crypto ex_token) (tb_resets (w_pg w'))"
  using wide_password_burns_token [of "exL (ex_claims 3 105)" "ex_world 100 ex_tables" ex_pg ex_token "ex_onetime ex_token"
      ex_client ex_dto ex_config] ex_validator_spec ex_bcrypt_spec
  by (auto simp: ex_auth_def usable_def)

lemma ForgotPassword_token:
  assumes "run_state (ForgotPassword L (app_auth L P c M cfg) i) w = (Inr tok, w')" "tok \<noteq> []"
  obtains user q raw w1 w2 w3 w4 where
    "run_state (UserRepo_GetByEmail P (normEmail L (forgot_Email i))) w = (Inr user, w1)"
    "run_state (consumeEmailQuota L (app_auth L P c M cfg) (user_Email user)) w1 = (q, w2)"
    "run_state (issueOneTime L (OneTimeRepo PasswordResets) (user_ID user) hour) w2 = (Inr raw, w3)"
    "w4 = snd (run_state (sendActionEmail L (app_auth L P c M cfg) (user_Email user) raw MailReset) w3)"
    "w' = snd (run_state (logAudit L (app_auth L P c M cfg) (Some (user_ID user)) ''auth.password_reset_requested'' [] [] None) w4)"
    "tok = devToken (app_auth L P c M cfg) raw"
  using assms
  by (auto simp: ForgotPassword_def require_input_def or_return_ok_iff run_pure_call run_ignoring run_ok
      split: prod.splits sum.splits)

text \<open>
  C40. What the answer to a password reset request can contain: nothing, or, where the
  configuration exposes development tokens, a token that resets the password of the account with
  that email for the next hour.
\<close>

theorem forgot_password_answer:
  assumes "run_state (ForgotPassword L (app_auth L P c M cfg) i) w = (Inr tok, w')" "tok \<noteq> []"
  shows "ExposeDevTokens cfg \<and> (\<exists>u \<in> set (tb_users (w_pg w)). by_email P (normEmail L (forgot_Email i)) u \<and>
    (\<exists>r \<in> set (tb_resets (w_pg w')). o_user r = u_id u \<and> o_hash r = token_Hash (lib_C L) tok \<and> o_used r = None \<and>
       w_clock w + hour \<le> o_expires r \<and> o_expires r \<le> w_clock w' + hour))"
proof -
  let ?s = "app_auth L P c M cfg"
  obtain user q raw w1 w2 w3 w4 where
    1: "run_state (UserRepo_GetByEmail P (normEmail L (forgot_Email i))) w = (Inr user, w1)" and
    2: "run_state (consumeEmailQuota L ?s (user_Email user)) w1 = (q, w2)" and
    3: "run_state (issueOneTime L (OneTimeRepo PasswordResets) (user_ID user) hour) w2 = (Inr raw, w3)" and
    4: "w4 = snd (run_state (sendActionEmail L ?s (user_Email user) raw MailReset) w3)" and
    5: "w' = snd (run_state (logAudit L ?s (Some (user_ID user)) ''auth.password_reset_requested'' [] [] None) w4)"
      "tok = devToken ?s raw"
    by (rule ForgotPassword_token [OF assms])
  have "ExposeDevTokens cfg" "tok = raw" using 5(2) assms(2) by (auto simp: devToken_def split: if_splits)
  obtain u where u: "u \<in> set (tb_users (w_pg w))" "by_email P (normEmail L (forgot_Email i)) u" "user = row_user u"
    using GetByEmail_Inr(2) [OF 1] by blast
  obtain row now where r: "new_onetime_row L raw (user_ID user) row" "o_expires row = now + hour"
    "w_pg w3 = set_onetime_rows PasswordResets (onetime_rows PasswordResets (w_pg w2) @ [row]) (w_pg w2)"
    "w_clock w2 \<le> now" "now \<le> w_clock w3"
    by (rule issueOneTime_Inr [OF 3])
  have "w_pg w4 = w_pg w3" using mail_pg [OF prod.collapse [symmetric]] unfolding 4 by blast
  then have "row \<in> set (tb_resets (w_pg w'))" unfolding 5(1) using r(3) by simp
  moreover have "w_clock w \<le> w_clock w2"
    using effectD [OF UserRepo_later(2) 1] effectD [OF wired_helpers_later(6) 2] by (simp add: later_def)
  moreover have "w_clock w3 \<le> w_clock w'"
    using effect_snd [OF wired_helpers_later(7)] effect_snd [OF wired_helpers_later(1)] unfolding 4 5(1) later_def
    by (meson order_trans)
  ultimately show ?thesis using \<open>ExposeDevTokens cfg\<close> \<open>tok = raw\<close> u r(1,2,4,5)
    by (intro conjI bexI [of _ u] bexI [of _ row]) (auto simp: new_onetime_row_def row_user_def)
qed

lemma ex_forgot_run:
  "\<exists>n w'. run_state (ForgotPassword (exL (ex_claims 3 105)) (ex_auth (ex_claims 3 105)) \<lparr>forgot_Email = ''a@b.c''\<rparr>)
     (ex_world 100 ex_tables) = (Inr (ex_random n), w')"
proof -
  have "ExposeDevTokens ex_config" by (simp add: ExposeDevTokens_def)
  then show ?thesis
    by (auto simp: ForgotPassword_def require_input_def ex_run issueOneTime_def consumeEmailQuota_def devToken_def)
qed

lemma ex_random_nonempty [simp]: "ex_random n \<noteq> []"
  using token_shape_nonempty [OF token_Random_shape [OF ex_random_run]] by blast

theorem forgot_password_answer_witness:
  "\<exists>n w'. run_state (ForgotPassword (exL (ex_claims 3 105)) (ex_auth (ex_claims 3 105)) \<lparr>forgot_Email = ''a@b.c''\<rparr>)
     (ex_world 100 ex_tables) = (Inr (ex_random n), w') \<and>
     (\<exists>r \<in> set (tb_resets (w_pg w')). o_user r = 1 \<and> o_hash r = token_Hash ex_crypto (ex_random n))"
proof -
  obtain n w' where r: "run_state (ForgotPassword (exL (ex_claims 3 105)) (ex_auth (ex_claims 3 105)) \<lparr>forgot_Email = ''a@b.c''\<rparr>)
     (ex_world 100 ex_tables) = (Inr (ex_random n), w')" using ex_forgot_run by blast
  from forgot_password_answer [OF r [unfolded ex_auth_def] ex_random_nonempty] r show ?thesis by auto
qed

end
