(* ===== verification/Concurrent.thy ===== *)
theory Concurrent
  imports Guarantees
begin

text \<open>
  Requests that are served at the same time. The use cases are written against interfaces, so the
  same definitions run on another implementation of them: \<open>interleaved s\<close> is the service \<open>s\<close> whose
  every call of a repository, a store or the mailer first lets the other requests go on, and then
  runs as one step. What the others do is part of the world: a list of functions, one for each of
  the coming calls. Such a function may be anything that \<open>other_step\<close>s add up to: statements of the
  repositories with any arguments, round trips to Redis, mails, time passing. Every operation of the
  service is itself a sequence of \<open>other_step\<close>s, also when it is interleaved, so this covers any
  number of requests in any interleaving of their calls. A repository call is one statement, or the
  one transaction of \<open>CreateWithRole\<close>; a call of a store on Redis is taken as one step.
\<close>

subsection \<open>What others do between two calls\<close>

inductive other_step :: "pg_lib \<Rightarrow> 'r svc_world \<Rightarrow> 'r svc_world \<Rightarrow> bool" for P where
  tick: "other_step P w (advance w)"
| redis: "run_state (on_redis m) w = ((), w') \<Longrightarrow> other_step P w w'"
| mail: "run_state (send_mail from msg) w = (u, w') \<Longrightarrow> other_step P w w'"
| create_user: "run_state (UserRepo_CreateWithRole P email hash role) w = (x, w') \<Longrightarrow> other_step P w w'"
| get_user: "run_state (UserRepo_GetByEmail P email) w = (x, w') \<Longrightarrow> other_step P w w'"
| set_password: "run_state (UserRepo_UpdatePassword uid hash) w = (u, w') \<Longrightarrow> other_step P w w'"
| verified: "run_state (UserRepo_MarkEmailVerified uid) w = (u, w') \<Longrightarrow> other_step P w w'"
| get_profile: "run_state (UserRepo_GetAuthProfile P uid) w = (p, w') \<Longrightarrow> other_step P w w'"
| save_refresh: "run_state (RefreshRepo_Save rec) w = (u, w') \<Longrightarrow> other_step P w w'"
| get_refresh: "run_state (RefreshRepo_GetByHash hash) w = (r, w') \<Longrightarrow> other_step P w w'"
| get_family: "run_state (RefreshRepo_GetRevokedFamily hash) w = (f, w') \<Longrightarrow> other_step P w w'"
| revoke: "run_state (RefreshRepo_Revoke hash) w = (u, w') \<Longrightarrow> other_step P w w'"
| revoke_family: "run_state (RefreshRepo_RevokeFamily fam) w = (u, w') \<Longrightarrow> other_step P w w'"
| revoke_all: "run_state (RefreshRepo_RevokeAllForUser uid) w = (u, w') \<Longrightarrow> other_step P w w'"
| create_token: "run_state (OneTimeRepo_Create tab uid hash expires) w = (u, w') \<Longrightarrow> other_step P w w'"
| consume_token: "run_state (OneTimeRepo_Consume tab hash) w = (x, w') \<Longrightarrow> other_step P w w'"
| log: "run_state (AuditRepo_Log P entry) w = (u, w') \<Longrightarrow> other_step P w w'"

abbreviation anything :: "pg_lib \<Rightarrow> 'r svc_world \<Rightarrow> 'r svc_world \<Rightarrow> bool" where
  "anything P \<equiv> (other_step P)\<^sup>*\<^sup>*"

lemma preorder_rtranclp [simp, intro]: "preorder_rel R\<^sup>*\<^sup>*"
  unfolding preorder_rel_def by (blast intro: rtranclp_trans)

lemma anything_keeps:
  assumes "anything P w w'" "preorder_rel R" "\<And>w1 w2. other_step P w1 w2 \<Longrightarrow> R w1 w2"
  shows "R w w'"
  using assms(1)
proof (induction rule: rtranclp_induct)
  case base
  show ?case using assms(2) by (rule preorder_refl)
next
  case (step w1 w2)
  then show ?case using assms(2,3) unfolding preorder_rel_def by blast
qed

text \<open>A relation that every kind of step respects.\<close>

lemma other_step_cases_effect:
  assumes "other_step P w w'" "R w (advance w)" "\<And>m. effect R (on_redis m :: ('r svc_world, unit) state)"
    and "\<And>from msg. effect R (send_mail from msg)" "\<And>e h r. effect R (UserRepo_CreateWithRole P e h r)"
    and "\<And>e. effect R (UserRepo_GetByEmail P e)" "\<And>u h. effect R (UserRepo_UpdatePassword u h)"
    and "\<And>u. effect R (UserRepo_MarkEmailVerified u)" "\<And>u. effect R (UserRepo_GetAuthProfile P u)"
    and "\<And>rec. effect R (RefreshRepo_Save rec)" "\<And>h. effect R (RefreshRepo_GetByHash h)"
    and "\<And>h. effect R (RefreshRepo_GetRevokedFamily h)" "\<And>h. effect R (RefreshRepo_Revoke h)"
    and "\<And>f. effect R (RefreshRepo_RevokeFamily f)" "\<And>u. effect R (RefreshRepo_RevokeAllForUser u)"
    and "\<And>t u h e. effect R (OneTimeRepo_Create t u h e)" "\<And>t h. effect R (OneTimeRepo_Consume t h)"
    and "\<And>a. effect R (AuditRepo_Log P a)"
  shows "R w (w' :: 'r svc_world)"
  using assms(1) by cases (simp_all only: assms(2), (rule effectD [rotated], assumption, rule assms)+)

lemma other_step_db:
  fixes w :: "'r svc_world"
  assumes "other_step P w w'"
  shows "pg_rel (db_step P) w w'"
  using assms by (rule other_step_cases_effect) (intro keep_intros preorder_db_step | simp add: pg_rel_def)+

lemma other_step_later:
  fixes w :: "'r svc_world"
  assumes "other_step P w w'"
  shows "later w w'"
  using assms by (rule other_step_cases_effect) (intro keep_intros | simp)+

lemma anything_db: "anything P w w' \<Longrightarrow> pg_rel (db_step P) w w'"
  by (erule anything_keeps) (simp_all add: other_step_db)

lemma anything_later: "anything P w w' \<Longrightarrow> later w w'"
  by (erule anything_keeps) (simp_all add: other_step_later)

lemma anything_schema: "anything P w w' \<Longrightarrow> schema_ok P (w_pg w) \<Longrightarrow> schema_ok P (w_pg w')"
  using anything_db unfolding db_step_def pg_rel_def by blast

lemma anything_evolves: "anything P w w' \<Longrightarrow> evolves (w_pg w) (w_pg w')"
  using anything_db unfolding db_step_def pg_rel_def by blast

subsection \<open>The interleaved service\<close>

type_synonym 'r others = "('r svc_world \<Rightarrow> 'r svc_world) list"
type_synonym 'r busy_world = "(tables \<times> 'r others, 'r) world"

definition inside :: "('d \<times> 'x, 'r) world \<Rightarrow> ('d, 'r) world" where
  "inside W = \<lparr>w_env = w_env W, w_ticks = w_ticks W, w_clock = w_clock W, w_pg = fst (w_pg W),
     w_redis = w_redis W, w_wait = w_wait W, w_outbox = w_outbox W\<rparr>"

definition outside :: "('d, 'r) world \<Rightarrow> 'x \<Rightarrow> ('d \<times> 'x, 'r) world" where
  "outside w x = \<lparr>w_env = w_env w, w_ticks = w_ticks w, w_clock = w_clock w, w_pg = (w_pg w, x),
     w_redis = w_redis w, w_wait = w_wait w, w_outbox = w_outbox w\<rparr>"

definition at_once :: "('r svc_world, 'a) state \<Rightarrow> ('r busy_world, 'a) state" where
  "at_once m = State (\<lambda>W.
     let (f, fs) = (case snd (w_pg W) of [] \<Rightarrow> (id, []) | f # fs \<Rightarrow> (f, fs));
         (x, w) = run_state m (f (inside W))
     in (x, outside w fs))"

definition interleaved :: "'r svc_world AuthService \<Rightarrow> 'r busy_world AuthService" where
  "interleaved s = \<lparr>svc_cfg = svc_cfg s, svc_jwt = svc_jwt s,
     svc_users = \<lparr>CreateWithRole = \<lambda>e h r. at_once (CreateWithRole (svc_users s) e h r),
       GetByEmail = \<lambda>e. at_once (GetByEmail (svc_users s) e),
       UpdatePassword = \<lambda>u h. at_once (UpdatePassword (svc_users s) u h),
       MarkEmailVerified = \<lambda>u. at_once (MarkEmailVerified (svc_users s) u),
       GetAuthProfile = \<lambda>u. at_once (GetAuthProfile (svc_users s) u)\<rparr>,
     svc_refresh = \<lparr>Refresh_Save = \<lambda>rec. at_once (Refresh_Save (svc_refresh s) rec),
       GetByHash = \<lambda>h. at_once (GetByHash (svc_refresh s) h),
       GetRevokedFamily = \<lambda>h. at_once (GetRevokedFamily (svc_refresh s) h),
       Revoke = \<lambda>h. at_once (Revoke (svc_refresh s) h),
       RevokeFamily = \<lambda>f. at_once (RevokeFamily (svc_refresh s) f),
       RevokeAllForUser = \<lambda>u. at_once (RevokeAllForUser (svc_refresh s) u)\<rparr>,
     svc_resets = \<lparr>OneTime_Create = \<lambda>u h e. at_once (OneTime_Create (svc_resets s) u h e),
       OneTime_Consume = \<lambda>h. at_once (OneTime_Consume (svc_resets s) h)\<rparr>,
     svc_verify = \<lparr>OneTime_Create = \<lambda>u h e. at_once (OneTime_Create (svc_verify s) u h e),
       OneTime_Consume = \<lambda>h. at_once (OneTime_Consume (svc_verify s) h)\<rparr>,
     svc_audit = \<lparr>Audit_Log = \<lambda>a. at_once (Audit_Log (svc_audit s) a)\<rparr>,
     svc_sessions = \<lparr>Session_Save = \<lambda>x d. at_once (Session_Save (svc_sessions s) x d),
       Session_Delete = \<lambda>i u. at_once (Session_Delete (svc_sessions s) i u),
       Session_DeleteAllForUser = \<lambda>u. at_once (Session_DeleteAllForUser (svc_sessions s) u)\<rparr>,
     svc_blacklist = \<lparr>Blacklist_Add = \<lambda>j d. at_once (Blacklist_Add (svc_blacklist s) j d),
       Blacklist_Exists = \<lambda>j. at_once (Blacklist_Exists (svc_blacklist s) j)\<rparr>,
     svc_lockout = \<lparr>IsLocked = \<lambda>k. at_once (IsLocked (svc_lockout s) k),
       RecordFailure = \<lambda>k m d. at_once (RecordFailure (svc_lockout s) k m d),
       Lockout_Clear = \<lambda>k. at_once (Lockout_Clear (svc_lockout s) k)\<rparr>,
     svc_mailer = map_option (\<lambda>m. \<lparr>Send = \<lambda>msg. at_once (Send m msg)\<rparr>) (svc_mailer s),
     svc_emailLimit = \<lparr>Allow = \<lambda>k n d. at_once (Allow (svc_emailLimit s) k n d)\<rparr>\<rparr>"

text \<open>The interfaces of the interleaved service.\<close>

lemma interleaved_simps [simp]:
  "svc_cfg (interleaved s) = svc_cfg s" "svc_jwt (interleaved s) = svc_jwt s"
  "CreateWithRole (svc_users (interleaved s)) e h r = at_once (CreateWithRole (svc_users s) e h r)"
  "GetByEmail (svc_users (interleaved s)) e = at_once (GetByEmail (svc_users s) e)"
  "UpdatePassword (svc_users (interleaved s)) u h = at_once (UpdatePassword (svc_users s) u h)"
  "MarkEmailVerified (svc_users (interleaved s)) u = at_once (MarkEmailVerified (svc_users s) u)"
  "GetAuthProfile (svc_users (interleaved s)) u = at_once (GetAuthProfile (svc_users s) u)"
  "Refresh_Save (svc_refresh (interleaved s)) rec = at_once (Refresh_Save (svc_refresh s) rec)"
  "GetByHash (svc_refresh (interleaved s)) h = at_once (GetByHash (svc_refresh s) h)"
  "GetRevokedFamily (svc_refresh (interleaved s)) h = at_once (GetRevokedFamily (svc_refresh s) h)"
  "Revoke (svc_refresh (interleaved s)) h = at_once (Revoke (svc_refresh s) h)"
  "RevokeFamily (svc_refresh (interleaved s)) f = at_once (RevokeFamily (svc_refresh s) f)"
  "RevokeAllForUser (svc_refresh (interleaved s)) u = at_once (RevokeAllForUser (svc_refresh s) u)"
  "OneTime_Create (svc_resets (interleaved s)) u h ex = at_once (OneTime_Create (svc_resets s) u h ex)"
  "OneTime_Consume (svc_resets (interleaved s)) h = at_once (OneTime_Consume (svc_resets s) h)"
  "OneTime_Create (svc_verify (interleaved s)) u h ex = at_once (OneTime_Create (svc_verify s) u h ex)"
  "OneTime_Consume (svc_verify (interleaved s)) h = at_once (OneTime_Consume (svc_verify s) h)"
  "Audit_Log (svc_audit (interleaved s)) a = at_once (Audit_Log (svc_audit s) a)"
  "Session_Save (svc_sessions (interleaved s)) x d = at_once (Session_Save (svc_sessions s) x d)"
  "Session_Delete (svc_sessions (interleaved s)) i u = at_once (Session_Delete (svc_sessions s) i u)"
  "Session_DeleteAllForUser (svc_sessions (interleaved s)) u = at_once (Session_DeleteAllForUser (svc_sessions s) u)"
  "Blacklist_Add (svc_blacklist (interleaved s)) j d = at_once (Blacklist_Add (svc_blacklist s) j d)"
  "Blacklist_Exists (svc_blacklist (interleaved s)) j = at_once (Blacklist_Exists (svc_blacklist s) j)"
  "IsLocked (svc_lockout (interleaved s)) k = at_once (IsLocked (svc_lockout s) k)"
  "RecordFailure (svc_lockout (interleaved s)) k m d = at_once (RecordFailure (svc_lockout s) k m d)"
  "Lockout_Clear (svc_lockout (interleaved s)) k = at_once (Lockout_Clear (svc_lockout s) k)"
  "svc_mailer (interleaved s) = map_option (\<lambda>m. \<lparr>Send = \<lambda>msg. at_once (Send m msg)\<rparr>) (svc_mailer s)"
  "Allow (svc_emailLimit (interleaved s)) k n d = at_once (Allow (svc_emailLimit s) k n d)"
  by (simp_all add: interleaved_def)

lemma inside_simps [simp]:
  "w_env (inside W) = w_env W" "w_ticks (inside W) = w_ticks W" "w_clock (inside W) = w_clock W"
  "w_pg (inside W) = fst (w_pg W)" "inside (outside w x) = w" "w_pg (outside w x) = (w_pg w, x)"
  "inside (advance W) = advance (inside W)" "advance (outside w x) = outside (advance w) x"
  "w_env (outside w x) = w_env w" "w_ticks (outside w x) = w_ticks w" "w_clock (outside w x) = w_clock w"
  by (simp_all add: inside_def outside_def advance_def)

lemma inside_cases: obtains w x where "W = outside w x"
  by (rule that [of "inside W" "snd (w_pg W)"]) (cases W, simp add: inside_def outside_def)

lemma run_at_once:
  "run_state (at_once m) (outside w []) = (fst (run_state m w), outside (snd (run_state m w)) [])"
  "run_state (at_once m) (outside w (f # fs)) = (fst (run_state m (f w)), outside (snd (run_state m (f w))) fs)"
  by (simp_all add: at_once_def Let_def case_prod_unfold)

subsection \<open>An interleaved operation is a sequence of steps\<close>

definition others_ok :: "pg_lib \<Rightarrow> 'r others \<Rightarrow> bool" where
  "others_ok P fs \<longleftrightarrow> (\<forall>f \<in> set fs. \<forall>w. anything P w (f w))"

definition beside :: "pg_lib \<Rightarrow> 'r busy_world \<Rightarrow> 'r busy_world \<Rightarrow> bool" where
  "beside P W W' \<longleftrightarrow> (others_ok P (snd (w_pg W)) \<longrightarrow>
     anything P (inside W) (inside W') \<and> others_ok P (snd (w_pg W')))"

lemma preorder_beside [simp, intro]: "preorder_rel (beside P)"
  unfolding preorder_rel_def beside_def by (auto intro: rtranclp_trans)

lemma others_ok_simps [simp]:
  "others_ok P []" "others_ok P (f # fs) \<longleftrightarrow> (\<forall>w. anything P w (f w)) \<and> others_ok P fs"
  by (auto simp: others_ok_def)

lemma at_once_some:
  assumes "run_state (at_once m) W = (x, W')"
  obtains v where "run_state m v = (x, inside W')"
proof -
  obtain w fs where W: "W = outside w fs" by (rule inside_cases)
  show thesis
  proof (cases fs)
    case Nil
    with assms that [of w] show ?thesis by (auto simp: W run_at_once)
  next
    case (Cons f gs)
    with assms that [of "f w"] show ?thesis by (auto simp: W run_at_once)
  qed
qed

lemma at_once_run:
  assumes "run_state (at_once m) W = (x, W')" "others_ok P (snd (w_pg W))"
  obtains w where "anything P (inside W) w" "run_state m w = (x, inside W')" "others_ok P (snd (w_pg W'))"
proof -
  obtain w fs where W: "W = outside w fs" by (rule inside_cases)
  show thesis
  proof (cases fs)
    case Nil
    with assms that [of w] show ?thesis by (auto simp: W run_at_once)
  next
    case (Cons f gs)
    with assms that [of "f w"] show ?thesis by (auto simp: W run_at_once)
  qed
qed

lemma beside_at_once:
  assumes "effect (anything P) m"
  shows "effect (beside P) (at_once m)"
proof -
  have "beside P W W'" if r: "run_state (at_once m) W = (x, W')" for W W' x
    unfolding beside_def
  proof
    assume ok: "others_ok P (snd (w_pg W))"
    obtain w where w: "anything P (inside W) w" "run_state m w = (x, inside W')" "others_ok P (snd (w_pg W'))"
      by (rule at_once_run [OF r ok])
    from rtranclp_trans [OF w(1) effectD [OF assms w(2)]] w(3)
    show "anything P (inside W) (inside W') \<and> others_ok P (snd (w_pg W'))" by blast
  qed
  then show ?thesis unfolding effect_def by (metis prod.collapse)
qed

lemma beside_ticks [keep_intros]:
  "effect (beside P) time_Now" "effect (beside P) uuid_New" "effect (beside P) (rand_Read n)"
  "effect (beside P) (ext_call g)"
  by (auto simp: effect_def beside_def run_simps intro: other_step.tick)

text \<open>Every call of the wired service is made of steps.\<close>

lemma step_effect:
  assumes "\<And>w x w'. run_state m w = (x, w') \<Longrightarrow> other_step P w w'"
  shows "effect (anything P) m"
  unfolding effect_def using assms by (metis prod.collapse r_into_rtranclp)

lemma steps_on_redis [keep_intros]: "effect (anything P) (on_redis m :: ('r svc_world, 'a) state)"
proof (rule step_effect)
  fix w :: "'r svc_world" and x w'
  assume "run_state (on_redis m) w = (x, w')"
  then have "run_state (on_redis (finish m)) w = ((), w')"
    by (auto simp: run_on_redis finish_def split: prod.splits)
  then show "other_step P w w'" by (rule other_step.redis)
qed

lemma steps_calls [keep_intros]:
  "effect (anything P) (UserRepo_CreateWithRole P e h r)" "effect (anything P) (UserRepo_GetByEmail P e)"
  "effect (anything P) (UserRepo_UpdatePassword u h)" "effect (anything P) (UserRepo_MarkEmailVerified u)"
  "effect (anything P) (UserRepo_GetAuthProfile P u)" "effect (anything P) (RefreshRepo_Save rec)"
  "effect (anything P) (RefreshRepo_GetByHash h)" "effect (anything P) (RefreshRepo_GetRevokedFamily h)"
  "effect (anything P) (RefreshRepo_Revoke h)" "effect (anything P) (RefreshRepo_RevokeFamily f)"
  "effect (anything P) (RefreshRepo_RevokeAllForUser u)" "effect (anything P) (OneTimeRepo_Create tab u h ex)"
  "effect (anything P) (OneTimeRepo_Consume tab h)" "effect (anything P) (AuditRepo_Log P a)"
  "effect (anything P) (send_mail from msg)"
  by (rule step_effect, erule other_step.intros)+

lemma steps_ticks [keep_intros]:
  "effect (anything P) time_Now" "effect (anything P) uuid_New" "effect (anything P) (rand_Read n)"
  "effect (anything P) (ext_call g)"
  by (auto simp: effect_def run_simps intro: other_step.tick)

lemma steps_stores [keep_intros]:
  "effect (anything P) (SessionStore_Save c V J x ttl)" "effect (anything P) (SessionStore_Delete c V i u)"
  "effect (anything P) (SessionStore_DeleteAllForUser c V u)"
  "effect (anything P) (Blacklist_add c jti ttl)" "effect (anything P) (Blacklist_exists c jti)"
  "effect (anything P) (Lockout_IsLocked c k)" "effect (anything P) (Lockout_RecordFailure c k m d)"
  "effect (anything P) (Lockout_clear c k)" "effect (anything P) (RateLimiter_Allow c k n d)"
  unfolding redis_store_defs Let_def
  by (auto intro!: keep_intros split: sum.splits)

lemma steps_mail [keep_intros]: "effect (anything P) (resend_Send from msg)"
  unfolding resend_Send_def by (intro keep_intros preorder_rtranclp)

lemma beside_library [keep_intros]:
  "effect (beside P) (token_Random n)" "effect (beside P) (password_Hash C pw cost)"
  "effect (beside P) (jwt_IssueAccess J V s i)" "effect (beside P) (jwt_ParseAccess J s raw)"
  unfolding token_Random_def password_Hash_def jwt_IssueAccess_def jwt_ParseAccess_def Let_def
  by (intro keep_intros preorder_beside)+

lemma interleaved_helpers:
  fixes L P c M cfg
  defines "s \<equiv> interleaved (app_auth L P c M cfg)"
  shows "effect (beside P) (logAudit L s u a ip ua m)" "effect (beside P) (failLogin L s email ip ua)"
    "effect (beside P) (revokeAllSessions s uid)" "effect (beside P) (issueOneTime L (svc_resets s) uid ttl)"
    "effect (beside P) (issueOneTime L (svc_verify s) uid ttl)" "effect (beside P) (issueTokens L s uid sid fid)"
    "effect (beside P) (consumeEmailQuota L s email)" "effect (beside P) (sendActionEmail L s email raw kind)"
    "effect (beside P) (require_input L fs)"
  unfolding s_def helper_defs interleaved_simps wired_simps Let_def if_distrib option.case
  by (auto intro!: keep_intros beside_at_once split: option.splits)

lemma interleaved_service:
  fixes L P c M cfg
  defines "s \<equiv> interleaved (app_auth L P c M cfg)"
  shows "effect (beside P) (Register L s ri ip ua)" "effect (beside P) (Login L s li ip ua)"
    "effect (beside P) (Refresh L s raw ip ua)" "effect (beside P) (Logout L s uid sid jti exp raw ip ua)"
    "effect (beside P) (LogoutAll L s uid)" "effect (beside P) (ForgotPassword L s fi)"
    "effect (beside P) (ResetPassword L s pi)" "effect (beside P) (VerifyEmail L s ti)"
    "effect (beside P) (GetProfile s uid)" "effect (beside P) (ParseAccess L s raw)"
  unfolding s_def usecase_defs interleaved_simps wired_simps Let_def
  by (auto intro!: interleaved_helpers keep_intros beside_at_once split: sum.splits option.splits)

lemma interleaved_perform: "effect (beside P) (perform L (interleaved (app_auth L P c M cfg)) op)"
  by (cases op) (auto intro!: interleaved_service keep_intros beside_at_once)

subsection \<open>Without others it is the service\<close>

named_theorems mirror_intros "a program of the interleaved service does what the program of the service does"

definition mirrors :: "('r svc_world, 'a) state \<Rightarrow> ('r busy_world, 'a) state \<Rightarrow> bool" where
  "mirrors m M \<longleftrightarrow> (\<forall>w. run_state M (outside w []) = (fst (run_state m w), outside (snd (run_state m w)) []))"

lemma mirror_basic [mirror_intros]:
  "mirrors (State_Monad.return x) (State_Monad.return x)" "mirrors (ok y) (ok y)" "mirrors (fail e) (fail e)"
  "mirrors (pure_call r) (pure_call r)" "mirrors time_Now time_Now" "mirrors uuid_New uuid_New"
  "mirrors (rand_Read n) (rand_Read n)" "mirrors (ext_call g) (ext_call g)" "mirrors m (at_once m)"
  by (simp_all add: mirrors_def run_simps run_at_once)

lemma mirror_bind [mirror_intros]:
  "mirrors m M \<Longrightarrow> (\<And>x. mirrors (k x) (K x)) \<Longrightarrow> mirrors (State_Monad.bind m k) (State_Monad.bind M K)"
  by (simp add: mirrors_def case_prod_unfold)

lemma mirror_or_return [mirror_intros]:
  "mirrors m M \<Longrightarrow> (\<And>x. mirrors (k x) (K x)) \<Longrightarrow> mirrors (or_return m k) (or_return M K)"
  by (simp add: mirrors_def run_or_return split: prod.splits sum.splits)

lemma mirror_ignoring [mirror_intros]: "mirrors m M \<Longrightarrow> mirrors k K \<Longrightarrow> mirrors (ignoring m k) (ignoring M K)"
  by (simp add: mirrors_def run_ignoring)

lemma mirror_guard [mirror_intros]: "mirrors k K \<Longrightarrow> mirrors (guard_err b e k) (guard_err b e K)"
  by (simp add: mirrors_def run_guard_err)

lemma mirror_branches [mirror_intros]:
  "mirrors m M \<Longrightarrow> mirrors n N \<Longrightarrow> mirrors (if b then m else n) (if b then M else N)"
  "(\<And>e. mirrors (f e) (F e)) \<Longrightarrow> (\<And>x. mirrors (g x) (G x)) \<Longrightarrow>
     mirrors (case r of Inl e \<Rightarrow> f e | Inr x \<Rightarrow> g x) (case r of Inl e \<Rightarrow> F e | Inr x \<Rightarrow> G x)"
  "mirrors p Q \<Longrightarrow> (\<And>x. mirrors (q x) (R x)) \<Longrightarrow>
     mirrors (case o' of None \<Rightarrow> p | Some x \<Rightarrow> q x) (case o' of None \<Rightarrow> Q | Some x \<Rightarrow> R x)"
  "(\<And>x y. mirrors (h x y) (H x y)) \<Longrightarrow> mirrors (case z of (x, y) \<Rightarrow> h x y) (case z of (x, y) \<Rightarrow> H x y)"
  by (simp_all split: sum.splits option.splits prod.splits)

lemma mirror_library [mirror_intros]:
  "mirrors (token_Random n) (token_Random n)" "mirrors (password_Hash C pw cost) (password_Hash C pw cost)"
  "mirrors (jwt_IssueAccess J V js i) (jwt_IssueAccess J V js i)" "mirrors (jwt_ParseAccess J js raw) (jwt_ParseAccess J js raw)"
  unfolding token_Random_def password_Hash_def jwt_IssueAccess_def jwt_ParseAccess_def Let_def
  by (intro mirror_intros)+

lemma mirror_mail [mirror_intros]: "mirrors (sendTransactional L s to subj txt html) (sendTransactional L (interleaved s) to subj txt html)"
  by (cases "svc_mailer s") (auto simp: sendTransactional_def intro: mirror_intros)

lemmas audit_quota_defs = logAudit_def failLogin_def revokeAllSessions_def issueOneTime_def issueTokens_def
  consumeEmailQuota_def sendActionEmail_def require_input_def devToken_def

lemma mirror_helpers [mirror_intros]:
  "mirrors (logAudit L s u a ip ua m) (logAudit L (interleaved s) u a ip ua m)"
  "mirrors (failLogin L s email ip ua) (failLogin L (interleaved s) email ip ua)"
  "mirrors (revokeAllSessions s uid) (revokeAllSessions (interleaved s) uid)"
  "mirrors (issueOneTime L (svc_resets s) uid ttl) (issueOneTime L (svc_resets (interleaved s)) uid ttl)"
  "mirrors (issueOneTime L (svc_verify s) uid ttl) (issueOneTime L (svc_verify (interleaved s)) uid ttl)"
  "mirrors (issueTokens L s uid sid fid) (issueTokens L (interleaved s) uid sid fid)"
  "mirrors (consumeEmailQuota L s email) (consumeEmailQuota L (interleaved s) email)"
  "mirrors (sendActionEmail L s email raw kind) (sendActionEmail L (interleaved s) email raw kind)"
  "mirrors (require_input L fs) (require_input L fs)"
  unfolding audit_quota_defs interleaved_simps Let_def
  by (intro mirror_intros)+

lemma mirror_service [mirror_intros]:
  "mirrors (Register L s ri ip ua) (Register L (interleaved s) ri ip ua)"
  "mirrors (Login L s li ip ua) (Login L (interleaved s) li ip ua)"
  "mirrors (Refresh L s raw ip ua) (Refresh L (interleaved s) raw ip ua)"
  "mirrors (Logout L s uid sid jti exp raw ip ua) (Logout L (interleaved s) uid sid jti exp raw ip ua)"
  "mirrors (LogoutAll L s uid) (LogoutAll L (interleaved s) uid)"
  "mirrors (ForgotPassword L s fi) (ForgotPassword L (interleaved s) fi)"
  "mirrors (ResetPassword L s pi) (ResetPassword L (interleaved s) pi)"
  "mirrors (VerifyEmail L s ti) (VerifyEmail L (interleaved s) ti)"
  "mirrors (GetProfile s uid) (GetProfile (interleaved s) uid)"
  "mirrors (ParseAccess L s raw) (ParseAccess L (interleaved s) raw)"
  unfolding usecase_defs interleaved_simps devToken_def Let_def
  by (intro mirror_intros)+

lemma mirror_perform: "mirrors (perform L s op) (perform L (interleaved s) op)"
  by (cases op) (simp_all only: perform.simps finish_def interleaved_simps, (intro mirror_intros)+)

subsection \<open>Runs of overlapping operations\<close>

text \<open>
  Operations one after the other, each of them interleaved with others: \<open>runs\<close> is the case in which
  nobody else is there.
\<close>

inductive overlapped ::
    "libs \<Rightarrow> pg_lib \<Rightarrow> 'r svc_world AuthService \<Rightarrow> 'r svc_world \<Rightarrow> operation list \<Rightarrow> 'r svc_world \<Rightarrow> bool"
  for L P s w where
  idle: "overlapped L P s w [] w"
| serve: "overlapped L P s w ops w1 \<Longrightarrow> others_ok P fs \<Longrightarrow>
    run_state (perform L (interleaved s) op) (outside w1 fs) = (u, W) \<Longrightarrow> overlapped L P s w (ops @ [op]) (inside W)"

lemma runs_overlapped: "runs L s w ops w' \<Longrightarrow> overlapped L P s w ops w'"
proof (induction rule: runs.induct)
  case start
  show ?case by (rule overlapped.idle)
next
  case (operate ops w1 op u w2)
  have "run_state (perform L (interleaved s) op) (outside w1 []) = (u, outside w2 [])"
    using mirror_perform [of L s op] operate.hyps(2) by (simp add: mirrors_def)
  from overlapped.serve [OF operate.IH _ this] show ?case by simp
qed

lemma interleaved_anything:
  assumes "effect (beside P) m" "run_state m (outside w fs) = (x, W)" "others_ok P fs"
  shows "anything P w (inside W)"
  using effectD [OF assms(1,2)] assms(3) by (simp add: beside_def)

lemma overlapped_anything: "overlapped L P (app_auth L P c M cfg) w ops w' \<Longrightarrow> anything P w w'"
proof (induction rule: overlapped.induct)
  case (serve ops w1 fs op u W)
  from serve.IH interleaved_anything [OF interleaved_perform serve.hyps(3,2)] show ?case by (rule rtranclp_trans)
qed simp

subsection \<open>Refresh tokens\<close>

interpretation busy_refresh: refresh_store "svc_refresh (interleaved (app_auth L P c M cfg))"
    "\<lambda>W. schema_ok P (w_pg (inside W)) \<and> others_ok P (snd (w_pg W))" "beside P"
    "\<lambda>W h. h \<in> t_hash ` set (tb_refresh (w_pg (inside W)))"
    "\<lambda>W h. others_ok P (snd (w_pg W)) \<and> revoked_hash h (w_pg (inside W))" for L P c M cfg
proof (unfold_locales, goal_cases)
  case (1 h W rec W')
  then obtain v where v: "run_state (RefreshRepo_GetByHash h) v = (Inr rec, inside W')"
    by (auto elim: at_once_some)
  from refresh.found_known [unfolded RefreshRepo_simps, OF v] show ?case by simp
next
  case (2 W h u W')
  then obtain v where v: "anything P (inside W) v" "run_state (RefreshRepo_Revoke h) v = (Inr u, inside W')"
    "others_ok P (snd (w_pg W'))"
    by (auto elim: at_once_run)
  from 2(2) obtain r where r: "r \<in> set (tb_refresh (w_pg (inside W)))" "t_hash r = h" by auto
  obtain r' where "r' \<in> set (tb_refresh (w_pg v))" "t_hash r' = h"
    using growsD [of refresh_le _ _ r] anything_evolves [OF v(1)] r unfolding evolves_def refresh_le_def by blast
  with refresh.revoke_kills [unfolded RefreshRepo_simps, of P, OF _ _ v(2)] v(3) 2(1) anything_schema [OF v(1)]
  show ?case by blast
next
  case (3 W h W')
  then show ?case using anything_evolves revoked_hash_evolves unfolding beside_def by blast
next
  case (4 W h r W')
  then obtain v where v: "anything P (inside W) v" "run_state (RefreshRepo_GetByHash h) v = (r, inside W')"
    by (auto elim: at_once_run)
  have "schema_ok P (w_pg v)" "revoked_hash h (w_pg v)"
    using 4 anything_schema [OF v(1)] revoked_hash_evolves [OF _ anything_evolves [OF v(1)]] by blast+
  with refresh.dead_refused [unfolded RefreshRepo_simps, OF _ _ v(2)] show ?case by blast
qed

lemma interleaved_refresh_kills:
  fixes L P c M cfg
  defines "s \<equiv> interleaved (app_auth L P c M cfg)"
  assumes "run_state (Refresh L s raw ip ua) W = (Inr pair, W')" "others_ok P (snd (w_pg W))" "schema_ok P (w_pg (inside W))"
  shows "raw \<noteq> [] \<and> others_ok P (snd (w_pg W')) \<and> revoked_hash (token_Hash (lib_C L) raw) (w_pg (inside W'))"
proof -
  let ?h = "token_Hash (lib_C L) raw"
  obtain rec W1 W2 W3 where r: "raw \<noteq> []" "run_state (GetByHash (svc_refresh s) ?h) W = (Inr rec, W1)"
    "run_state (Revoke (svc_refresh s) ?h) W1 = (Inr (), W2)"
    "run_state (issueTokens L s (rec_UserID rec) (rec_SessionID rec) (rec_FamilyID rec)) W2 = (Inr pair, W3)"
    "W' = snd (run_state (logAudit L s (Some (rec_UserID rec)) ''auth.refresh'' ip ua None) W3)"
    using assms(2) by (auto simp: Refresh_def guard_err_ok_iff or_return_ok_iff run_ignoring run_ok run_fail Let_def
        split: prod.splits sum.splits option.splits)
  have "effect (beside P) (GetByHash (svc_refresh s) ?h)"
    unfolding s_def interleaved_simps wired_simps by (intro beside_at_once keep_intros)
  then have b1: "beside P W W1" using r(2) by (rule effectD)
  have inv1: "schema_ok P (w_pg (inside W1)) \<and> others_ok P (snd (w_pg W1))"
    using b1 assms(3,4) anything_schema unfolding beside_def by blast
  have known: "?h \<in> t_hash ` set (tb_refresh (w_pg (inside W1)))"
    by (rule busy_refresh.found_known [OF r(2) [unfolded s_def]])
  have dead: "others_ok P (snd (w_pg W2)) \<and> revoked_hash ?h (w_pg (inside W2))"
    by (rule busy_refresh.revoke_kills [OF inv1 known r(3) [unfolded s_def]])
  have "beside P W2 W3" using effectD [OF interleaved_helpers(6) r(4) [unfolded s_def]] .
  moreover have "beside P W3 W'" unfolding r(5) s_def by (rule effect_snd [OF interleaved_helpers(1)])
  ultimately have "beside P W2 W'" using preorder_beside unfolding preorder_rel_def by blast
  from busy_refresh.dead_later [OF dead this] r(1) show ?thesis by blast
qed

lemma interleaved_refresh_once:
  fixes L P c M cfg
  defines "s \<equiv> interleaved (app_auth L P c M cfg)"
  assumes "schema_ok P (w_pg w)" "others_ok P fs" "run_state (Refresh L s raw ip ua) (outside w fs) = (Inr pair, W1)"
    and "anything P (inside W1) w2" "others_ok P gs"
  shows "fst (run_state (Refresh L s raw ip' ua') (outside w2 gs)) = Inl ErrUnauthorized"
proof -
  have k: "raw \<noteq> []" "revoked_hash (token_Hash (lib_C L) raw) (w_pg (inside W1))"
    using interleaved_refresh_kills [OF assms(4) [unfolded s_def]] assms(2,3) by simp_all
  have "anything P w (inside W1)"
    by (rule interleaved_anything [OF interleaved_service(3) assms(4) [unfolded s_def] assms(3)])
  then have "schema_ok P (w_pg w2)" using anything_schema assms(2,5) by blast
  moreover have "revoked_hash (token_Hash (lib_C L) raw) (w_pg w2)"
    using revoked_hash_evolves [OF k(2) anything_evolves [OF assms(5)]] .
  ultimately show ?thesis
    unfolding s_def by (intro busy_refresh.Refresh_dead [where P = P]) (simp_all add: assms(6) k(1))
qed

subsection \<open>One-time tokens\<close>

lemma single_use_interleaved:
  assumes "\<And>h. OneTime_Consume R h = at_once (OneTimeRepo_Consume tab h)"
  shows "single_use R (\<lambda>W. schema_ok P (w_pg (inside W)) \<and> others_ok P (snd (w_pg W))) (beside P)
    (\<lambda>W h. others_ok P (snd (w_pg W)) \<and> used_hash h (onetime_rows tab (w_pg (inside W))))"
proof (unfold_locales, goal_cases)
  case (1 W h u W')
  then obtain v where "run_state (OneTimeRepo_Consume tab h) v = (Inr u, inside W')" "others_ok P (snd (w_pg W'))"
    by (auto simp: assms elim: at_once_run)
  then show ?case using Consume_Inr(2) [of tab h v u "inside W'"] by simp
next
  case (2 W h W')
  then show ?case
    using anything_evolves evolves_onetime used_hash_grows unfolding beside_def by blast
next
  case (3 W h u)
  show ?case
  proof
    assume a: "fst (run_state (OneTime_Consume R h) W) = Inr u"
    then obtain W' where "run_state (at_once (OneTimeRepo_Consume tab h)) W = (Inr u, W')"
      unfolding assms by (metis prod.collapse)
    then obtain v where v: "anything P (inside W) v" "run_state (OneTimeRepo_Consume tab h) v = (Inr u, inside W')"
      using 3(1) by (auto elim: at_once_run)
    have "schema_ok P (w_pg v)" "used_hash h (onetime_rows tab (w_pg v))"
      using 3 anything_schema [OF v(1)] used_hash_grows [OF _ evolves_onetime [OF anything_evolves [OF v(1)]]] by blast+
    from Consume_used [OF this, of u] v(2) show False by simp
  qed
qed

interpretation busy_resets: single_use "svc_resets (interleaved (app_auth L P c M cfg))"
    "\<lambda>W. schema_ok P (w_pg (inside W)) \<and> others_ok P (snd (w_pg W))" "beside P"
    "\<lambda>W h. others_ok P (snd (w_pg W)) \<and> used_hash h (onetime_rows PasswordResets (w_pg (inside W)))" for L P c M cfg
  by (rule single_use_interleaved) simp

interpretation busy_verify: single_use "svc_verify (interleaved (app_auth L P c M cfg))"
    "\<lambda>W. schema_ok P (w_pg (inside W)) \<and> others_ok P (snd (w_pg W))" "beside P"
    "\<lambda>W h. others_ok P (snd (w_pg W)) \<and> used_hash h (onetime_rows EmailVerifications (w_pg (inside W)))" for L P c M cfg
  by (rule single_use_interleaved) simp

lemma interleaved_reset_spends:
  fixes L P c M cfg
  defines "s \<equiv> interleaved (app_auth L P c M cfg)"
  assumes "run_state (ResetPassword L s i) W = (Inr x, W')" "others_ok P (snd (w_pg W))" "schema_ok P (w_pg (inside W))"
  shows "used_hash (token_Hash (lib_C L) (in_Token (reset_TokenInput i))) (tb_resets (w_pg (inside W')))"
proof -
  let ?h = "token_Hash (lib_C L) (in_Token (reset_TokenInput i))"
  obtain uid W1 where c: "run_state (OneTime_Consume (svc_resets s) ?h) W = (Inr uid, W1)" and
    rest: "run_state (or_return (password_Hash (lib_C L) (reset_NewPassword i) (sec_BcryptCost (cfg_Security (svc_cfg s)))) (\<lambda>hash.
      or_return (UpdatePassword (svc_users s) uid hash) (\<lambda>_. ignoring (revokeAllSessions s uid)
      (ignoring (logAudit L s (Some uid) ''auth.password_reset'' [] [] None) (ok ()))))) W1 = (Inr x, W')"
    by (rule or_return_okE [OF assms(2) [unfolded ResetPassword_def require_input_def]])
      (rule or_return_okE, assumption, auto simp: run_pure_call)
  have spent: "others_ok P (snd (w_pg W1)) \<and> used_hash ?h (onetime_rows PasswordResets (w_pg (inside W1)))"
    by (rule busy_resets.consume_spends [OF _ c [unfolded s_def]]) (use assms(3,4) in simp)
  have "beside P W1 W'"
    by (rule effectD [OF _ rest], unfold s_def interleaved_simps wired_simps)
      (intro keep_intros interleaved_helpers beside_at_once preorder_beside)
  from busy_resets.spent_later [OF spent this] show ?thesis by simp
qed

lemma interleaved_reset_once:
  fixes L P c M cfg
  defines "s \<equiv> interleaved (app_auth L P c M cfg)"
  assumes "schema_ok P (w_pg w)" "others_ok P fs" "run_state (ResetPassword L s i) (outside w fs) = (Inr x, W1)"
    and "anything P (inside W1) w2" "others_ok P gs" "in_Token (reset_TokenInput i') = in_Token (reset_TokenInput i)"
  shows "\<exists>e. fst (run_state (ResetPassword L s i') (outside w2 gs)) = Inl e"
proof -
  have "used_hash (token_Hash (lib_C L) (in_Token (reset_TokenInput i))) (tb_resets (w_pg (inside W1)))"
    using interleaved_reset_spends [OF assms(4) [unfolded s_def]] assms(2,3) by simp
  then have "used_hash (token_Hash (lib_C L) (in_Token (reset_TokenInput i'))) (tb_resets (w_pg w2))"
    using used_hash_grows anything_evolves [OF assms(5)] assms(7) unfolding evolves_def by auto
  moreover have "anything P w (inside W1)"
    by (rule interleaved_anything [OF interleaved_service(7) assms(4) [unfolded s_def] assms(3)])
  then have "schema_ok P (w_pg w2)" using anything_schema assms(2,5) by blast
  ultimately show ?thesis
    unfolding s_def by (intro busy_resets.reset_refused [where P = P]) (simp_all add: assms(6))
qed

subsection \<open>One account for an email\<close>

definition taken :: "pg_lib \<Rightarrow> string \<Rightarrow> tables \<Rightarrow> bool" where
  "taken P email d \<longleftrightarrow> (\<exists>u \<in> set (tb_users d). u_deleted u = None \<and>
     sql_LOWER P (u_email u) = sql_LOWER P (sql_LOWER P email))"

lemma taken_evolves: "taken P email d \<Longrightarrow> evolves d d' \<Longrightarrow> taken P email d'"
proof -
  assume "taken P email d" and e: "evolves d d'"
  then obtain u where u: "u \<in> set (tb_users d)" "u_deleted u = None"
    "sql_LOWER P (u_email u) = sql_LOWER P (sql_LOWER P email)"
    unfolding taken_def by blast
  obtain u' where "u' \<in> set (tb_users d')" "user_le u u'"
    using growsD [OF _ u(1)] e unfolding evolves_def by blast
  with u(2,3) show ?thesis unfolding taken_def user_le_def by (intro bexI [of _ u']) simp_all
qed

lemma both_inserts_taken:
  assumes "both_inserts P email hash role d u d2"
  shows "\<not> taken P email d"
proof -
  obtain now nid d1 where "insert_user P email hash now nid d = (Inr u, d1)"
    using assms unfolding both_inserts_def by blast
  then show ?thesis
    unfolding insert_user_def Let_def by (force simp: taken_def live_users_def split: if_splits)
qed

lemma interleaved_register:
  fixes L P c M cfg
  defines "s \<equiv> interleaved (app_auth L P c M cfg)"
  assumes "run_state (Register L s i ip ua) W = (Inr tok, W')" "others_ok P (snd (w_pg W))"
  obtains v hash user v' where "anything P (inside W) v"
    "both_inserts P (normEmail L (reg_Email i)) hash defaultRole (w_pg v) user (w_pg v')" "anything P v' (inside W')"
proof -
  let ?e = "normEmail L (reg_Email i)"
  obtain hash W1 user W2 where
    1: "run_state (or_return (consumeEmailQuota L s ?e) (\<lambda>_. password_Hash (lib_C L) (reg_Password i)
      (sec_BcryptCost (cfg_Security (svc_cfg s))))) W = (Inr hash, W1)" and
    2: "run_state (at_once (UserRepo_CreateWithRole P ?e hash defaultRole)) W1 = (Inr user, W2)" and
    3: "run_state (or_return (issueOneTime L (svc_verify s) (user_ID user) (24 * hour)) (\<lambda>t.
      or_return (sendActionEmail L s ?e t MailVerify) (\<lambda>_.
      ignoring (logAudit L s (Some (user_ID user)) ''user.registered'' ip ua None) (ok (devToken s t))))) W2 = (Inr tok, W')"
    using assms(2) unfolding s_def
    by (auto simp: Register_def require_input_def or_return_ok_iff run_pure_call Let_def)
  have b1: "beside P W W1"
    by (rule effectD [OF _ 1]) (unfold s_def, intro keep_intros interleaved_helpers preorder_beside)
  have b3: "beside P W2 W'"
    by (rule effectD [OF _ 3]) (unfold s_def, intro keep_intros interleaved_helpers preorder_beside)
  have ok1: "others_ok P (snd (w_pg W1))" and a1: "anything P (inside W) (inside W1)"
    using b1 assms(3) by (simp_all add: beside_def)
  obtain v where v: "anything P (inside W1) v" "run_state (UserRepo_CreateWithRole P ?e hash defaultRole) v = (Inr user, inside W2)"
    "others_ok P (snd (w_pg W2))"
    by (rule at_once_run [OF 2 ok1])
  have "both_inserts P ?e hash defaultRole (w_pg v) user (w_pg (inside W2))"
    using CreateWithRole_cases [OF v(2)] by auto
  moreover have "anything P (inside W2) (inside W')" using b3 v(3) by (simp add: beside_def)
  ultimately show thesis by (rule that [OF rtranclp_trans [OF a1 v(1)]])
qed

text \<open>The account a registration made: it was not there before, and it is the only one with its email.\<close>

lemma interleaved_register_once:
  fixes L P c M cfg
  defines "s \<equiv> interleaved (app_auth L P c M cfg)"
  assumes "schema_ok P (w_pg w)" "others_ok P fs" "run_state (Register L s i ip ua) (outside w fs) = (Inr tok, W1)"
  shows "\<not> taken P (normEmail L (reg_Email i)) (w_pg w)"
    "\<exists>!u. u \<in> set (live_users (w_pg (inside W1))) \<and>
       sql_LOWER P (u_email u) = sql_LOWER P (sql_LOWER P (normEmail L (reg_Email i)))"
    "anything P (inside W1) w2 \<Longrightarrow> others_ok P gs \<Longrightarrow> normEmail L (reg_Email i') = normEmail L (reg_Email i) \<Longrightarrow>
       \<exists>e. fst (run_state (Register L s i' ip' ua') (outside w2 gs)) = Inl e"
proof -
  let ?e = "normEmail L (reg_Email i)"
  obtain v hash user v' where r: "anything P w v" "both_inserts P ?e hash defaultRole (w_pg v) user (w_pg v')"
    "anything P v' (inside W1)"
    by (rule interleaved_register [OF assms(4) [unfolded s_def]]) (simp_all add: assms(3))
  have free: "\<not> taken P ?e (w_pg v)" by (rule both_inserts_taken [OF r(2)])
  then show "\<not> taken P ?e (w_pg w)" by (rule contrapos_nn) (rule taken_evolves [OF _ anything_evolves [OF r(1)]])
  obtain row where row: "new_user_row P ?e hash row" "row \<in> set (tb_users (w_pg v'))"
    by (rule both_insertsD [OF r(2)]) simp
  then have "taken P ?e (w_pg v')" unfolding taken_def new_user_row_def by (intro bexI [of _ row]) simp_all
  then have t1: "taken P ?e (w_pg (inside W1))" by (rule taken_evolves [OF _ anything_evolves [OF r(3)]])
  have "anything P w (inside W1)"
    by (rule interleaved_anything [OF interleaved_service(1) assms(4) [unfolded s_def] assms(3)])
  then have "schema_ok P (w_pg (inside W1))" using anything_schema assms(2) by blast
  note unique = distinct_map_inj [OF schema_keys(2) [OF this]]
  obtain u where u: "u \<in> set (live_users (w_pg (inside W1)))" "sql_LOWER P (u_email u) = sql_LOWER P (sql_LOWER P ?e)"
    using t1 unfolding taken_def live_users_def by auto
  show "\<exists>!u. u \<in> set (live_users (w_pg (inside W1))) \<and> sql_LOWER P (u_email u) = sql_LOWER P (sql_LOWER P ?e)"
    by (rule ex1I [of _ u]) (use u in blast, rule unique, use u in auto)
  show "\<exists>e. fst (run_state (Register L s i' ip' ua') (outside w2 gs)) = Inl e"
    if later: "anything P (inside W1) w2" "others_ok P gs" "normEmail L (reg_Email i') = ?e"
  proof (cases "run_state (Register L s i' ip' ua') (outside w2 gs)")
    case (Pair res W2)
    show ?thesis
    proof (cases res)
      case (Inr tok')
      obtain z hash' user' z' where z: "anything P w2 z" "both_inserts P ?e hash' defaultRole (w_pg z) user' (w_pg z')"
          "anything P z' (inside W2)"
        by (rule interleaved_register [OF Pair [unfolded Inr s_def]]) (simp_all add: later)
      have "taken P ?e (w_pg z)"
        by (rule taken_evolves [OF taken_evolves [OF t1 anything_evolves [OF later(1)]] anything_evolves [OF z(1)]])
      with both_inserts_taken [OF z(2)] show ?thesis by contradiction
    qed (simp add: Pair)
  qed
qed

end
