(* ===== verification/BusySamples.thy ===== *)
theory BusySamples
  imports Concurrent SampleRuns
begin

text \<open>
  Runs of operations on the concrete parameters of \<open>Samples\<close> while another request is served: time
  passes before the first call, and the tokens of another user are revoked before the second.
\<close>

definition ex_others :: "unit others" where
  "ex_others = [advance, \<lambda>w. snd (run_state (RefreshRepo_RevokeAllForUser 5) w)]"

lemma ex_others_ok: "others_ok P ex_others"
proof -
  have "other_step P w (snd (run_state (RefreshRepo_RevokeAllForUser 5) w))" for w :: "unit svc_world"
    by (rule other_step.revoke_all) (rule surjective_pairing)
  then show ?thesis by (auto simp: ex_others_def intro: other_step.tick)
qed

definition busy_ok :: "nat \<Rightarrow> (unit busy_world, 'a) call \<Rightarrow> bool" where
  "busy_ok n m \<longleftrightarrow> (\<exists>x W. run_state m (outside (ex_world n ex_tables) ex_others) = (Inr x, W))"

lemma busy_okE:
  assumes "busy_ok n m"
  obtains x W where "run_state m (outside (ex_world n ex_tables) ex_others) = (Inr x, W)"
  using assms unfolding busy_ok_def by blast

lemma busy_random [ex_run]:
  "run_state (token_Random 32) (outside (ex_world n d) x) = (Inr (ex_random n), outside (ex_world (Suc n) d) x)"
  by (simp add: token_Random_def run_simps ex_random_def)

lemmas busy_run = ex_run run_at_once ex_others_def

lemma busy_refresh_run: "busy_ok 100 (Refresh (exL (ex_claims 3 107)) (interleaved (ex_auth (ex_claims 3 107))) ex_token [] [])"
  unfolding busy_ok_def by (simp add: Refresh_def issueTokens_def logAudit_def busy_run)

lemma busy_reset_run: "busy_ok 100 (ResetPassword (exL c0) (interleaved (ex_auth c0)) ex_reset)"
  unfolding busy_ok_def by (simp add: ResetPassword_def require_input_def logAudit_def revokeAllSessions_def busy_run)

lemma busy_register_run: "busy_ok 99 (Register (exL c0) (interleaved (ex_auth c0)) ex_register [] [])"
proof -
  obtain l where l: "ActionLink ex_url ''https://app/verify'' (ex_random 105) = Inr l" using ex_link by blast
  then show ?thesis unfolding busy_ok_def
    by (simp add: Register_def require_input_def logAudit_def issueOneTime_def consumeEmailQuota_def
        sendActionEmail_def sendTransactional_def row_user_def ex_new_user_def busy_run)
qed

end
