(* ===== verification/Divergences.thy ===== *)
theory Divergences
  imports EdgeTheorems BusySamples
begin

text \<open>
  Where the code does not do what its comments promise, or two parts that are right by themselves
  do not fit together, each shown on the model: two refreshes at the same time, a refresh that
  outlives a logout of all sessions served at the same time, an audit entry the database refuses, a
  production configuration that answers with tokens, a logout that reports success while nothing was
  revoked, or while access tokens stay accepted, a registration whose mail fails, and a server error that skips
  the shutdown (\<open>server_error_skips_shutdown\<close> in \<open>App\<close>).
\<close>

subsection \<open>Two refreshes at the same time\<close>

text \<open>
  \<open>Refresh\<close> looks the token up and revokes it in two statements. A second refresh with the same token
  that is served between the two succeeds, and so does the first: its revocation finds nothing to do
  and reports no error. Both new tokens are live.
\<close>

definition race_libs :: libs where
  "race_libs = (exL (ex_claims 3 105))\<lparr>lib_J := (ex_jwt ex_key (ex_claims 3 105))\<lparr>SignedString := \<lambda>_ _ _. Inr ''token''\<rparr>\<rparr>"

lemma race_libs_simps [simp]:
  "lib_U race_libs = latin1" "lib_C race_libs = ex_crypto" "lib_V race_libs = ex_uuid"
  "SignedString (lib_J race_libs) alg key c = Inr ''token''"
  by (simp_all add: race_libs_def)

lemma ex_random_hashes:
  assumes "n mod 256 div 16 \<noteq> m mod 256 div 16"
  shows "token_Hash ex_crypto (ex_random n) \<noteq> token_Hash ex_crypto (ex_random m)"
proof -
  have "n mod 256 div 16 < 16" "m mod 256 div 16 < 16" by simp_all
  then have "hd (sha256_Sum ex_crypto (ex_random n)) \<noteq> hd (sha256_Sum ex_crypto (ex_random m))"
    using assms by (simp add: hd_hash hd_ex_random hex_digit_inj)
  then show ?thesis by (auto simp: token_Hash_eq)
qed

lemma insert_audit_others [simp]:
  "tb_users (snd (insert_audit P e now nid d)) = tb_users d" "tb_user_roles (snd (insert_audit P e now nid d)) = tb_user_roles d"
  "tb_roles (snd (insert_audit P e now nid d)) = tb_roles d" "tb_permissions (snd (insert_audit P e now nid d)) = tb_permissions d"
  "tb_role_permissions (snd (insert_audit P e now nid d)) = tb_role_permissions d"
  "tb_refresh (snd (insert_audit P e now nid d)) = tb_refresh d"
  by (simp_all add: insert_audit_def Let_def)

lemma concurrent_refreshes_both_succeed:
  fixes L defines "L \<equiv> race_libs"
  defines "s \<equiv> app_auth L ex_pg ex_client ex_dto ex_config"
  defines "second_refresh \<equiv> run_state (Refresh L s ex_token [] [])"
  shows "\<exists>w1 a b W. w1 = snd (run_state (RefreshRepo_GetByHash (token_Hash ex_crypto ex_token)) (ex_world 100 ex_tables)) \<and>
    run_state (Refresh L (interleaved s) ex_token [] []) (outside (ex_world 100 ex_tables) [id, \<lambda>w. snd (second_refresh w)])
      = (Inr a, W) \<and>
    fst (second_refresh w1) = Inr b \<and> RefreshToken a \<noteq> RefreshToken b \<and>
    (\<forall>p \<in> {a, b}. \<exists>r \<in> set (tb_refresh (w_pg (inside W))). t_hash r = token_Hash ex_crypto (RefreshToken p) \<and> t_revoked r = None)"
proof -
  have "token_Hash ex_crypto (ex_random 107) \<noteq> token_Hash ex_crypto (ex_random 117)" by (rule ex_random_hashes) simp
  moreover from this have "ex_random 107 \<noteq> ex_random 117" by auto
  ultimately show ?thesis unfolding L_def s_def second_refresh_def
    by (auto simp: Refresh_def issueTokens_def logAudit_def run_at_once ex_run)
qed

subsection \<open>A refresh that outlives a logout of all sessions\<close>

text \<open>
  \<open>Refresh\<close> looks the token up, revokes it and stores the next one in three statements. When all
  tokens of the user are revoked after the lookup, the revocation finds nothing to do, and the new
  token is stored live: the session goes on after \<open>LogoutAll\<close> reported success.
\<close>

lemma refresh_escapes_logout_all:
  fixes L defines "L \<equiv> race_libs"
  defines "s \<equiv> app_auth L ex_pg ex_client ex_dto ex_config"
  defines "logout_all \<equiv> run_state (LogoutAll L s 1)"
  shows "\<exists>pair W r. run_state (Refresh L (interleaved s) ex_token [] [])
      (outside (ex_world 100 ex_tables) [id, \<lambda>w. snd (logout_all w)]) = (Inr pair, W) \<and>
    r \<in> set (tb_refresh (w_pg (inside W))) \<and> t_user r = 1 \<and> t_revoked r = None \<and>
    t_hash r = token_Hash ex_crypto (RefreshToken pair)"
  unfolding L_def s_def logout_all_def
  by (simp add: Refresh_def issueTokens_def logAudit_def LogoutAll_def revokeAllSessions_def run_at_once ex_run) force

subsection \<open>Audit entries the database refuses\<close>

text \<open>
  Postgres accepts only well-formed UTF-8 as text. A user agent that is cut inside a character is
  not, so the entry is lost, and the operation goes on.
\<close>

lemma split_rune_loses_audit:
  assumes "\<And>s. text_ok P s \<Longrightarrow> valid_utf8 s" "IsPrint (lib_U L) 97" "IsPrint (lib_U L) 233"
  shows "w_pg (snd (run_state (logAudit L (app_auth L' P c M cfg) u a ip long_agent m) w)) = w_pg w"
proof -
  have "\<not> text_ok P (SanitizeLogValue (lib_U L) long_agent 512)"
    using sanitize_splits_rune [OF assms(2,3)] assms(1) by blast
  then show ?thesis
    by (auto simp: logAudit_def AuditRepo_Log_def run_pg_stmt insert_audit_def Let_def split: fate.splits)
qed

subsection \<open>Production without mail\<close>

text \<open>
  A production configuration with email disabled passes validation, and then the answers contain
  the tokens (C40).
\<close>

definition ex_production :: Config where
  "ex_production = ex_config\<lparr>cfg_App := (cfg_App ex_config)\<lparr>app_Environment := ''production''\<rparr>,
     cfg_JWT := (cfg_JWT ex_config)\<lparr>jwt_RefreshCookieSecure := True\<rparr>,
     cfg_Postgres := (cfg_Postgres ex_config)\<lparr>pg_SSLMode := ''require''\<rparr>\<rparr>"

lemma production_may_expose_tokens:
  "Config_Validate ex_url ex_production = Inr () \<and> IsProduction ex_production \<and> ExposeDevTokens ex_production"
proof -
  have p: "EqualFold ''production'' ''production''" by (simp add: EqualFold_def)
  have e: "email_Enabled (cfg_Email ex_production) = False" by (simp add: ex_production_def)
  have "IsProduction ex_production" by (simp add: IsProduction_def ex_production_def p)
  moreover have "ExposeDevTokens ex_production" by (simp add: ExposeDevTokens_def e)
  moreover have "Config_Validate ex_url ex_production = Inr ()"
    by (simp add: Config_Validate_def check_production_def check_email_def validate_ok_iffs IsProduction_def p e
        limits_of_def ex_production_def ex_config_def default_config_def)
  ultimately show ?thesis by blast
qed

subsection \<open>Link bases nobody checks\<close>

text \<open>
  With email off the link bases are not validated, but the link is built all the same: with a base
  that does not parse every registration fails, after it stored the account (see
  \<open>failed_mail_keeps_account\<close>).
\<close>

lemma unchecked_link_base:
  assumes "url_Parse W base = None" "lib_W L = W"
  defines "cfg \<equiv> ex_config\<lparr>cfg_Email := (cfg_Email ex_config)\<lparr>email_VerifyLinkBase := base\<rparr>\<rparr>"
  shows "Config_Validate W cfg = Inr ()"
    "run_state (sendActionEmail L (app_auth L P c M cfg) to raw MailVerify) w = (Inl ErrInvalidURL, w)"
proof -
  have p: "\<not> EqualFold ''development'' ''production''" by code_simp
  show "Config_Validate W cfg = Inr ()"
    by (simp add: cfg_def Config_Validate_def check_production_def check_email_def validate_ok_iffs IsProduction_def p
        limits_of_def ex_config_def default_config_def)
  show "run_state (sendActionEmail L (app_auth L P c M cfg) to raw MailVerify) w = (Inl ErrInvalidURL, w)"
    using assms(1,2) by (simp add: cfg_def sendActionEmail_def ActionLink_def run_simps)
qed

text \<open>\<open>Validate\<close> does not ask for an issuer either: tokens of any issuer pass then (C5).\<close>

lemma issuer_not_required:
  "Config_Validate ex_url (ex_config\<lparr>cfg_JWT := (cfg_JWT ex_config)\<lparr>jwt_Issuer := []\<rparr>\<rparr>) = Inr ()"
proof -
  have p: "\<not> EqualFold ''development'' ''production''" by code_simp
  show ?thesis
    by (simp add: Config_Validate_def check_production_def check_email_def validate_ok_iffs IsProduction_def p
        limits_of_def ex_config_def default_config_def)
qed

subsection \<open>Logouts always succeed\<close>

text \<open>
  The errors of the blacklist and of the revocations are dropped, so the caller is told that the
  sessions are gone when Redis and Postgres are down and nothing changed.
\<close>

lemma logout_reports_success:
  "fst (run_state (Logout L s uid sid jti exp raw ip ua) w) = Inr ()"
  "fst (run_state (LogoutAll L s uid) w) = Inr ()"
  by (simp_all add: Logout_def LogoutAll_def run_simps Let_def split: prod.splits)

lemma logout_all_without_database:
  assumes "\<And>n. \<exists>m. fate_at (w_env w) n = FailBefore m"
  shows "fst (run_state (LogoutAll L (app_auth L P c M cfg) uid) w) = Inr () \<and>
    tb_refresh (w_pg (snd (run_state (LogoutAll L (app_auth L P c M cfg) uid) w))) = tb_refresh (w_pg w)"
proof -
  obtain m where m: "fate_at (w_env w) (w_ticks w) = FailBefore m" using assms by blast
  have "w_pg (snd (run_state (revokeAllSessions (app_auth L P c M cfg) uid) w)) = w_pg w"
    unfolding revokeAllSessions_pg RefreshRepo_RevokeAllForUser_def
    using m by (simp add: run_pg_stmt Let_def split: prod.splits)
  then show ?thesis by (simp add: LogoutAll_def run_ignoring run_ok)
qed

text \<open>
  Also when everything works, a logout of all sessions does not reach the access tokens that are
  out: nothing reads the sessions it deletes, and only \<open>Logout\<close> writes to the blacklist.
\<close>

lemma logout_all_keeps_access_tokens:
  fixes c0 defines "c0 \<equiv> ex_claims 3 105"
  shows "\<exists>w1 claims w2. run_state (LogoutAll (exL c0) (mem_auth c0) 1) (mem_world 100 ex_tables no_keys) = (Inr (), w1) \<and>
    run_state (ParseAccess (exL c0) (mem_auth c0) ''token'') w1 = (Inr claims, w2) \<and>
    claim_UserID claims = uuid_String ex_uuid 1"
proof -
  have "run_state (SessionStore_DeleteAllForUser mem_client V 1) (mem_world n d no_keys) = (Inr (), mem_world (Suc n) d no_keys)"
    for V n d
    by (simp add: SessionStore_DeleteAllForUser_def Let_def mem_ops ks_smembers_def ks_live_def no_keys_def ks_entry_def)
  then obtain n d where out: "run_state (LogoutAll (exL c0) (mem_auth c0) 1) (mem_world 100 ex_tables no_keys) = (Inr (), mem_world n d no_keys)"
    by (simp add: LogoutAll_def mem_auth_def revokeAllSessions_def logAudit_def run_ignoring run_ok mem_audit
        RefreshRepo_RevokeAllForUser_def run_pg_stmt_healthy revoke_where_def)
  moreover have "\<exists>w2. run_state (ParseAccess (exL c0) (mem_auth c0) ''token'') (mem_world n d no_keys) = (Inr c0, w2)"
    by (simp add: c0_def mem_auth_def ParseAccess_def jwt_ParseAccess_def mem_ops Blacklist_exists_def ks_exists_def
        ks_live_def no_keys_def ks_entry_def keyfunc_def ex_jwt_def ex_claims_def access_claims_def jwt_NewService_def
        ex_config_def default_config_def minute_def ex_key_def NumericDate_def)
  moreover have "claim_UserID c0 = uuid_String ex_uuid 1" by (simp add: c0_def ex_claims_def access_claims_def)
  ultimately show ?thesis by blast
qed
subsection \<open>A registration whose mail fails\<close>

text \<open>
  The account is stored before the mail is sent and stays when sending fails, so the client gets an
  error, and the repetition is refused with a conflict.
\<close>

lemma failed_mail_keeps_account:
  fixes L P c M cfg
  defines "s \<equiv> app_auth L P c M cfg"
  assumes "requireInput (lib_T L) (lib_U L) (register_fields i) = Inr ()"
    and "run_state (consumeEmailQuota L s (normEmail L (reg_Email i))) w = (Inr (), w1)"
    and "run_state (password_Hash (lib_C L) (reg_Password i) (sec_BcryptCost (cfg_Security cfg))) w1 = (Inr hash, w2)"
    and "run_state (UserRepo_CreateWithRole P (normEmail L (reg_Email i)) hash defaultRole) w2 = (Inr user, w3)"
    and "run_state (issueOneTime L (OneTimeRepo EmailVerifications) (user_ID user) (24 * hour)) w3 = (Inr raw, w4)"
    and "run_state (sendActionEmail L s (normEmail L (reg_Email i)) raw MailVerify) w4 = (Inl e, w5)"
  shows "run_state (Register L s i ip ua) w = (Inl e, w5) \<and>
    (\<exists>row \<in> set (tb_users (w_pg w5)). new_user_row P (normEmail L (reg_Email i)) hash row)"
proof -
  have "run_state (Register L s i ip ua) w = (Inl e, w5)"
    using assms(2-) by (simp add: s_def Register_def require_input_def run_simps Let_def)
  moreover obtain row where "new_user_row P (normEmail L (reg_Email i)) hash row" "row \<in> set (tb_users (w_pg w3))"
    using CreateWithRole_cases [OF assms(5)] by (auto elim: both_insertsD)
  moreover obtain vrow where "w_pg w4 = set_onetime_rows EmailVerifications (onetime_rows EmailVerifications (w_pg w3) @ [vrow]) (w_pg w3)"
    by (rule issueOneTime_Inr [OF assms(6)])
  ultimately show ?thesis using mail_pg [OF assms(7) [unfolded s_def]] by auto
qed

lemma registered_email_conflicts:
  assumes "healthy w" "u \<in> set (tb_users (w_pg w))" "new_user_row P email hash u"
    and "text_ok P email" "varchar 255 (u_email u)" "varchar 255 hash'"
  shows "fst (run_state (UserRepo_CreateWithRole P email hash' role) w) = Inl ErrConflict"
proof -
  have "sql_LOWER P (sql_LOWER P email) \<in> (\<lambda>u. sql_LOWER P (u_email u)) ` set (live_users (w_pg w))"
    using assms(2,3) by (intro image_eqI [of _ _ u]) (auto simp: new_user_row_def live_users_def)
  moreover have "varchar 255 (sql_LOWER P email)" using assms(3,5) by (simp add: new_user_row_def)
  ultimately have "insert_user P email hash' now nid (w_pg w) = (Inl unique_violation, w_pg w)" for now nid
    using assms(4,6) by (simp add: insert_user_def Let_def)
  then show ?thesis using assms(1)
    by (simp add: UserRepo_CreateWithRole_def pg_begin_def run_pg_query_healthy run_simps tx_stmt_def
        healthy_def isUniqueViolation_def unique_violation_def)
qed

end
