(* ===== verification/RefreshSpec.thy ===== *)
theory RefreshSpec
  imports Guarantees
begin

text \<open>
  An abstract specification of the refresh tokens, and the refinement. Abstractly there is a map
  from digests to grants: who the token is for, which session and family it belongs to, until when
  it runs and whether it is dead. \<open>grants\<close> reads the map off the table; on tables that satisfy the
  schema every statement of the repository, and the operations of the service built from them, are
  the abstract operations on that map.
\<close>

record grant =
  g_user :: uuid
  g_session :: uuid
  g_family :: uuid
  g_expires :: time
  g_dead :: bool

type_synonym grants = "string \<Rightarrow> grant option"

definition grant_of :: "refresh_row \<Rightarrow> grant" where
  "grant_of r = \<lparr>g_user = t_user r, g_session = t_session r, g_family = t_family r,
     g_expires = t_expires r, g_dead = (t_revoked r \<noteq> None)\<rparr>"

definition grants :: "tables \<Rightarrow> grants" where
  "grants d = map_of (map (\<lambda>r. (t_hash r, grant_of r)) (tb_refresh d))"

subsection \<open>Abstract operations\<close>

definition spec_save :: "RefreshRecord \<Rightarrow> grants \<Rightarrow> grants" where
  "spec_save rec G = G(rec_TokenHash rec \<mapsto> \<lparr>g_user = rec_UserID rec, g_session = rec_SessionID rec,
     g_family = rec_FamilyID rec, g_expires = rec_ExpiresAt rec, g_dead = False\<rparr>)"

definition spec_revoke :: "(string \<Rightarrow> grant \<Rightarrow> bool) \<Rightarrow> grants \<Rightarrow> grants" where
  "spec_revoke p G = (\<lambda>h. case G h of None \<Rightarrow> None | Some g \<Rightarrow> Some (if p h g then g\<lparr>g_dead := True\<rparr> else g))"

definition spec_live :: "time \<Rightarrow> string \<Rightarrow> grants \<Rightarrow> grant option" where
  "spec_live now h G = (case G h of None \<Rightarrow> None | Some g \<Rightarrow> if \<not> g_dead g \<and> now < g_expires g then Some g else None)"

subsection \<open>The statements refine them\<close>

lemma grants_row:
  assumes "schema_ok P d" "r \<in> set (tb_refresh d)"
  shows "grants d (t_hash r) = Some (grant_of r)"
proof -
  have "distinct (map fst (map (\<lambda>r. (t_hash r, grant_of r)) (tb_refresh d)))"
    using assms(1) by (simp add: schema_ok_def o_def)
  then show ?thesis unfolding grants_def by (rule map_of_is_SomeI) (use assms(2) in auto)
qed

lemma grants_Some: "grants d h = Some g \<Longrightarrow> \<exists>r \<in> set (tb_refresh d). t_hash r = h \<and> g = grant_of r"
  unfolding grants_def by (auto dest!: map_of_SomeD)

lemma grants_None: "grants d h = None \<longleftrightarrow> h \<notin> t_hash ` set (tb_refresh d)"
  unfolding grants_def by (auto simp: map_of_eq_None_iff image_iff)

lemma map_of_append_new: "k \<notin> fst ` set xs \<Longrightarrow> map_of (xs @ [(k, v)]) = (map_of xs)(k \<mapsto> v)"
  by (induction xs) (auto simp: fun_eq_iff)

lemma insert_refines:
  assumes "insert_refresh rec now nid d = (Inr x, d')"
  shows "grants d' = spec_save rec (grants d)"
proof -
  obtain row where row: "tb_refresh d' = tb_refresh d @ [row]" "t_hash row = rec_TokenHash rec"
    "grant_of row = \<lparr>g_user = rec_UserID rec, g_session = rec_SessionID rec, g_family = rec_FamilyID rec,
       g_expires = rec_ExpiresAt rec, g_dead = False\<rparr>"
    using insert_refresh_ok(1) [OF assms] by (auto simp: grant_of_def)
  have "rec_TokenHash rec \<notin> fst ` set (map (\<lambda>r. (t_hash r, grant_of r)) (tb_refresh d))"
    using insert_refresh_ok(2) [OF assms] by auto
  from map_of_append_new [OF this] row show ?thesis by (simp add: grants_def spec_save_def)
qed

lemma map_of_image:
  "map_of (map (\<lambda>r. (k r, f r)) (map g xs)) h = map_option (\<lambda>_. v) (map_of (map (\<lambda>r. (k r, f r)) xs) h)"
  if "\<And>r. k (g r) = k r" "\<And>r. r \<in> set xs \<Longrightarrow> k r = h \<Longrightarrow> f (g r) = v"
  using that(2) by (induction xs) (auto simp: that(1))

text \<open>A revocation by digest, by family or by user, as the abstract one with the same selection.\<close>

lemma revoke_refines:
  assumes "schema_ok P d" and sel: "\<And>r. r \<in> set (tb_refresh d) \<Longrightarrow> p r \<longleftrightarrow> q (t_hash r) (grant_of r)"
  shows "grants (snd (revoke_where p now nid d)) = spec_revoke q (grants d)"
proof
  fix h
  let ?f = "\<lambda>r. if p r \<and> t_revoked r = None then r\<lparr>t_revoked := Some now\<rparr> else r"
  show "grants (snd (revoke_where p now nid d)) h = spec_revoke q (grants d) h"
  proof (cases "grants d h")
    case None
    then have "h \<notin> t_hash ` set (tb_refresh (snd (revoke_where p now nid d)))"
      by (auto simp: grants_None revoke_where_tables)
    with None show ?thesis by (simp add: spec_revoke_def grants_None [symmetric])
  next
    case (Some g)
    then obtain r where r: "r \<in> set (tb_refresh d)" "t_hash r = h" "g = grant_of r"
      by (blast dest: grants_Some)
    have uniq: "r' = r" if "r' \<in> set (tb_refresh d)" "t_hash r' = h" for r'
      using that r assms(1) by (auto simp: schema_ok_def dest: distinct_map_inj)
    have "grants (snd (revoke_where p now nid d)) h = Some (grant_of (?f r))"
      using map_of_image [of t_hash ?f "tb_refresh d" h grant_of "grant_of (?f r)"] uniq Some
      by (auto simp: grants_def revoke_where_tables)
    with Some r sel [OF r(1)] show ?thesis by (auto simp: spec_revoke_def grant_of_def)
  qed
qed

lemma lookup_refines:
  assumes "schema_ok P (w_pg w)" "run_state (RefreshRepo_GetByHash h) w = (Inr rec, w')"
  shows "spec_live (w_clock (advance w)) h (grants (w_pg w)) = Some \<lparr>g_user = rec_UserID rec,
    g_session = rec_SessionID rec, g_family = rec_FamilyID rec, g_expires = rec_ExpiresAt rec, g_dead = False\<rparr>"
proof -
  from GetByHash_Inr(2) [OF assms(2)] obtain r where
    r: "r \<in> set (tb_refresh (w_pg w))" "live_at (w_clock (advance w)) h r" "rec = row_record r" by blast
  then have "grants (w_pg w) h = Some (grant_of r)" using grants_row [OF assms(1) r(1)] by (simp add: live_at_def)
  with r show ?thesis by (simp add: spec_live_def grant_of_def live_at_def row_record_def)
qed

subsection \<open>The operations of the service refine them\<close>

lemma Refresh_refines:
  assumes "schema_ok P (w_pg w)" "run_state (Refresh L (app_auth L P c M cfg) raw ip ua) w = (Inr pair, w')"
  shows "\<exists>g now. spec_live (w_clock (advance w)) (token_Hash (lib_C L) raw) (grants (w_pg w)) = Some g \<and>
    grants (w_pg w') = (spec_revoke (\<lambda>h _. h = token_Hash (lib_C L) raw) (grants (w_pg w)))
      (token_Hash (lib_C L) (RefreshToken pair) \<mapsto> g\<lparr>g_expires := now + jwt_RefreshTTL (cfg_JWT cfg)\<rparr>) \<and>
    w_clock w \<le> now \<and> now \<le> w_clock w'"
proof -
  let ?h = "token_Hash (lib_C L) raw"
  obtain rec w1 w2 w3 where 1: "run_state (RefreshRepo_GetByHash ?h) w = (Inr rec, w1)"
    and 2: "run_state (RefreshRepo_Revoke ?h) w1 = (Inr (), w2)"
    and 3: "run_state (issueTokens L (app_auth L P c M cfg) (rec_UserID rec) (rec_SessionID rec) (rec_FamilyID rec)) w2
       = (Inr pair, w3)"
    and 4: "w' = snd (run_state (logAudit L (app_auth L P c M cfg) (Some (rec_UserID rec)) ''auth.refresh'' ip ua None) w3)"
    by (rule Refresh_Inr [OF assms(2)])
  note g = lookup_refines [OF assms(1) 1]
  note w2 = Revoke_Inr [OF 2]
  have w1: "w1 = advance w" using GetByHash_Inr(1) [OF 1] .
  have s: "schema_ok P (w_pg w1)" using assms(1) w1 by simp
  have rev: "grants (w_pg w2) = spec_revoke (\<lambda>h _. h = ?h) (grants (w_pg w))"
    unfolding w2 using revoke_refines [OF s, of "\<lambda>r. t_hash r = ?h" "\<lambda>h _. h = ?h"] w1 by simp
  obtain row now tsave where row: "w_pg w3 = (w_pg w2)\<lparr>tb_refresh := tb_refresh (w_pg w2) @ [row]\<rparr>"
    "new_refresh_row L pair (rec_UserID rec) (rec_SessionID rec) (rec_FamilyID rec) row"
    "token_Hash (lib_C L) (RefreshToken pair) \<notin> t_hash ` set (tb_refresh (w_pg w2))"
    "t_expires row = tsave + jwt_RefreshTTL (cfg_JWT cfg)" "w_clock w2 \<le> now" "now \<le> tsave" "tsave \<le> w_clock w3"
    by (rule issueTokens_Inr [OF 3])
  have "token_Hash (lib_C L) (RefreshToken pair) \<notin> fst ` set (map (\<lambda>r. (t_hash r, grant_of r)) (tb_refresh (w_pg w2)))"
    using row(3) by auto
  from map_of_append_new [OF this, of "grant_of row"] row(1,2)
  have "grants (w_pg w3) = (grants (w_pg w2))(token_Hash (lib_C L) (RefreshToken pair) \<mapsto> grant_of row)"
    by (simp add: grants_def new_refresh_row_def)
  moreover have "grants (w_pg w') = grants (w_pg w3)" using 4 by (simp add: grants_def)
  moreover have "later w3 w'" unfolding 4 by (rule effect_snd [OF wired_helpers_later(1)])
  then have "w_clock w3 \<le> w_clock w'" by (simp add: later_def)
  moreover have "w_clock w \<le> w_clock w2" using w1 w2 by simp
  ultimately show ?thesis using g rev row(2,4-7)
    by (intro exI [of _ "\<lparr>g_user = rec_UserID rec, g_session = rec_SessionID rec, g_family = rec_FamilyID rec,
        g_expires = rec_ExpiresAt rec, g_dead = False\<rparr>"] exI [of _ tsave])
      (simp add: grant_of_def new_refresh_row_def)
qed

lemma LogoutAll_refines:
  assumes "healthy w" "schema_ok P (w_pg w)" "run_state (LogoutAll L (app_auth L P c M cfg) uid) w = (r, w')"
  shows "grants (w_pg w') = spec_revoke (\<lambda>_ g. g_user g = uid) (grants (w_pg w))"
proof -
  let ?s = "app_auth L P c M cfg"
  have w': "w' = snd (run_state (logAudit L ?s (Some uid) ''auth.logout_all'' [] [] None)
      (snd (run_state (revokeAllSessions ?s uid) w)))"
    using assms(3) by (auto simp: LogoutAll_def run_ignoring run_ok)
  have "grants (w_pg w') = grants (snd (revoke_where (\<lambda>r. t_user r = uid) (w_clock (advance w))
      (uuid_at (w_env w) (w_ticks w)) (w_pg w)))"
    unfolding w' grants_def by (simp add: revokeAllSessions_pg RevokeAll_healthy [OF assms(1)])
  also have "\<dots> = spec_revoke (\<lambda>_ g. g_user g = uid) (grants (w_pg w))"
    by (rule revoke_refines [OF assms(2)]) (simp add: grant_of_def)
  finally show ?thesis .
qed

text \<open>
  Whether the statement got through or not, the logout reports success: the grants are those of the
  specification, or untouched, and then the statement had failed.
\<close>

lemma LogoutAll_grants:
  assumes "schema_ok P (w_pg w)" "run_state (LogoutAll L (app_auth L P c M cfg) uid) w = (r, w')"
  shows "r = Inr () \<and>
    (grants (w_pg w') = spec_revoke (\<lambda>_ g. g_user g = uid) (grants (w_pg w)) \<or>
     (\<exists>e. fst (run_state (RefreshRepo_RevokeAllForUser uid) w) = Inl e) \<and> grants (w_pg w') = grants (w_pg w))"
proof -
  let ?s = "app_auth L P c M cfg" and ?m = "RefreshRepo_RevokeAllForUser uid"
  let ?d = "snd (revoke_where (\<lambda>r. t_user r = uid) (w_clock (advance w)) (uuid_at (w_env w) (w_ticks w)) (w_pg w))"
  have r: "r = Inr ()" and "w' = snd (run_state (logAudit L ?s (Some uid) ''auth.logout_all'' [] [] None)
      (snd (run_state (revokeAllSessions ?s uid) w)))"
    using assms(2) by (auto simp: LogoutAll_def run_ignoring run_ok)
  then have g: "grants (w_pg w') = grants (w_pg (snd (run_state ?m w)))"
    unfolding grants_def by (simp add: revokeAllSessions_pg)
  have d: "grants ?d = spec_revoke (\<lambda>_ g. g_user g = uid) (grants (w_pg w))"
    by (rule revoke_refines [OF assms(1)]) (simp add: grant_of_def)
  have ran: "w_pg (snd (run_state ?m w)) = ?d" if "fst (run_state ?m w) = Inr x" for x
    using that unfolding RefreshRepo_RevokeAllForUser_def
    by (auto simp: run_pg_stmt Let_def split: prod.splits fate.splits)
  show ?thesis
  proof (cases "fst (run_state ?m w)")
    case (Inr x)
    with r g d ran show ?thesis by simp
  next
    case (Inl e)
    with r g d RevokeAll_tables [of uid w] show ?thesis by auto
  qed
qed

lemma Refresh_reuse_refines:
  assumes "healthy w" "schema_ok P (w_pg w)" "raw \<noteq> []"
    and "grants (w_pg w) (token_Hash (lib_C L) raw) = Some g" "g_dead g"
    and run: "run_state (Refresh L (app_auth L P c M cfg) raw ip ua) w = (res, w')"
  shows "res = Inl ErrUnauthorized \<and> grants (w_pg w') = spec_revoke (\<lambda>_ g'. g_family g' = g_family g) (grants (w_pg w))"
proof -
  from grants_Some [OF assms(4)] obtain r where r: "r \<in> set (tb_refresh (w_pg w))"
    "t_hash r = token_Hash (lib_C L) raw" "g = grant_of r" by blast
  with assms(5) have "t_revoked r \<noteq> None" by (simp add: grant_of_def)
  note reuse = Refresh_reuse_tables [OF assms(1-3) r(1,2) this run]
  from reuse(2) have "grants (w_pg w') = spec_revoke (\<lambda>_ g'. g_family g' = g_family g) (grants (w_pg w))"
    using revoke_refines [OF assms(2), of "\<lambda>x. t_family x = t_family r" "\<lambda>_ g'. g_family g' = g_family g"] r(3)
    by (simp add: grant_of_def)
  with reuse(1) show ?thesis by simp
qed

end
