(* ===== verification/Telemetry.thy ===== *)
theory Telemetry
  imports Config Stack
begin

text \<open>
  \<open>pkg/logger/logger.go\<close> and \<open>internal/infrastructure/telemetry/tracing.go\<close>: the settings the
  logger is built from, and the steps of \<open>InitTracing\<close>. zap and OpenTelemetry are
  parameters: how a level is read, and what the constructors return. What a step does to the
  process is a list of events: resources opened and closed, log lines, the propagator installed.
  A resource counts as opened from the call that creates it.
\<close>

datatype resource = Exporter | Tracing | Postgres | Redis
datatype event = Opened resource | Closed resource | Logged string "(string \<times> field) list"
  | Propagator "string list" | Served | Stopped

subsection \<open>Logger\<close>

record 'l logger_config =
  log_Level :: 'l
  log_Encoding :: string
  log_TimeKey :: string
  log_MessageKey :: string
  log_LevelKey :: string
  log_CallerKey :: string
  log_Fields :: "(string \<times> string) list"

text \<open>\<open>parse\<close> is \<open>Level.UnmarshalText\<close>, \<open>info\<close> is \<open>InfoLevel\<close>, \<open>build\<close> is \<open>Config.Build\<close>.\<close>

definition logger_New ::
    "unicode \<Rightarrow> (string \<Rightarrow> 'l option) \<Rightarrow> 'l \<Rightarrow> ('l logger_config \<Rightarrow> err option) \<Rightarrow> string \<Rightarrow> string \<Rightarrow> string \<Rightarrow> err option"
  where
  "logger_New U parse info build level service_name environment =
     build \<lparr>log_Level = (case parse (ToLower U level) of None \<Rightarrow> info | Some l \<Rightarrow> l),
       log_Encoding = ''json'', log_TimeKey = ''timestamp'', log_MessageKey = ''message'',
       log_LevelKey = ''level'', log_CallerKey = ''caller'',
       log_Fields = [(''service'', service_name), (''environment'', environment)]\<rparr>"

subsection \<open>Tracing\<close>

datatype otlp_option = WithEndpoint string | WithInsecure

record otel_resource =
  res_SchemaURL :: string
  res_Attributes :: "(string \<times> string) list"

text \<open>
  \<open>otlp_New\<close>: the exporter's constructor; \<open>otel_Default\<close> and \<open>otel_Merge\<close>: \<open>resource.Default\<close> and
  \<open>resource.Merge\<close>; \<open>otel_Shutdown\<close>: \<open>Shutdown\<close> of the tracer provider, which also shuts the
  exporter down.
\<close>

record otel_lib =
  otlp_New :: "otlp_option list \<Rightarrow> err option"
  otel_Default :: otel_resource
  otel_Merge :: "otel_resource \<Rightarrow> otel_resource \<Rightarrow> err + otel_resource"
  otel_Shutdown :: "err option"

text \<open>The shutdown function \<open>InitTracing\<close> returns: \<open>noopShutdown\<close>, or the method of a provider.\<close>

datatype shutdown = NoopShutdown | ProviderShutdown otel_resource

definition setPropagator :: event where
  "setPropagator = Propagator [''tracecontext'', ''baggage'']"

definition semconv_SchemaURL :: string where
  "semconv_SchemaURL = ''https://opentelemetry.io/schemas/1.26.0''"

definition InitTracing ::
    "'z otel_lib_scheme \<Rightarrow> TelemetryConfig \<Rightarrow> string \<Rightarrow> string \<Rightarrow> (err + shutdown) \<times> event list" where
  "InitTracing T cfg serviceName version =
     (if \<not> tel_TracingEnabled cfg \<or> tel_OTLPEndpoint cfg = [] then (Inr NoopShutdown, [setPropagator])
      else
        (let opts = WithEndpoint (tel_OTLPEndpoint cfg) # (if tel_OTLPInsecure cfg then [WithInsecure] else [])
         in case otlp_New T opts of
              Some e \<Rightarrow> (Inl (Wrapped ''create otlp exporter'' e), [setPropagator])
            | None \<Rightarrow>
                (case otel_Merge T (otel_Default T) \<lparr>res_SchemaURL = semconv_SchemaURL,
                        res_Attributes = [(''service.name'', serviceName), (''service.version'', version)]\<rparr> of
                   Inl e \<Rightarrow> (Inl (Wrapped ''create otel resource'' e), [setPropagator, Opened Exporter])
                 | Inr res \<Rightarrow> (Inr (ProviderShutdown res), [setPropagator, Opened Exporter, Opened Tracing]))))"

definition run_shutdown :: "'z otel_lib_scheme \<Rightarrow> shutdown \<Rightarrow> err option \<times> event list" where
  "run_shutdown T s =
     (case s of
        NoopShutdown \<Rightarrow> (None, [])
      | ProviderShutdown _ \<Rightarrow> (otel_Shutdown T, [Closed Tracing, Closed Exporter]))"

text \<open>
  Tracing cannot start when the SDK's own resource names another schema: \<open>resource.Merge\<close> reports
  two different schema URLs as an error.
\<close>

definition merge_spec :: "'z otel_lib_scheme \<Rightarrow> bool" where
  "merge_spec T \<longleftrightarrow> (\<forall>a b. res_SchemaURL a \<noteq> [] \<longrightarrow> res_SchemaURL b \<noteq> [] \<longrightarrow> res_SchemaURL a \<noteq> res_SchemaURL b \<longrightarrow>
     isl (otel_Merge T a b))"

lemma tracing_needs_same_schema:
  assumes "merge_spec T" "res_SchemaURL (otel_Default T) \<noteq> []" "res_SchemaURL (otel_Default T) \<noteq> semconv_SchemaURL"
    and "tel_TracingEnabled cfg" "tel_OTLPEndpoint cfg \<noteq> []"
  shows "\<exists>e. fst (InitTracing T cfg name version) = Inl e"
proof -
  have "semconv_SchemaURL \<noteq> []" by (simp add: semconv_SchemaURL_def)
  with assms(1-3) have "isl (otel_Merge T (otel_Default T) \<lparr>res_SchemaURL = semconv_SchemaURL, res_Attributes = as\<rparr>)" for as
    by (simp add: merge_spec_def)
  then obtain f where "\<And>as. otel_Merge T (otel_Default T) \<lparr>res_SchemaURL = semconv_SchemaURL, res_Attributes = as\<rparr> = Inl (f as)"
    unfolding isl_def by metis
  with assms(4,5) show ?thesis by (simp add: InitTracing_def Let_def split: option.split)
qed

end
