(* ===== verification/Settings.thy ===== *)
theory Settings
  imports Config
begin

text \<open>
  \<open>Load\<close> of \<open>internal/config/config.go\<close>: what it asks of viper (names, prefix, defaults, bound
  variables), the \<open>mapstructure\<close> tags by which a value reaches its field, and the check at the
  end. godotenv, viper and mapstructure are the parameter \<open>viper_lib\<close>; \<open>viper_spec\<close> states
  their documented behaviour, and a viper over association lists satisfies it. A file and the
  defaults are flattened: a key is the path of a setting, with dots.
\<close>

datatype cfg_value = VStr string | VInt int | VBool bool | VStrs "string list"

type_synonym environ = "string \<Rightarrow> string option"

subsection \<open>The viper instance and its library\<close>

text \<open>What \<open>Load\<close> told the instance \<open>v\<close>.\<close>

record viper =
  vp_ConfigName :: string
  vp_ConfigType :: string
  vp_ConfigPaths :: "string list"
  vp_EnvPrefix :: string
  vp_KeyReplacer :: "char \<times> char"
  vp_AutomaticEnv :: bool
  vp_Defaults :: "(string \<times> cfg_value) list"
  vp_BoundEnv :: "string list"
  vp_Config :: "(string \<times> cfg_value) list"

text \<open>
  \<open>godotenv_Load\<close>: the environment after \<open>.env\<close> was read; \<open>viper_ReadInConfig\<close>: the settings of the
  file, none when it cannot be read; \<open>viper_Get\<close>: the value \<open>Unmarshal\<close> finds for a key;
  \<open>as_\<close>: mapstructure's conversions to the type of a field.
\<close>

record viper_lib =
  godotenv_Load :: "environ \<Rightarrow> environ"
  viper_ReadInConfig :: "viper \<Rightarrow> (string \<times> cfg_value) list"
  viper_Get :: "environ \<Rightarrow> viper \<Rightarrow> string \<Rightarrow> cfg_value option"
  as_string :: "cfg_value \<Rightarrow> string option"
  as_int :: "cfg_value \<Rightarrow> int option"
  as_int32 :: "cfg_value \<Rightarrow> int option"
  as_bool :: "cfg_value \<Rightarrow> bool option"
  as_duration :: "cfg_value \<Rightarrow> duration option"
  as_strings :: "cfg_value \<Rightarrow> string list option"
  unmarshal_error :: err

subsection \<open>Defaults and bound variables\<close>

definition setDefaults :: "(string \<times> cfg_value) list" where
  "setDefaults = [
     (''app.name'', VStr ''auth-service''), (''app.environment'', VStr ''development''), (''app.version'', VStr ''0.1.0''),
     (''http.host'', VStr ''0.0.0.0''), (''http.port'', VInt 8080),
     (''http.read_timeout'', VStr ''15s''), (''http.write_timeout'', VStr ''15s''), (''http.idle_timeout'', VStr ''60s''),
     (''http.shutdown_timeout'', VStr ''10s''), (''http.allowed_origins'', VStrs [''http://localhost:3000'']),
     (''http.max_header_bytes'', VInt 1048576), (''http.trust_proxy'', VBool False),
     (''postgres.host'', VStr ''localhost''), (''postgres.port'', VInt 5432), (''postgres.user'', VStr ''auth''),
     (''postgres.password'', VStr ''auth''), (''postgres.database'', VStr ''auth''), (''postgres.sslmode'', VStr ''disable''),
     (''postgres.max_open_conns'', VInt 25), (''postgres.max_idle_conns'', VInt 10),
     (''postgres.conn_max_lifetime'', VStr ''30m''), (''postgres.conn_max_idle_time'', VStr ''5m''),
     (''redis.addr'', VStr ''localhost:6379''), (''redis.db'', VInt 0), (''redis.pool_size'', VInt 10),
     (''redis.min_idle_conns'', VInt 2), (''redis.dial_timeout'', VStr ''5s''),
     (''redis.read_timeout'', VStr ''3s''), (''redis.write_timeout'', VStr ''3s''),
     (''jwt.access_ttl'', VStr ''15m''), (''jwt.refresh_ttl'', VStr ''168h''), (''jwt.issuer'', VStr ''auth-service''),
     (''jwt.refresh_cookie_name'', VStr ''refresh_token''), (''jwt.refresh_cookie_secure'', VBool False),
     (''jwt.refresh_cookie_domain'', VStr []), (''jwt.refresh_cookie_path'', VStr ''/''),
     (''jwt.refresh_cookie_samesite'', VStr ''Strict''),
     (''email.enabled'', VBool False), (''email.from'', VStr []),
     (''email.verify_link_base'', VStr ''http://localhost:3000/verify-email''),
     (''email.reset_link_base'', VStr ''http://localhost:3000/reset-password''),
     (''email.per_recipient_limit'', VInt 5), (''email.per_recipient_window'', VStr ''1h''),
     (''security.bcrypt_cost'', VInt 12),
     (''security.rate_limit_rpm'', VInt 120), (''security.login_rate_limit_rpm'', VInt 10),
     (''security.register_rate_limit_rpm'', VInt 30), (''security.refresh_rate_limit_rpm'', VInt 20),
     (''security.sensitive_rate_limit_rpm'', VInt 5),
     (''security.login_max_attempts'', VInt 5), (''security.login_lockout_duration'', VStr ''15m''),
     (''telemetry.log_level'', VStr ''info''), (''telemetry.tracing_enabled'', VBool False),
     (''telemetry.otlp_insecure'', VBool True), (''telemetry.metrics_enabled'', VBool True)]"

definition extra_keys :: "string list" where
  "extra_keys = [''jwt.access_secret'', ''jwt.refresh_secret'', ''email.api_key'']"

definition the_viper :: "viper_lib \<Rightarrow> viper" where
  "the_viper X =
     (let v = \<lparr>vp_ConfigName = ''config'', vp_ConfigType = ''yaml'', vp_ConfigPaths = [''.'', ''./config''],
            vp_EnvPrefix = [], vp_KeyReplacer = (CHR ''.'', CHR ''.''), vp_AutomaticEnv = False,
            vp_Defaults = [], vp_BoundEnv = [], vp_Config = []\<rparr>;
          v = v\<lparr>vp_Config := viper_ReadInConfig X v\<rparr>
      in v\<lparr>vp_EnvPrefix := ''AUTH'', vp_KeyReplacer := (CHR ''.'', CHR ''_''), vp_AutomaticEnv := True,
           vp_Defaults := setDefaults, vp_BoundEnv := map fst setDefaults @ extra_keys\<rparr>)"

subsection \<open>Unmarshal\<close>

text \<open>A key without a value leaves the zero value in its field.\<close>

definition setting :: "(string \<Rightarrow> cfg_value option) \<Rightarrow> (cfg_value \<Rightarrow> 'a option) \<Rightarrow> 'a \<Rightarrow> string \<Rightarrow> 'a option" where
  "setting g dec zero key = (case g key of None \<Rightarrow> Some zero | Some x \<Rightarrow> dec x)"

definition unmarshal_App :: "viper_lib \<Rightarrow> (string \<Rightarrow> cfg_value option) \<Rightarrow> AppConfig option" where
  "unmarshal_App X g = do {
     n \<leftarrow> setting g (as_string X) [] ''app.name'';
     e \<leftarrow> setting g (as_string X) [] ''app.environment'';
     v \<leftarrow> setting g (as_string X) [] ''app.version'';
     Some \<lparr>app_Name = n, app_Environment = e, app_Version = v\<rparr> }"

definition unmarshal_HTTP :: "viper_lib \<Rightarrow> (string \<Rightarrow> cfg_value option) \<Rightarrow> HTTPConfig option" where
  "unmarshal_HTTP X g = do {
     host \<leftarrow> setting g (as_string X) [] ''http.host'';
     port \<leftarrow> setting g (as_int X) 0 ''http.port'';
     rt \<leftarrow> setting g (as_duration X) 0 ''http.read_timeout'';
     wt \<leftarrow> setting g (as_duration X) 0 ''http.write_timeout'';
     it \<leftarrow> setting g (as_duration X) 0 ''http.idle_timeout'';
     st \<leftarrow> setting g (as_duration X) 0 ''http.shutdown_timeout'';
     os \<leftarrow> setting g (as_strings X) [] ''http.allowed_origins'';
     mh \<leftarrow> setting g (as_int X) 0 ''http.max_header_bytes'';
     mt \<leftarrow> setting g (as_string X) [] ''http.metrics_token'';
     tp \<leftarrow> setting g (as_bool X) False ''http.trust_proxy'';
     Some \<lparr>http_Host = host, http_Port = port, http_ReadTimeout = rt, http_WriteTimeout = wt,
       http_IdleTimeout = it, http_ShutdownTimeout = st, http_AllowedOrigins = os,
       http_MaxHeaderBytes = mh, http_MetricsToken = mt, http_TrustProxy = tp\<rparr> }"

definition unmarshal_Postgres :: "viper_lib \<Rightarrow> (string \<Rightarrow> cfg_value option) \<Rightarrow> PostgresConfig option" where
  "unmarshal_Postgres X g = do {
     host \<leftarrow> setting g (as_string X) [] ''postgres.host'';
     port \<leftarrow> setting g (as_int X) 0 ''postgres.port'';
     user \<leftarrow> setting g (as_string X) [] ''postgres.user'';
     pass \<leftarrow> setting g (as_string X) [] ''postgres.password'';
     db \<leftarrow> setting g (as_string X) [] ''postgres.database'';
     ssl \<leftarrow> setting g (as_string X) [] ''postgres.sslmode'';
     mo \<leftarrow> setting g (as_int32 X) 0 ''postgres.max_open_conns'';
     mi \<leftarrow> setting g (as_int32 X) 0 ''postgres.max_idle_conns'';
     lt \<leftarrow> setting g (as_duration X) 0 ''postgres.conn_max_lifetime'';
     it \<leftarrow> setting g (as_duration X) 0 ''postgres.conn_max_idle_time'';
     Some \<lparr>pg_Host = host, pg_Port = port, pg_User = user, pg_Password = pass, pg_Database = db,
       pg_SSLMode = ssl, pg_MaxOpenConns = mo, pg_MaxIdleConns = mi, pg_ConnMaxLifetime = lt,
       pg_ConnMaxIdleTime = it\<rparr> }"

definition unmarshal_Redis :: "viper_lib \<Rightarrow> (string \<Rightarrow> cfg_value option) \<Rightarrow> RedisConfig option" where
  "unmarshal_Redis X g = do {
     addr \<leftarrow> setting g (as_string X) [] ''redis.addr'';
     pass \<leftarrow> setting g (as_string X) [] ''redis.password'';
     db \<leftarrow> setting g (as_int X) 0 ''redis.db'';
     ps \<leftarrow> setting g (as_int X) 0 ''redis.pool_size'';
     mi \<leftarrow> setting g (as_int X) 0 ''redis.min_idle_conns'';
     dt \<leftarrow> setting g (as_duration X) 0 ''redis.dial_timeout'';
     rt \<leftarrow> setting g (as_duration X) 0 ''redis.read_timeout'';
     wt \<leftarrow> setting g (as_duration X) 0 ''redis.write_timeout'';
     Some \<lparr>redis_Addr = addr, redis_Password = pass, redis_DB = db, redis_PoolSize = ps,
       redis_MinIdleConns = mi, redis_DialTimeout = dt, redis_ReadTimeout = rt, redis_WriteTimeout = wt\<rparr> }"

definition unmarshal_JWT :: "viper_lib \<Rightarrow> (string \<Rightarrow> cfg_value option) \<Rightarrow> JWTConfig option" where
  "unmarshal_JWT X g = do {
     acc \<leftarrow> setting g (as_string X) [] ''jwt.access_secret'';
     ref \<leftarrow> setting g (as_string X) [] ''jwt.refresh_secret'';
     at \<leftarrow> setting g (as_duration X) 0 ''jwt.access_ttl'';
     rt \<leftarrow> setting g (as_duration X) 0 ''jwt.refresh_ttl'';
     iss \<leftarrow> setting g (as_string X) [] ''jwt.issuer'';
     cn \<leftarrow> setting g (as_string X) [] ''jwt.refresh_cookie_name'';
     cs \<leftarrow> setting g (as_bool X) False ''jwt.refresh_cookie_secure'';
     cd \<leftarrow> setting g (as_string X) [] ''jwt.refresh_cookie_domain'';
     cp \<leftarrow> setting g (as_string X) [] ''jwt.refresh_cookie_path'';
     ss \<leftarrow> setting g (as_string X) [] ''jwt.refresh_cookie_samesite'';
     Some \<lparr>jwt_AccessSecret = acc, jwt_RefreshSecret = ref, jwt_AccessTTL = at, jwt_RefreshTTL = rt,
       jwt_Issuer = iss, jwt_RefreshCookieName = cn, jwt_RefreshCookieSecure = cs,
       jwt_RefreshCookieDomain = cd, jwt_RefreshCookiePath = cp, jwt_RefreshCookieSameSite = ss\<rparr> }"

definition unmarshal_Email :: "viper_lib \<Rightarrow> (string \<Rightarrow> cfg_value option) \<Rightarrow> EmailConfig option" where
  "unmarshal_Email X g = do {
     en \<leftarrow> setting g (as_bool X) False ''email.enabled'';
     key \<leftarrow> setting g (as_string X) [] ''email.api_key'';
     frm \<leftarrow> setting g (as_string X) [] ''email.from'';
     vl \<leftarrow> setting g (as_string X) [] ''email.verify_link_base'';
     rl \<leftarrow> setting g (as_string X) [] ''email.reset_link_base'';
     lim \<leftarrow> setting g (as_int X) 0 ''email.per_recipient_limit'';
     win \<leftarrow> setting g (as_duration X) 0 ''email.per_recipient_window'';
     Some \<lparr>email_Enabled = en, email_APIKey = key, email_From = frm, email_VerifyLinkBase = vl,
       email_ResetLinkBase = rl, email_PerRecipientLimit = lim, email_PerRecipientWindow = win\<rparr> }"

definition unmarshal_Security :: "viper_lib \<Rightarrow> (string \<Rightarrow> cfg_value option) \<Rightarrow> SecurityConfig option" where
  "unmarshal_Security X g = do {
     bc \<leftarrow> setting g (as_int X) 0 ''security.bcrypt_cost'';
     rpm \<leftarrow> setting g (as_int X) 0 ''security.rate_limit_rpm'';
     lg \<leftarrow> setting g (as_int X) 0 ''security.login_rate_limit_rpm'';
     rg \<leftarrow> setting g (as_int X) 0 ''security.register_rate_limit_rpm'';
     rf \<leftarrow> setting g (as_int X) 0 ''security.refresh_rate_limit_rpm'';
     se \<leftarrow> setting g (as_int X) 0 ''security.sensitive_rate_limit_rpm'';
     ma \<leftarrow> setting g (as_int X) 0 ''security.login_max_attempts'';
     ld \<leftarrow> setting g (as_duration X) 0 ''security.login_lockout_duration'';
     Some \<lparr>sec_BcryptCost = bc, sec_RateLimitRPM = rpm, sec_LoginRateLimitRPM = lg,
       sec_RegisterRateLimitRPM = rg, sec_RefreshRateLimitRPM = rf, sec_SensitiveRateLimitRPM = se,
       sec_LoginMaxAttempts = ma, sec_LoginLockoutDuration = ld\<rparr> }"

definition unmarshal_Telemetry :: "viper_lib \<Rightarrow> (string \<Rightarrow> cfg_value option) \<Rightarrow> TelemetryConfig option" where
  "unmarshal_Telemetry X g = do {
     ll \<leftarrow> setting g (as_string X) [] ''telemetry.log_level'';
     oe \<leftarrow> setting g (as_string X) [] ''telemetry.otlp_endpoint'';
     oi \<leftarrow> setting g (as_bool X) False ''telemetry.otlp_insecure'';
     te \<leftarrow> setting g (as_bool X) False ''telemetry.tracing_enabled'';
     me \<leftarrow> setting g (as_bool X) False ''telemetry.metrics_enabled'';
     Some \<lparr>tel_LogLevel = ll, tel_OTLPEndpoint = oe, tel_OTLPInsecure = oi, tel_TracingEnabled = te,
       tel_MetricsEnabled = me\<rparr> }"

definition viper_Unmarshal :: "viper_lib \<Rightarrow> (string \<Rightarrow> cfg_value option) \<Rightarrow> Config option" where
  "viper_Unmarshal X g = do {
     app \<leftarrow> unmarshal_App X g;
     http \<leftarrow> unmarshal_HTTP X g;
     pg \<leftarrow> unmarshal_Postgres X g;
     rd \<leftarrow> unmarshal_Redis X g;
     jwt \<leftarrow> unmarshal_JWT X g;
     email \<leftarrow> unmarshal_Email X g;
     sec \<leftarrow> unmarshal_Security X g;
     tel \<leftarrow> unmarshal_Telemetry X g;
     Some \<lparr>cfg_App = app, cfg_HTTP = http, cfg_Postgres = pg, cfg_Redis = rd, cfg_JWT = jwt,
       cfg_Email = email, cfg_Security = sec, cfg_Telemetry = tel\<rparr> }"

definition Config_Load :: "viper_lib \<Rightarrow> url_lib \<Rightarrow> environ \<Rightarrow> err + Config" where
  "Config_Load X W os =
     (case viper_Unmarshal X (viper_Get X (godotenv_Load X os) (the_viper X)) of
        None \<Rightarrow> Inl (Wrapped ''unmarshal config'' (unmarshal_error X))
      | Some cfg \<Rightarrow> (case Config_Validate W cfg of Inl e \<Rightarrow> Inl e | Inr _ \<Rightarrow> Inr cfg))"

subsection \<open>What viper documents\<close>

text \<open>The capital of an ASCII letter has bit 5 cleared.\<close>

definition upper_ascii :: "char \<Rightarrow> char" where
  "upper_ascii c = (if 97 \<le> byte c \<and> byte c \<le> 122
     then (case c of Char b0 b1 b2 b3 b4 b5 b6 b7 \<Rightarrow> Char b0 b1 b2 b3 b4 False b6 b7) else c)"

text \<open>The variable of a key: prefix, underscore and key in upper case, with the dots replaced.\<close>

definition env_name :: "viper \<Rightarrow> string \<Rightarrow> string" where
  "env_name v key = map (\<lambda>c. if c = fst (vp_KeyReplacer v) then snd (vp_KeyReplacer v) else c)
     (map upper_ascii (vp_EnvPrefix v @ ''_'' @ key))"

text \<open>An empty variable counts as unset.\<close>

definition env_value :: "environ \<Rightarrow> viper \<Rightarrow> string \<Rightarrow> cfg_value option" where
  "env_value env v key =
     (if vp_AutomaticEnv v \<or> key \<in> set (vp_BoundEnv v)
      then (case env (env_name v key) of None \<Rightarrow> None | Some x \<Rightarrow> if x = [] then None else Some (VStr x))
      else None)"

definition known_keys :: "viper \<Rightarrow> string list" where
  "known_keys v = map fst (vp_Defaults v) @ vp_BoundEnv v @ map fst (vp_Config v)"

text \<open>A value at the section of a key hides the key.\<close>

definition section_of :: "string \<Rightarrow> string" where
  "section_of key = takeWhile (\<lambda>c. c \<noteq> CHR ''.'') key"

definition shadowed :: "environ \<Rightarrow> viper \<Rightarrow> string \<Rightarrow> bool" where
  "shadowed env v key \<longleftrightarrow> env_value env v (section_of key) \<noteq> None \<or> section_of key \<in> fst ` set (vp_Config v)"

text \<open>Environment before file before default; a key that none of them names has no value.\<close>

definition effective :: "environ \<Rightarrow> viper \<Rightarrow> string \<Rightarrow> cfg_value option" where
  "effective env v key =
     (if key \<notin> set (known_keys v) then None
      else case env_value env v key of
        Some x \<Rightarrow> Some x
      | None \<Rightarrow> (case map_of (vp_Config v) key of Some x \<Rightarrow> Some x | None \<Rightarrow> map_of (vp_Defaults v) key))"

text \<open>The durations of the source, as \<open>time.ParseDuration\<close> reads them.\<close>

definition duration_literals :: "(string \<times> duration) list" where
  "duration_literals = [(''15s'', 15 * second), (''60s'', 60 * second), (''10s'', 10 * second), (''30m'', 30 * minute),
     (''5m'', 5 * minute), (''5s'', 5 * second), (''3s'', 3 * second), (''15m'', 15 * minute), (''168h'', 168 * hour),
     (''1h'', hour)]"

locale viper_spec =
  fixes X :: viper_lib
  assumes dotenv_keeps: "env x = Some s \<Longrightarrow> godotenv_Load X env x = Some s"
    and get_unknown: "key \<notin> set (known_keys v) \<Longrightarrow> viper_Get X env v key = None"
    and get_known: "\<not> shadowed env v key \<Longrightarrow> viper_Get X env v key = effective env v key"
    and string_of_string: "as_string X (VStr s) = Some s"
    and int_of_int: "as_int X (VInt n) = Some n"
    and int32_of_int: "- (2 ^ 31) \<le> n \<Longrightarrow> n < 2 ^ 31 \<Longrightarrow> as_int32 X (VInt n) = Some n"
    and bool_of_bool: "as_bool X (VBool b) = Some b"
    and strings_of_strings: "as_strings X (VStrs xs) = Some xs"
    and duration_of_literal: "map_of duration_literals s = Some d \<Longrightarrow> as_duration X (VStr s) = Some d"
begin

lemmas conversions = string_of_string int_of_int int32_of_int bool_of_bool strings_of_strings

lemma get_env:
  assumes "\<not> shadowed env v key" "key \<in> set (vp_BoundEnv v)" "env (env_name v key) = Some s" "s \<noteq> []"
  shows "viper_Get X env v key = Some (VStr s)"
  using assms by (simp add: get_known effective_def env_value_def known_keys_def)

lemma get_without_env:
  assumes "\<not> shadowed env v key" "key \<in> set (known_keys v)" "env_value env v key = None"
  shows "viper_Get X env v key = (case map_of (vp_Config v) key of Some x \<Rightarrow> Some x | None \<Rightarrow> map_of (vp_Defaults v) key)"
  using assms by (simp add: get_known effective_def)

end

subsection \<open>A viper over association lists\<close>

definition digits_value :: "string \<Rightarrow> int" where
  "digits_value ds = fold (\<lambda>c n. 10 * n + int (byte c) - 48) ds 0"

definition decimal :: "char \<Rightarrow> bool" where
  "decimal c \<longleftrightarrow> 48 \<le> byte c \<and> byte c \<le> 57"

definition decimal_int :: "string \<Rightarrow> int option" where
  "decimal_int s = (if s \<noteq> [] \<and> list_all decimal s then Some (digits_value s) else None)"

definition decimal_duration :: "string \<Rightarrow> duration option" where
  "decimal_duration s =
     (case (decimal_int (takeWhile decimal s), map_of [(''s'', second), (''m'', minute), (''h'', hour)] (dropWhile decimal s)) of
        (Some n, Some u) \<Rightarrow> Some (n * u)
      | _ \<Rightarrow> None)"

text \<open>mapstructure splits a text at its commas where a list is wanted.\<close>

fun split_commas :: "string \<Rightarrow> string list" where
  "split_commas [] = []"
| "split_commas [c] = (if c = CHR '','' then [[], []] else [[c]])"
| "split_commas (c # d # s) =
     (if c = CHR '','' then [] # split_commas (d # s)
      else (case split_commas (d # s) of [] \<Rightarrow> [[c]] | x # xs \<Rightarrow> (c # x) # xs))"

fun list_viper :: "(string \<times> cfg_value) list \<Rightarrow> environ \<Rightarrow> viper_lib" where
  "list_viper file dotenv =
     \<lparr>godotenv_Load = (\<lambda>env x. case env x of None \<Rightarrow> dotenv x | Some s \<Rightarrow> Some s),
      viper_ReadInConfig = (\<lambda>v. file), viper_Get = effective,
      as_string = (\<lambda>x. case x of VStr s \<Rightarrow> Some s | _ \<Rightarrow> None),
      as_int = (\<lambda>x. case x of VInt n \<Rightarrow> Some n | VStr s \<Rightarrow> decimal_int s | _ \<Rightarrow> None),
      as_int32 = (\<lambda>x. case x of VInt n \<Rightarrow> Some n | VStr s \<Rightarrow> decimal_int s | _ \<Rightarrow> None),
      as_bool = (\<lambda>x. case x of VBool b \<Rightarrow> Some b | VStr s \<Rightarrow> map_of [(''true'', True), (''false'', False)] s | _ \<Rightarrow> None),
      as_duration = (\<lambda>x. case x of VStr s \<Rightarrow> decimal_duration s | _ \<Rightarrow> None),
      as_strings = (\<lambda>x. case x of VStrs xs \<Rightarrow> Some xs | VStr s \<Rightarrow> Some (split_commas s) | _ \<Rightarrow> None),
      unmarshal_error = ErrOther ''unmarshal''\<rparr>"

lemma decimal_duration_literals:
  "map_of duration_literals s = Some d \<Longrightarrow> decimal_duration s = Some d"
proof -
  have all: "list_all (\<lambda>(s, d). decimal_duration s = Some d) duration_literals" by code_simp
  assume "map_of duration_literals s = Some d"
  then have "(s, d) \<in> set duration_literals" by (rule map_of_SomeD)
  with all show ?thesis by (auto simp: list_all_iff)
qed

interpretation list_viper: viper_spec "list_viper file dotenv"
  by unfold_locales (simp_all add: effective_def decimal_duration_literals)

subsection \<open>Where a setting ends up\<close>

definition string_settings :: "(string \<times> (Config \<Rightarrow> string)) list" where
  "string_settings = [
     (''app.name'', \<lambda>c. app_Name (cfg_App c)), (''app.environment'', \<lambda>c. app_Environment (cfg_App c)),
     (''app.version'', \<lambda>c. app_Version (cfg_App c)), (''http.host'', \<lambda>c. http_Host (cfg_HTTP c)),
     (''http.metrics_token'', \<lambda>c. http_MetricsToken (cfg_HTTP c)),
     (''postgres.host'', \<lambda>c. pg_Host (cfg_Postgres c)), (''postgres.user'', \<lambda>c. pg_User (cfg_Postgres c)),
     (''postgres.password'', \<lambda>c. pg_Password (cfg_Postgres c)),
     (''postgres.database'', \<lambda>c. pg_Database (cfg_Postgres c)),
     (''postgres.sslmode'', \<lambda>c. pg_SSLMode (cfg_Postgres c)), (''redis.addr'', \<lambda>c. redis_Addr (cfg_Redis c)),
     (''redis.password'', \<lambda>c. redis_Password (cfg_Redis c)),
     (''jwt.access_secret'', \<lambda>c. jwt_AccessSecret (cfg_JWT c)),
     (''jwt.refresh_secret'', \<lambda>c. jwt_RefreshSecret (cfg_JWT c)), (''jwt.issuer'', \<lambda>c. jwt_Issuer (cfg_JWT c)),
     (''jwt.refresh_cookie_name'', \<lambda>c. jwt_RefreshCookieName (cfg_JWT c)),
     (''jwt.refresh_cookie_domain'', \<lambda>c. jwt_RefreshCookieDomain (cfg_JWT c)),
     (''jwt.refresh_cookie_path'', \<lambda>c. jwt_RefreshCookiePath (cfg_JWT c)),
     (''jwt.refresh_cookie_samesite'', \<lambda>c. jwt_RefreshCookieSameSite (cfg_JWT c)),
     (''email.api_key'', \<lambda>c. email_APIKey (cfg_Email c)), (''email.from'', \<lambda>c. email_From (cfg_Email c)),
     (''email.verify_link_base'', \<lambda>c. email_VerifyLinkBase (cfg_Email c)),
     (''email.reset_link_base'', \<lambda>c. email_ResetLinkBase (cfg_Email c)),
     (''telemetry.log_level'', \<lambda>c. tel_LogLevel (cfg_Telemetry c)),
     (''telemetry.otlp_endpoint'', \<lambda>c. tel_OTLPEndpoint (cfg_Telemetry c))]"

lemma unmarshal_App_strings:
  assumes "unmarshal_App X g = Some c"
  shows "setting g (as_string X) [] ''app.name'' = Some (app_Name c)"
    "setting g (as_string X) [] ''app.environment'' = Some (app_Environment c)"
    "setting g (as_string X) [] ''app.version'' = Some (app_Version c)"
  using assms by (auto simp: unmarshal_App_def bind_eq_Some_conv)

lemma unmarshal_HTTP_strings:
  assumes "unmarshal_HTTP X g = Some c"
  shows "setting g (as_string X) [] ''http.host'' = Some (http_Host c)"
    "setting g (as_string X) [] ''http.metrics_token'' = Some (http_MetricsToken c)"
  using assms by (auto simp: unmarshal_HTTP_def bind_eq_Some_conv)

lemma unmarshal_Postgres_strings:
  assumes "unmarshal_Postgres X g = Some c"
  shows "setting g (as_string X) [] ''postgres.host'' = Some (pg_Host c)"
    "setting g (as_string X) [] ''postgres.user'' = Some (pg_User c)"
    "setting g (as_string X) [] ''postgres.password'' = Some (pg_Password c)"
    "setting g (as_string X) [] ''postgres.database'' = Some (pg_Database c)"
    "setting g (as_string X) [] ''postgres.sslmode'' = Some (pg_SSLMode c)"
  using assms by (auto simp: unmarshal_Postgres_def bind_eq_Some_conv)

lemma unmarshal_Redis_strings:
  assumes "unmarshal_Redis X g = Some c"
  shows "setting g (as_string X) [] ''redis.addr'' = Some (redis_Addr c)"
    "setting g (as_string X) [] ''redis.password'' = Some (redis_Password c)"
  using assms by (auto simp: unmarshal_Redis_def bind_eq_Some_conv)

lemma unmarshal_JWT_strings:
  assumes "unmarshal_JWT X g = Some c"
  shows "setting g (as_string X) [] ''jwt.access_secret'' = Some (jwt_AccessSecret c)"
    "setting g (as_string X) [] ''jwt.refresh_secret'' = Some (jwt_RefreshSecret c)"
    "setting g (as_string X) [] ''jwt.issuer'' = Some (jwt_Issuer c)"
    "setting g (as_string X) [] ''jwt.refresh_cookie_name'' = Some (jwt_RefreshCookieName c)"
    "setting g (as_string X) [] ''jwt.refresh_cookie_domain'' = Some (jwt_RefreshCookieDomain c)"
    "setting g (as_string X) [] ''jwt.refresh_cookie_path'' = Some (jwt_RefreshCookiePath c)"
    "setting g (as_string X) [] ''jwt.refresh_cookie_samesite'' = Some (jwt_RefreshCookieSameSite c)"
  using assms by (auto simp: unmarshal_JWT_def bind_eq_Some_conv)

lemma unmarshal_Email_strings:
  assumes "unmarshal_Email X g = Some c"
  shows "setting g (as_string X) [] ''email.api_key'' = Some (email_APIKey c)"
    "setting g (as_string X) [] ''email.from'' = Some (email_From c)"
    "setting g (as_string X) [] ''email.verify_link_base'' = Some (email_VerifyLinkBase c)"
    "setting g (as_string X) [] ''email.reset_link_base'' = Some (email_ResetLinkBase c)"
  using assms by (auto simp: unmarshal_Email_def bind_eq_Some_conv)

lemma unmarshal_Telemetry_strings:
  assumes "unmarshal_Telemetry X g = Some c"
  shows "setting g (as_string X) [] ''telemetry.log_level'' = Some (tel_LogLevel c)"
    "setting g (as_string X) [] ''telemetry.otlp_endpoint'' = Some (tel_OTLPEndpoint c)"
  using assms by (auto simp: unmarshal_Telemetry_def bind_eq_Some_conv)

lemmas unmarshal_section_strings = unmarshal_App_strings
  unmarshal_HTTP_strings
  unmarshal_Postgres_strings
  unmarshal_Redis_strings
  unmarshal_JWT_strings
  unmarshal_Email_strings
  unmarshal_Telemetry_strings

lemma unmarshal_sections:
  assumes "viper_Unmarshal X g = Some cfg"
  shows "unmarshal_App X g = Some (cfg_App cfg)"
    "unmarshal_HTTP X g = Some (cfg_HTTP cfg)"
    "unmarshal_Postgres X g = Some (cfg_Postgres cfg)"
    "unmarshal_Redis X g = Some (cfg_Redis cfg)"
    "unmarshal_JWT X g = Some (cfg_JWT cfg)"
    "unmarshal_Email X g = Some (cfg_Email cfg)"
    "unmarshal_Security X g = Some (cfg_Security cfg)"
    "unmarshal_Telemetry X g = Some (cfg_Telemetry cfg)"
  using assms by (auto simp: viper_Unmarshal_def bind_eq_Some_conv)

lemma unmarshal_strings:
  assumes "viper_Unmarshal X g = Some cfg"
  shows "list_all (\<lambda>(k, f). setting g (as_string X) [] k = Some (f cfg)) string_settings"
  unfolding string_settings_def list.pred_inject prod.case
  by (intro conjI list.pred_inject(1) unmarshal_section_strings unmarshal_sections assms)

lemma load_okE:
  assumes "Config_Load X W os = Inr cfg"
  obtains "viper_Unmarshal X (viper_Get X (godotenv_Load X os) (the_viper X)) = Some cfg"
    "Config_Validate W cfg = Inr ()"
  using assms by (auto simp: Config_Load_def split: option.splits sum.splits)

lemma loaded_string:
  assumes "Config_Load X W os = Inr cfg" "(key, f) \<in> set string_settings"
  shows "setting (viper_Get X (godotenv_Load X os) (the_viper X)) (as_string X) [] key = Some (f cfg)"
proof (rule load_okE [OF assms(1)])
  assume "viper_Unmarshal X (viper_Get X (godotenv_Load X os) (the_viper X)) = Some cfg"
  from unmarshal_strings [OF this] assms(2) show ?thesis by (auto simp: list_all_iff)
qed

lemma the_viper_simps [simp]:
  "vp_EnvPrefix (the_viper X) = ''AUTH''" "vp_KeyReplacer (the_viper X) = (CHR ''.'', CHR ''_'')"
  "vp_AutomaticEnv (the_viper X)" "vp_Defaults (the_viper X) = setDefaults"
  "vp_BoundEnv (the_viper X) = map fst setDefaults @ extra_keys"
  by (simp_all add: the_viper_def Let_def)

end
