(* ===== verification/App.thy ===== *)
theory App
  imports Router Telemetry Settings
begin

text \<open>
  \<open>internal/app/app.go\<close>, the constructors of \<open>internal/infrastructure/postgres\<close> and \<open>redis\<close> with
  \<open>dial.Ping\<close>, and \<open>cmd/api/main.go\<close>: the options handed to the pool, the Redis client and the
  HTTP server, what is opened, what is closed again when a step fails, the order of a shutdown and
  the exit code. What the calls of a library return is the parameter \<open>infra_lib\<close>; a result comes
  with the events of its run, in order.
\<close>

subsection \<open>Connecting\<close>

definition DefaultPingTimeout :: duration where "DefaultPingTimeout = 5 * second"

definition dial_Ping :: "string \<Rightarrow> duration \<Rightarrow> (duration \<Rightarrow> err option) \<Rightarrow> err option" where
  "dial_Ping name timeout ping =
     (case ping timeout of None \<Rightarrow> None | Some e \<Rightarrow> Some (Wrapped (''ping '' @ name) e))"

text \<open>The fields of \<open>pgxpool.Config\<close> that \<open>postgres.New\<close> sets, and the connection string it was parsed from.\<close>

record pool_config =
  pool_ConnString :: string
  pool_MaxConns :: int
  pool_MinConns :: int
  pool_MaxConnLifetime :: duration
  pool_MaxConnIdleTime :: duration
  pool_HealthCheckPeriod :: duration

record redis_options =
  ropt_Addr :: string
  ropt_Password :: string
  ropt_DB :: int
  ropt_PoolSize :: int
  ropt_MinIdleConns :: int
  ropt_DialTimeout :: duration
  ropt_ReadTimeout :: duration
  ropt_WriteTimeout :: duration

text \<open>
  The calls whose results the process does not decide; a ping gets the time it has, and
  \<open>srv_Serve\<close> is what \<open>ListenAndServe\<close> on an address returns, with whether it is \<open>http.ErrServerClosed\<close>.
\<close>

record infra_lib = otel_lib +
  pgx_ParseConfig :: "string \<Rightarrow> err + pool_config"
  pgx_NewWithConfig :: "pool_config \<Rightarrow> err option"
  pgx_Ping :: "pool_config \<Rightarrow> duration \<Rightarrow> err option"
  goredis_Ping :: "redis_options \<Rightarrow> duration \<Rightarrow> err option"
  goredis_Close :: "err option"
  srv_Serve :: "string \<Rightarrow> (err \<times> bool) option"
  srv_Shutdown :: "duration \<Rightarrow> err option"

text \<open>\<open>DB\<close> with its pool; \<open>Close\<close> of a nil pool does nothing.\<close>

record DB =
  db_Pool :: "pool_config option"

definition DB_Name :: "DB \<Rightarrow> string" where "DB_Name db = ''postgres''"

definition DB_Close :: "DB \<Rightarrow> event list" where
  "DB_Close db = (if db_Pool db \<noteq> None then [Closed Postgres] else [])"

definition pool_settings :: "PostgresConfig \<Rightarrow> pool_config \<Rightarrow> pool_config" where
  "pool_settings cfg c = c\<lparr>pool_MaxConns := pg_MaxOpenConns cfg, pool_MinConns := pg_MaxIdleConns cfg,
     pool_MaxConnLifetime := pg_ConnMaxLifetime cfg, pool_MaxConnIdleTime := pg_ConnMaxIdleTime cfg,
     pool_HealthCheckPeriod := 30 * second\<rparr>"

definition postgres_New :: "'z infra_lib_scheme \<Rightarrow> url_lib \<Rightarrow> PostgresConfig \<Rightarrow> (err + DB) \<times> event list" where
  "postgres_New I W cfg =
     (case pgx_ParseConfig I (PostgresConfig_DSN W cfg) of
        Inl e \<Rightarrow> (Inl (Wrapped ''parse postgres dsn'' e), [])
      | Inr parsed \<Rightarrow>
          (let poolCfg = pool_settings cfg parsed
           in case pgx_NewWithConfig I poolCfg of
                Some e \<Rightarrow> (Inl (Wrapped ''connect postgres'' e), [])
              | None \<Rightarrow>
                  (let db = \<lparr>db_Pool = Some poolCfg\<rparr>
                   in case dial_Ping ''postgres'' DefaultPingTimeout (pgx_Ping I poolCfg) of
                        Some e \<Rightarrow> (Inl e, [Opened Postgres] @ DB_Close db)
                      | None \<Rightarrow> (Inr db, [Opened Postgres, Logged ''postgres connected''
                          [(''host'', FString (pg_Host cfg)), (''port'', FInt (pg_Port cfg)),
                           (''database'', FString (pg_Database cfg))]]))))"

record RedisConn =
  conn_Options :: "redis_options option"

definition Client_Name :: "RedisConn \<Rightarrow> string" where "Client_Name c = ''redis''"

definition Client_Close :: "'z infra_lib_scheme \<Rightarrow> RedisConn \<Rightarrow> err option \<times> event list" where
  "Client_Close I c = (if conn_Options c = None then (None, []) else (goredis_Close I, [Closed Redis]))"

definition redis_settings :: "RedisConfig \<Rightarrow> redis_options" where
  "redis_settings cfg = \<lparr>ropt_Addr = redis_Addr cfg, ropt_Password = redis_Password cfg, ropt_DB = redis_DB cfg,
     ropt_PoolSize = redis_PoolSize cfg, ropt_MinIdleConns = redis_MinIdleConns cfg,
     ropt_DialTimeout = redis_DialTimeout cfg, ropt_ReadTimeout = redis_ReadTimeout cfg,
     ropt_WriteTimeout = redis_WriteTimeout cfg\<rparr>"

definition redis_New :: "'z infra_lib_scheme \<Rightarrow> RedisConfig \<Rightarrow> (err + RedisConn) \<times> event list" where
  "redis_New I cfg =
     (let c = \<lparr>conn_Options = Some (redis_settings cfg)\<rparr>
      in case dial_Ping ''redis'' DefaultPingTimeout (goredis_Ping I (redis_settings cfg)) of
           Some e \<Rightarrow> (Inl e, [Opened Redis, Closed Redis])
         | None \<Rightarrow> (Inr c, [Opened Redis, Logged ''redis connected'' [(''addr'', FString (redis_Addr cfg))]]))"

subsection \<open>Building the server\<close>

record 'w http_server =
  srv_Addr :: string
  srv_Handler :: "'w handler"
  srv_ReadTimeout :: duration
  srv_WriteTimeout :: duration
  srv_IdleTimeout :: duration
  srv_MaxHeaderBytes :: int
  srv_ReadHeaderTimeout :: duration

record 'w App =
  app_cfg :: Config
  app_log :: "'w zap_lib"
  app_db :: DB
  app_redis :: RedisConn
  app_server :: "'w http_server"
  app_shutdownTracing :: shutdown

text \<open>
  What the handlers of the process use: the libraries of the use cases, the decoders, the web
  libraries, the database with its health check, and the Redis client with its own.
\<close>

record ('d, 'r) platform =
  plat_Libs :: libs
  plat_Decoders :: decoders
  plat_Web :: "('d, 'r) world web_lib"
  plat_Pg :: pg_lib
  plat_Redis :: "'r Client"
  plat_Session :: "sessionDTO \<Rightarrow> err + string"
  plat_PingDB :: "(('d, 'r) world, unit) call"
  plat_PingRedis :: "(('d, 'r) world, unit) call"

definition max_header :: "Config \<Rightarrow> int" where
  "max_header cfg = (let m = http_MaxHeaderBytes (cfg_HTTP cfg) in if m \<le> 0 then 1048576 else m)"

definition app_deps ::
    "(tables, 'r) platform \<Rightarrow> Config \<Rightarrow> 'r svc_world zap_lib \<Rightarrow> DB \<Rightarrow> RedisConn \<Rightarrow> 'r svc_world Deps" where
  "app_deps A cfg log db rdb = \<lparr>dep_Config = cfg, dep_Logger = log, dep_DB = (DB_Name db, plat_PingDB A),
     dep_Redis = (Client_Name rdb, plat_PingRedis A),
     dep_Auth = app_auth (plat_Libs A) (plat_Pg A) (plat_Redis A) (plat_Session A) cfg,
     dep_Limiter = Some (RedisRateLimiter (plat_Redis A)), dep_Idem = Some (RedisIdempotency (plat_Redis A))\<rparr>"

definition app_http_server :: "(tables, 'r) platform \<Rightarrow> Config \<Rightarrow> 'r svc_world Deps \<Rightarrow> 'r svc_world http_server" where
  "app_http_server A cfg deps = \<lparr>srv_Addr = HTTPConfig_Addr (cfg_HTTP cfg),
     srv_Handler = router_New (plat_Libs A) (plat_Decoders A) (plat_Web A) deps,
     srv_ReadTimeout = http_ReadTimeout (cfg_HTTP cfg), srv_WriteTimeout = http_WriteTimeout (cfg_HTTP cfg),
     srv_IdleTimeout = http_IdleTimeout (cfg_HTTP cfg), srv_MaxHeaderBytes = max_header cfg,
     srv_ReadHeaderTimeout = http_ReadTimeout (cfg_HTTP cfg)\<rparr>"

definition app_New ::
    "'z infra_lib_scheme \<Rightarrow> (tables, 'r) platform \<Rightarrow> Config \<Rightarrow> 'r svc_world zap_lib \<Rightarrow>
     (err + 'r svc_world App) \<times> event list" where
  "app_New I A cfg log =
     (case InitTracing I (cfg_Telemetry cfg) (app_Name (cfg_App cfg)) (app_Version (cfg_App cfg)) of
        (Inl e, es) \<Rightarrow> (Inl (Wrapped ''init tracing'' e), es)
      | (Inr tracing, es) \<Rightarrow>
          (let cleanup = snd (run_shutdown I tracing)
           in case postgres_New I (lib_W (plat_Libs A)) (cfg_Postgres cfg) of
                (Inl e, es2) \<Rightarrow> (Inl e, es @ es2 @ cleanup)
              | (Inr db, es2) \<Rightarrow>
                  (case redis_New I (cfg_Redis cfg) of
                     (Inl e, es3) \<Rightarrow> (Inl e, es @ es2 @ es3 @ DB_Close db @ cleanup)
                   | (Inr rdb, es3) \<Rightarrow>
                       (Inr \<lparr>app_cfg = cfg, app_log = log, app_db = db, app_redis = rdb,
                          app_server = app_http_server A cfg (app_deps A cfg log db rdb),
                          app_shutdownTracing = tracing\<rparr>,
                        es @ es2 @ es3 @
                        (if email_Enabled (cfg_Email cfg)
                         then [Logged ''transactional email enabled'' [(''from'', FString (email_From (cfg_Email cfg)))]]
                         else [])))))"

subsection \<open>Running and shutting down\<close>

text \<open>\<open>errors.Join\<close> drops nil errors and is nil when nothing is left.\<close>

definition errors_Join :: "err option list \<Rightarrow> err option" where
  "errors_Join es = (case List.map_filter (\<lambda>e. e) es of [] \<Rightarrow> None | xs \<Rightarrow> Some (Joined xs))"

definition app_Run :: "'z infra_lib_scheme \<Rightarrow> 'w App \<Rightarrow> err option \<times> event list" where
  "app_Run I a =
     (let es = [Logged ''server starting'' [(''addr'', FString (srv_Addr (app_server a))),
            (''environment'', FString (app_Environment (cfg_App (app_cfg a)))),
            (''version'', FString (app_Version (cfg_App (app_cfg a))))], Served]
      in case srv_Serve I (srv_Addr (app_server a)) of
           None \<Rightarrow> (None, es)
         | Some (e, closed) \<Rightarrow> if closed then (None, es) else (Some (Wrapped ''listen and serve'' e), es))"

text \<open>\<open>timeout\<close> is what the context of the shutdown leaves the server for its open requests.\<close>

definition app_Shutdown :: "'z infra_lib_scheme \<Rightarrow> 'w App \<Rightarrow> duration \<Rightarrow> err option \<times> event list" where
  "app_Shutdown I a timeout =
     (case Client_Close I (app_redis a) of (redisErr, es1) \<Rightarrow>
      case run_shutdown I (app_shutdownTracing a) of (tracingErr, es2) \<Rightarrow>
        (let es = [Logged ''shutting down server'' [], Stopped] @ es1 @ es2 @ DB_Close (app_db a)
         in case errors_Join [srv_Shutdown I timeout, redisErr, tracingErr] of
              Some e \<Rightarrow> (Some (Wrapped ''shutdown'' e), es)
            | None \<Rightarrow> (None, es @ [Logged ''shutdown complete'' []])))"

subsection \<open>The main program\<close>

text \<open>What \<open>run\<close> waits for: the server returns, or a signal arrives while it serves.\<close>

datatype wakeup = Returned | Signal

record ('d, 'r, 'l) process =
  proc_Infra :: infra_lib
  proc_Platform :: "('d, 'r) platform"
  proc_Viper :: viper_lib
  proc_ParseLevel :: "string \<Rightarrow> 'l option"
  proc_InfoLevel :: 'l
  proc_Build :: "'l logger_config \<Rightarrow> err option"
  proc_Logger :: "('d, 'r) world zap_lib"
  proc_Environ :: environ
  proc_Wakeup :: wakeup

definition main_run :: "(tables, 'r, 'l) process \<Rightarrow> err option \<times> event list" where
  "main_run M =
     (let I = proc_Infra M; A = proc_Platform M; L = plat_Libs A
      in case Config_Load (proc_Viper M) (lib_W L) (proc_Environ M) of
           Inl e \<Rightarrow> (Some e, [])
         | Inr cfg \<Rightarrow>
      (case logger_New (lib_U L) (proc_ParseLevel M) (proc_InfoLevel M) (proc_Build M)
              (tel_LogLevel (cfg_Telemetry cfg)) (app_Name (cfg_App cfg)) (app_Environment (cfg_App cfg)) of
         Some e \<Rightarrow> (Some e, [])
       | None \<Rightarrow>
      (case app_New I A cfg (proc_Logger M) of
         (Inl e, es) \<Rightarrow> (Some (Wrapped ''bootstrap'' e), es)
       | (Inr a, es) \<Rightarrow>
      (let shutdown = (case app_Shutdown I a (http_ShutdownTimeout (cfg_HTTP cfg)) of
             (None, es3) \<Rightarrow> (None, es3)
           | (Some e, es3) \<Rightarrow> (Some e, es3 @ [Logged ''graceful shutdown failed'' [(''error'', FError e)]]))
       in case app_Run I a of
            (served, es2) \<Rightarrow>
              (case (proc_Wakeup M, served) of
                 (Returned, Some e) \<Rightarrow> (Some (Wrapped ''server'' e), es @ es2)
               | _ \<Rightarrow> (fst shutdown, es @ es2 @ snd shutdown))))))"

text \<open>\<open>main\<close>: exit code 1 for an error of \<open>run\<close>, which also goes to the error stream.\<close>

definition main_exit :: "(tables, 'r, 'l) process \<Rightarrow> int" where
  "main_exit M = (case fst (main_run M) of None \<Rightarrow> 0 | Some _ \<Rightarrow> 1)"

subsection \<open>What stays open\<close>

definition leftover :: "event list \<Rightarrow> resource set" where
  "leftover es = {x. count_list es (Opened x) \<noteq> count_list es (Closed x)}"

definition merge_failed :: "'z otel_lib_scheme \<Rightarrow> Config \<Rightarrow> bool" where
  "merge_failed T cfg \<longleftrightarrow> isl (otel_Merge T (otel_Default T) \<lparr>res_SchemaURL = semconv_SchemaURL,
     res_Attributes = [(''service.name'', app_Name (cfg_App cfg)), (''service.version'', app_Version (cfg_App cfg))]\<rparr>)"

lemmas lifecycle_defs = InitTracing_def postgres_New_def redis_New_def dial_Ping_def
  DB_Close_def Client_Close_def run_shutdown_def setPropagator_def Let_def

text \<open>The outcomes of the three steps of \<open>app.New\<close>, with the resources each leaves open.\<close>

definition net :: "event list \<Rightarrow> resource \<Rightarrow> int" where
  "net es x = int (count_list es (Opened x)) - int (count_list es (Closed x))"

lemma net_append: "net (es @ fs) x = net es x + net fs x"
  by (simp add: net_def count_list_append)

lemma leftover_net: "leftover es = {x. net es x \<noteq> 0}"
  by (simp add: leftover_def net_def)

definition opens :: "resource set \<Rightarrow> event list \<Rightarrow> bool" where
  "opens R es \<longleftrightarrow> (\<forall>x. net es x = (if x \<in> R then 1 else 0))"

definition closes :: "resource set \<Rightarrow> event list \<Rightarrow> bool" where
  "closes R es \<longleftrightarrow> (\<forall>x. net es x = (if x \<in> R then - 1 else 0))"

fun shutdown_resources :: "shutdown \<Rightarrow> resource set" where
  "shutdown_resources NoopShutdown = {}"
| "shutdown_resources (ProviderShutdown _) = {Tracing, Exporter}"

lemma InitTracing_opens:
  "opens (case fst (InitTracing I (cfg_Telemetry cfg) (app_Name (cfg_App cfg)) (app_Version (cfg_App cfg))) of
     Inr s \<Rightarrow> shutdown_resources s | Inl _ \<Rightarrow> if merge_failed I cfg \<and>
       snd (InitTracing I (cfg_Telemetry cfg) (app_Name (cfg_App cfg)) (app_Version (cfg_App cfg))) \<noteq> [setPropagator]
       then {Exporter} else {})
   (snd (InitTracing I (cfg_Telemetry cfg) (app_Name (cfg_App cfg)) (app_Version (cfg_App cfg))))"
  by (auto simp: InitTracing_def setPropagator_def Let_def opens_def net_def merge_failed_def
      split: option.splits sum.splits)

definition tracing_resources :: "TelemetryConfig \<Rightarrow> resource set" where
  "tracing_resources t = (if tel_TracingEnabled t \<and> tel_OTLPEndpoint t \<noteq> [] then {Tracing, Exporter} else {})"

lemma InitTracing_resources:
  "fst (InitTracing I t name version) = Inr s \<Longrightarrow> shutdown_resources s = tracing_resources t"
  by (auto simp: InitTracing_def tracing_resources_def Let_def split: if_splits option.splits sum.splits)

lemma run_shutdown_closes: "closes (shutdown_resources s) (snd (run_shutdown T s))"
  by (cases s) (auto simp: closes_def net_def run_shutdown_def)

lemma postgres_New_opens:
  "opens (if isl (fst (postgres_New I W cfg)) then {} else {Postgres}) (snd (postgres_New I W cfg))"
  "fst (postgres_New I W cfg) = Inr db \<Longrightarrow> closes {Postgres} (DB_Close db)"
  by (auto simp: postgres_New_def dial_Ping_def DB_Close_def Let_def opens_def closes_def net_def
      split: option.splits sum.splits)

lemma redis_New_opens:
  "opens (if isl (fst (redis_New I cfg)) then {} else {Redis}) (snd (redis_New I cfg))"
  "fst (redis_New I cfg) = Inr c \<Longrightarrow> closes {Redis} (snd (Client_Close I c))"
  by (auto simp: redis_New_def dial_Ping_def Client_Close_def Let_def opens_def closes_def net_def
      split: option.splits)

text \<open>Sequences of events: what was opened adds up, what was closed goes away.\<close>

lemma opens_append: "opens R es \<Longrightarrow> opens S fs \<Longrightarrow> R \<inter> S = {} \<Longrightarrow> opens (R \<union> S) (es @ fs)"
  by (auto simp: opens_def net_append)

lemma opens_closes: "opens R es \<Longrightarrow> closes S fs \<Longrightarrow> S \<subseteq> R \<Longrightarrow> opens (R - S) (es @ fs)"
  by (auto simp: opens_def closes_def net_append)

lemma closes_append: "closes R es \<Longrightarrow> closes S fs \<Longrightarrow> R \<inter> S = {} \<Longrightarrow> closes (R \<union> S) (es @ fs)"
  by (auto simp: closes_def net_append)

lemma opens_quiet: "opens R es \<Longrightarrow> opens {} fs \<Longrightarrow> opens R (es @ fs)"
  by (auto simp: opens_def net_append)

lemma closes_quiet: "closes R fs \<Longrightarrow> opens {} es \<Longrightarrow> closes R (es @ fs)"
  by (auto simp: opens_def closes_def net_append)

lemma opens_leftover: "opens R es \<Longrightarrow> leftover es = R"
  by (auto simp: opens_def leftover_net)

lemma opens_log [simp]: "opens {} []" "opens {} [Logged m fs]" "opens {} [Logged m fs, Served]" "opens {} [Logged m fs, Stopped]"
  by (simp_all add: opens_def net_def)

lemma app_Run_opens: "opens {} (snd (app_Run I a))"
  by (auto simp: app_Run_def Let_def split: option.splits)

text \<open>The three steps of \<open>app.New\<close>.\<close>

lemma app_New_cases:
  fixes I A cfg log
  defines "tr \<equiv> InitTracing I (cfg_Telemetry cfg) (app_Name (cfg_App cfg)) (app_Version (cfg_App cfg))"
    and "pg \<equiv> postgres_New I (lib_W (plat_Libs A)) (cfg_Postgres cfg)" and "rd \<equiv> redis_New I (cfg_Redis cfg)"
  obtains (tracing) e where "fst tr = Inl e" "app_New I A cfg log = (Inl (Wrapped ''init tracing'' e), snd tr)"
  | (postgres) s e where "fst tr = Inr s" "fst pg = Inl e"
      "app_New I A cfg log = (Inl e, snd tr @ snd pg @ snd (run_shutdown I s))"
  | (redis) s db e where "fst tr = Inr s" "fst pg = Inr db" "fst rd = Inl e"
      "app_New I A cfg log = (Inl e, snd tr @ snd pg @ snd rd @ DB_Close db @ snd (run_shutdown I s))"
  | (started) s db c a es where "fst tr = Inr s" "fst pg = Inr db" "fst rd = Inr c" "opens {} es" "Served \<notin> set es" "Stopped \<notin> set es"
      "app_db a = db" "app_redis a = c" "app_shutdownTracing a = s"
      "app_New I A cfg log = (Inr a, snd tr @ snd pg @ snd rd @ es)"
proof -
  obtain t es where tr: "tr = (t, es)" by fastforce
  obtain p es2 where pg: "pg = (p, es2)" by fastforce
  obtain q es3 where rd: "rd = (q, es3)" by fastforce
  note steps = app_New_def Let_def tr [unfolded tr_def] pg [unfolded pg_def] rd [unfolded rd_def]
  show thesis
  proof (cases t)
    case (Inl e)
    show thesis by (rule tracing [of e]) (simp_all add: tr Inl steps)
  next
    case t: (Inr s)
    show thesis
    proof (cases p)
      case (Inl e)
      show thesis by (rule postgres [of s e]) (simp_all add: tr pg t Inl steps)
    next
      case p: (Inr db)
      show thesis
      proof (cases q)
        case (Inl e)
        show thesis by (rule redis [of s db e]) (simp_all add: tr pg rd t p Inl steps)
      next
        case (Inr c)
        let ?es = "if email_Enabled (cfg_Email cfg)
          then [Logged ''transactional email enabled'' [(''from'', FString (email_From (cfg_Email cfg)))]] else []"
        show thesis by (rule started [of s db c ?es]) (simp_all add: tr pg rd t p Inr steps)
      qed
    qed
  qed
qed

lemma tracing_left:
  fixes cfg :: Config
  assumes "fst (InitTracing I (cfg_Telemetry cfg) (app_Name (cfg_App cfg)) (app_Version (cfg_App cfg))) = Inl e"
  shows "leftover (snd (InitTracing I (cfg_Telemetry cfg) (app_Name (cfg_App cfg)) (app_Version (cfg_App cfg))))
    \<in> {{}, {Exporter}}"
  using opens_leftover [OF InitTracing_opens [of I cfg]] assms by (auto split: if_splits)

lemma tracing_opens:
  fixes cfg :: Config
  assumes "fst (InitTracing I (cfg_Telemetry cfg) (app_Name (cfg_App cfg)) (app_Version (cfg_App cfg))) = Inr s"
  shows "opens (shutdown_resources s) (snd (InitTracing I (cfg_Telemetry cfg) (app_Name (cfg_App cfg)) (app_Version (cfg_App cfg))))"
  using InitTracing_opens [of I cfg] assms by simp

lemma shutdown_resources_disjoint [simp]:
  "shutdown_resources s \<inter> {Postgres} = {}" "shutdown_resources s \<inter> {Redis} = {}"
  "Postgres \<notin> shutdown_resources s" "Redis \<notin> shutdown_resources s"
  by (cases s; simp)+

lemma app_New_error:
  assumes "app_New I A cfg log = (Inl e, es)"
  shows "leftover es = {} \<or> leftover es = {Exporter} \<and> (\<exists>e'. e = Wrapped ''init tracing'' e')"
proof (cases rule: app_New_cases [where I = I and A = A and cfg = cfg and log = log])
  case tracing
  with assms tracing_left [OF tracing(1)] show ?thesis by auto
next
  case (postgres s e)
  have "opens (shutdown_resources s \<union> {}) (snd (InitTracing I (cfg_Telemetry cfg) (app_Name (cfg_App cfg)) (app_Version (cfg_App cfg)))
      @ snd (postgres_New I (lib_W (plat_Libs A)) (cfg_Postgres cfg)))"
    using postgres postgres_New_opens(1) [of I "lib_W (plat_Libs A)" "cfg_Postgres cfg"]
    by (intro opens_append tracing_opens) auto
  from opens_closes [OF this run_shutdown_closes [of s I]] opens_leftover postgres assms show ?thesis by auto
next
  case (redis s db e)
  have "opens ((shutdown_resources s \<union> {Postgres}) \<union> {})
      ((snd (InitTracing I (cfg_Telemetry cfg) (app_Name (cfg_App cfg)) (app_Version (cfg_App cfg)))
      @ snd (postgres_New I (lib_W (plat_Libs A)) (cfg_Postgres cfg))) @ snd (redis_New I (cfg_Redis cfg)))"
    using redis postgres_New_opens(1) [of I "lib_W (plat_Libs A)" "cfg_Postgres cfg"] redis_New_opens(1) [of I "cfg_Redis cfg"]
    by (intro opens_append tracing_opens) auto
  note opened = this
  have "closes ({Postgres} \<union> shutdown_resources s) (DB_Close db @ snd (run_shutdown I s))"
    using redis by (intro closes_append postgres_New_opens(2) [OF redis(2)] run_shutdown_closes) auto
  from opens_leftover [OF opens_closes [OF opened this]] redis assms show ?thesis by auto
next
  case started
  with assms show ?thesis by simp
qed

lemma app_Shutdown_closes:
  assumes "closes {Postgres} (DB_Close (app_db a))" "closes {Redis} (snd (Client_Close I (app_redis a)))"
  shows "closes ({Postgres, Redis} \<union> shutdown_resources (app_shutdownTracing a)) (snd (app_Shutdown I a t))"
proof -
  let ?es = "snd (Client_Close I (app_redis a)) @ snd (run_shutdown I (app_shutdownTracing a)) @ DB_Close (app_db a)"
  have "closes ({Redis} \<union> (shutdown_resources (app_shutdownTracing a) \<union> {Postgres})) ?es"
    by (intro closes_append assms run_shutdown_closes) auto
  then have "closes ({Postgres, Redis} \<union> shutdown_resources (app_shutdownTracing a)) ?es"
    by (simp add: insert_commute Un_commute)
  moreover have "net (snd (app_Shutdown I a t)) x = net ?es x" for x
    by (auto simp: app_Shutdown_def Let_def net_def count_list_append split: prod.splits option.splits)
  ultimately show ?thesis by (simp add: closes_def)
qed

lemma app_lifecycle:
  assumes "app_New I A cfg log = (Inr a, es)"
  shows "leftover es = {Postgres, Redis} \<union> shutdown_resources (app_shutdownTracing a)"
    "leftover (es @ snd (app_Run I a) @ snd (app_Shutdown I a t)) = {}"
proof -
  have "opens ({Postgres, Redis} \<union> shutdown_resources (app_shutdownTracing a)) es \<and>
      closes {Postgres} (DB_Close (app_db a)) \<and> closes {Redis} (snd (Client_Close I (app_redis a)))"
  proof (cases rule: app_New_cases [where I = I and A = A and cfg = cfg and log = log])
    case (started s db c a' es')
    have "opens (((shutdown_resources s \<union> {Postgres}) \<union> {Redis}))
      (((snd (InitTracing I (cfg_Telemetry cfg) (app_Name (cfg_App cfg)) (app_Version (cfg_App cfg)))
      @ snd (postgres_New I (lib_W (plat_Libs A)) (cfg_Postgres cfg))) @ snd (redis_New I (cfg_Redis cfg))) @ es')"
      using started postgres_New_opens(1) [of I "lib_W (plat_Libs A)" "cfg_Postgres cfg"] redis_New_opens(1) [of I "cfg_Redis cfg"]
      by (intro opens_quiet opens_append tracing_opens) auto
    with started assms postgres_New_opens(2) [OF started(2)] redis_New_opens(2) [OF started(3)]
    show ?thesis by (simp add: insert_commute Un_commute)
  qed (use assms in simp_all)
  then have opened: "opens ({Postgres, Redis} \<union> shutdown_resources (app_shutdownTracing a)) es"
    and closed: "closes {Postgres} (DB_Close (app_db a))" "closes {Redis} (snd (Client_Close I (app_redis a)))"
    by blast+
  from opens_leftover [OF opened]
  show "leftover es = {Postgres, Redis} \<union> shutdown_resources (app_shutdownTracing a)" .
  from opens_leftover [OF opens_closes [OF opens_quiet [OF opened app_Run_opens [of I a]]
      app_Shutdown_closes [OF closed, of t]]]
  show "leftover (es @ snd (app_Run I a) @ snd (app_Shutdown I a t)) = {}" by simp
qed

lemma app_New_tracing:
  assumes "app_New I A cfg log = (Inr a, es)"
  shows "shutdown_resources (app_shutdownTracing a) = tracing_resources (cfg_Telemetry cfg)"
  by (cases rule: app_New_cases [where I = I and A = A and cfg = cfg and log = log])
    (use assms in \<open>simp_all add: InitTracing_resources\<close>)

text \<open>Serving and stopping happen in \<open>Run\<close> and \<open>Shutdown\<close> only.\<close>

lemma start_events:
  "Served \<notin> set (snd (InitTracing I t name version))" "Served \<notin> set (snd (postgres_New I W pc))"
  "Served \<notin> set (snd (redis_New I rc))" "Served \<notin> set (DB_Close db)" "Served \<notin> set (snd (run_shutdown I s))"
  "Stopped \<notin> set (snd (InitTracing I t name version))" "Stopped \<notin> set (snd (postgres_New I W pc))"
  "Stopped \<notin> set (snd (redis_New I rc))"
  by (auto simp: lifecycle_defs split: option.splits sum.splits shutdown.splits)

lemma app_New_events:
  assumes "app_New I A cfg log = (r, es)"
  shows "Served \<notin> set es" "\<not> isl r \<Longrightarrow> Stopped \<notin> set es"
proof -
  have "Served \<notin> set es \<and> (isl r \<or> Stopped \<notin> set es)"
    by (cases rule: app_New_cases [where I = I and A = A and cfg = cfg and log = log])
      (use assms in \<open>simp_all add: start_events\<close>)
  then show "Served \<notin> set es" "\<not> isl r \<Longrightarrow> Stopped \<notin> set es" by auto
qed

lemma run_events:
  "Served \<in> set (snd (app_Run I a))" "Stopped \<notin> set (snd (app_Run I a))" "Stopped \<in> set (snd (app_Shutdown I a t))"
  by (auto simp: app_Run_def app_Shutdown_def Let_def split: option.splits prod.splits)

lemma errors_Join_None: "errors_Join es = None \<longleftrightarrow> (\<forall>e \<in> set es. e = None)"
  by (induction es) (auto simp: errors_Join_def List.map_filter_simps split: list.splits option.splits)

lemma leftover_log: "leftover (es @ [Logged m fs]) = leftover es"
  by (simp add: leftover_net net_append net_def)

text \<open>The ways through \<open>run\<close>.\<close>

lemma main_run_cases:
  fixes M :: "(tables, 'r, 'l) process"
  obtains (unstarted) e where "main_run M = (Some e, [])"
  | (bootstrap) cfg e es where "app_New (proc_Infra M) (proc_Platform M) cfg (proc_Logger M) = (Inl e, es)"
      "main_run M = (Some (Wrapped ''bootstrap'' e), es)"
  | (failed) cfg a es e where "Config_Load (proc_Viper M) (lib_W (plat_Libs (proc_Platform M))) (proc_Environ M) = Inr cfg"
      "app_New (proc_Infra M) (proc_Platform M) cfg (proc_Logger M) = (Inr a, es)"
      "proc_Wakeup M = Returned" "main_run M = (Some (Wrapped ''server'' e), es @ snd (app_Run (proc_Infra M) a))"
  | (stopped) cfg a es t fs where "app_New (proc_Infra M) (proc_Platform M) cfg (proc_Logger M) = (Inr a, es)"
      "fst (main_run M) = fst (app_Shutdown (proc_Infra M) a t)"
      "snd (main_run M) = (es @ snd (app_Run (proc_Infra M) a) @ snd (app_Shutdown (proc_Infra M) a t)) @ fs"
      "fs = [] \<or> (\<exists>e. fs = [Logged ''graceful shutdown failed'' [(''error'', FError e)]])"
proof (cases "Config_Load (proc_Viper M) (lib_W (plat_Libs (proc_Platform M))) (proc_Environ M)")
  case (Inl e)
  show thesis by (rule unstarted [of e]) (simp add: main_run_def Let_def Inl)
next
  case cfg: (Inr cfg)
  let ?log = "logger_New (lib_U (plat_Libs (proc_Platform M))) (proc_ParseLevel M) (proc_InfoLevel M) (proc_Build M)
    (tel_LogLevel (cfg_Telemetry cfg)) (app_Name (cfg_App cfg)) (app_Environment (cfg_App cfg))"
  obtain r es where new: "app_New (proc_Infra M) (proc_Platform M) cfg (proc_Logger M) = (r, es)" by fastforce
  show thesis
  proof (cases ?log)
    case (Some e)
    show thesis by (rule unstarted [of e]) (simp add: main_run_def Let_def cfg Some)
  next
    case log: None
    show thesis
    proof (cases r)
      case (Inl e)
      show thesis by (rule bootstrap [of cfg e es]) (simp_all add: main_run_def Let_def cfg log new Inl)
    next
      case (Inr a)
      note start = cfg log new Inr
      obtain served es2 where run: "app_Run (proc_Infra M) a = (served, es2)" by fastforce
      obtain q es3 where shut: "app_Shutdown (proc_Infra M) a (http_ShutdownTimeout (cfg_HTTP cfg)) = (q, es3)" by fastforce
      let ?t = "http_ShutdownTimeout (cfg_HTTP cfg)"
      show thesis
      proof (cases "proc_Wakeup M = Returned \<and> served \<noteq> None")
        case True
        then obtain e where "served = Some e" by blast
        with True show thesis
          by (intro failed [of cfg a es e]) (simp_all add: main_run_def Let_def start run)
      next
        case False
        let ?fs = "case q of None \<Rightarrow> [] | Some e \<Rightarrow> [Logged ''graceful shutdown failed'' [(''error'', FError e)]]"
        have "main_run M = (q, es @ es2 @ es3 @ ?fs)"
          using False by (auto simp: main_run_def Let_def start run shut split: wakeup.splits option.splits)
        then show thesis
          by (intro stopped [of cfg a es ?t ?fs]) (auto simp: start run shut split: option.splits)
      qed
    qed
  qed
qed

lemma main_run_leftover:
  "if main_exit M = 0 then leftover (snd (main_run M)) = {}
   else if Served \<in> set (snd (main_run M)) \<and> Stopped \<notin> set (snd (main_run M))
   then \<exists>cfg e. Config_Load (proc_Viper M) (lib_W (plat_Libs (proc_Platform M))) (proc_Environ M) = Inr cfg \<and>
     fst (main_run M) = Some (Wrapped ''server'' e) \<and>
     leftover (snd (main_run M)) = {Postgres, Redis} \<union> tracing_resources (cfg_Telemetry cfg)
   else leftover (snd (main_run M)) = {} \<or> leftover (snd (main_run M)) = {Exporter} \<and>
     (\<exists>e. fst (main_run M) = Some (Wrapped ''bootstrap'' (Wrapped ''init tracing'' e)))"
proof (cases rule: main_run_cases [of M])
  case (unstarted e)
  then show ?thesis by (simp add: leftover_def)
next
  case (bootstrap cfg e es)
  from app_New_error [OF bootstrap(1)] app_New_events(1) [OF bootstrap(1)] bootstrap(2)
  show ?thesis by (auto simp: main_exit_def)
next
  case (failed cfg a es e)
  have "leftover (es @ snd (app_Run (proc_Infra M) a)) = leftover es"
    using app_Run_opens [of "proc_Infra M" a] by (simp add: leftover_net net_append opens_def)
  then have "leftover (snd (main_run M)) = {Postgres, Redis} \<union> tracing_resources (cfg_Telemetry cfg)"
    using app_lifecycle(1) [OF failed(2)] app_New_tracing [OF failed(2)] failed(4) by simp
  moreover have "Served \<in> set (snd (main_run M))" "Stopped \<notin> set (snd (main_run M))"
    using failed(4) run_events(1,2) [of "proc_Infra M" a] app_New_events(2) [OF failed(2)] by auto
  ultimately show ?thesis using failed(1,4) by (simp add: main_exit_def)
next
  case (stopped cfg a es t fs)
  have "leftover (snd (main_run M)) = {}"
    using stopped(3,4) app_lifecycle(2) [OF stopped(1), of t] by (auto simp: leftover_log simp flip: append_assoc)
  moreover have "Stopped \<in> set (snd (main_run M))" using stopped(3) run_events(3) [of "proc_Infra M" a t] by simp
  ultimately show ?thesis by simp
qed

text \<open>
  When the server itself fails, \<open>run\<close> returns without a shutdown: the connections are left to
  the exit of the process.
\<close>

lemma server_error_skips_shutdown:
  assumes "app_New (proc_Infra M) (proc_Platform M) cfg (proc_Logger M) = (Inr a, es)"
    "Config_Load (proc_Viper M) (lib_W (plat_Libs (proc_Platform M))) (proc_Environ M) = Inr cfg"
    "logger_New (lib_U (plat_Libs (proc_Platform M))) (proc_ParseLevel M) (proc_InfoLevel M) (proc_Build M)
       (tel_LogLevel (cfg_Telemetry cfg)) (app_Name (cfg_App cfg)) (app_Environment (cfg_App cfg)) = None"
    "proc_Wakeup M = Returned" "srv_Serve (proc_Infra M) (srv_Addr (app_server a)) = Some (e, False)"
  shows "{Postgres, Redis} \<subseteq> leftover (snd (main_run M))"
proof -
  have "main_run M = (Some (Wrapped ''server'' (Wrapped ''listen and serve'' e)), es @ snd (app_Run (proc_Infra M) a))"
    using assms by (simp add: main_run_def app_Run_def Let_def)
  moreover have "leftover (es @ snd (app_Run (proc_Infra M) a)) = leftover es"
    using app_Run_opens [of "proc_Infra M" a] by (simp add: leftover_net net_append opens_def)
  ultimately show ?thesis using app_lifecycle(1) [OF assms(1)] by simp
qed

end
