(* ===== verification/StartTheorems.thy ===== *)
theory StartTheorems
  imports App Samples
begin

text \<open>
  The start and the end of the process. What \<open>Load\<close> makes of the environment, the file and the
  defaults: which variables reach the configuration, which never do, and what a process gets that
  sets only the secret it must set. And what is still open when \<open>run\<close> returns.
\<close>

subsection \<open>The defaults\<close>

lemma default_App_values:
  "map_of setDefaults ''app.name'' = Some (VStr ''auth-service'')"
  "map_of setDefaults ''app.environment'' = Some (VStr ''development'')"
  "map_of setDefaults ''app.version'' = Some (VStr ''0.1.0'')"
  by code_simp+

lemma default_HTTP_values:
  "map_of setDefaults ''http.host'' = Some (VStr ''0.0.0.0'')"
  "map_of setDefaults ''http.port'' = Some (VInt 8080)"
  "map_of setDefaults ''http.read_timeout'' = Some (VStr ''15s'')"
  "map_of setDefaults ''http.write_timeout'' = Some (VStr ''15s'')"
  "map_of setDefaults ''http.idle_timeout'' = Some (VStr ''60s'')"
  "map_of setDefaults ''http.shutdown_timeout'' = Some (VStr ''10s'')"
  "map_of setDefaults ''http.allowed_origins'' = Some (VStrs [''http://localhost:3000''])"
  "map_of setDefaults ''http.max_header_bytes'' = Some (VInt 1048576)"
  "map_of setDefaults ''http.trust_proxy'' = Some (VBool False)"
  "map_of setDefaults ''http.metrics_token'' = None"
  by code_simp+

lemma default_Postgres_values:
  "map_of setDefaults ''postgres.host'' = Some (VStr ''localhost'')"
  "map_of setDefaults ''postgres.port'' = Some (VInt 5432)"
  "map_of setDefaults ''postgres.user'' = Some (VStr ''auth'')"
  "map_of setDefaults ''postgres.password'' = Some (VStr ''auth'')"
  "map_of setDefaults ''postgres.database'' = Some (VStr ''auth'')"
  "map_of setDefaults ''postgres.sslmode'' = Some (VStr ''disable'')"
  "map_of setDefaults ''postgres.max_open_conns'' = Some (VInt 25)"
  "map_of setDefaults ''postgres.max_idle_conns'' = Some (VInt 10)"
  "map_of setDefaults ''postgres.conn_max_lifetime'' = Some (VStr ''30m'')"
  "map_of setDefaults ''postgres.conn_max_idle_time'' = Some (VStr ''5m'')"
  by code_simp+

lemma default_Redis_values:
  "map_of setDefaults ''redis.addr'' = Some (VStr ''localhost:6379'')"
  "map_of setDefaults ''redis.db'' = Some (VInt 0)"
  "map_of setDefaults ''redis.pool_size'' = Some (VInt 10)"
  "map_of setDefaults ''redis.min_idle_conns'' = Some (VInt 2)"
  "map_of setDefaults ''redis.dial_timeout'' = Some (VStr ''5s'')"
  "map_of setDefaults ''redis.read_timeout'' = Some (VStr ''3s'')"
  "map_of setDefaults ''redis.write_timeout'' = Some (VStr ''3s'')"
  "map_of setDefaults ''redis.password'' = None"
  by code_simp+

lemma default_JWT_values:
  "map_of setDefaults ''jwt.access_ttl'' = Some (VStr ''15m'')"
  "map_of setDefaults ''jwt.refresh_ttl'' = Some (VStr ''168h'')"
  "map_of setDefaults ''jwt.issuer'' = Some (VStr ''auth-service'')"
  "map_of setDefaults ''jwt.refresh_cookie_name'' = Some (VStr ''refresh_token'')"
  "map_of setDefaults ''jwt.refresh_cookie_secure'' = Some (VBool False)"
  "map_of setDefaults ''jwt.refresh_cookie_domain'' = Some (VStr [])"
  "map_of setDefaults ''jwt.refresh_cookie_path'' = Some (VStr ''/'')"
  "map_of setDefaults ''jwt.refresh_cookie_samesite'' = Some (VStr ''Strict'')"
  "map_of setDefaults ''jwt.access_secret'' = None"
  "map_of setDefaults ''jwt.refresh_secret'' = None"
  by code_simp+

lemma default_Email_values:
  "map_of setDefaults ''email.enabled'' = Some (VBool False)"
  "map_of setDefaults ''email.from'' = Some (VStr [])"
  "map_of setDefaults ''email.verify_link_base'' = Some (VStr ''http://localhost:3000/verify-email'')"
  "map_of setDefaults ''email.reset_link_base'' = Some (VStr ''http://localhost:3000/reset-password'')"
  "map_of setDefaults ''email.per_recipient_limit'' = Some (VInt 5)"
  "map_of setDefaults ''email.per_recipient_window'' = Some (VStr ''1h'')"
  "map_of setDefaults ''email.api_key'' = None"
  by code_simp+

lemma default_Security_values:
  "map_of setDefaults ''security.bcrypt_cost'' = Some (VInt 12)"
  "map_of setDefaults ''security.rate_limit_rpm'' = Some (VInt 120)"
  "map_of setDefaults ''security.login_rate_limit_rpm'' = Some (VInt 10)"
  "map_of setDefaults ''security.register_rate_limit_rpm'' = Some (VInt 30)"
  "map_of setDefaults ''security.refresh_rate_limit_rpm'' = Some (VInt 20)"
  "map_of setDefaults ''security.sensitive_rate_limit_rpm'' = Some (VInt 5)"
  "map_of setDefaults ''security.login_max_attempts'' = Some (VInt 5)"
  "map_of setDefaults ''security.login_lockout_duration'' = Some (VStr ''15m'')"
  by code_simp+

lemma default_Telemetry_values:
  "map_of setDefaults ''telemetry.log_level'' = Some (VStr ''info'')"
  "map_of setDefaults ''telemetry.otlp_insecure'' = Some (VBool True)"
  "map_of setDefaults ''telemetry.tracing_enabled'' = Some (VBool False)"
  "map_of setDefaults ''telemetry.metrics_enabled'' = Some (VBool True)"
  "map_of setDefaults ''telemetry.otlp_endpoint'' = None"
  by code_simp+

lemma literal_durations:
  "map_of duration_literals ''15s'' = Some (15 * second)"
  "map_of duration_literals ''60s'' = Some (60 * second)"
  "map_of duration_literals ''10s'' = Some (10 * second)"
  "map_of duration_literals ''30m'' = Some (30 * minute)"
  "map_of duration_literals ''5m'' = Some (5 * minute)"
  "map_of duration_literals ''5s'' = Some (5 * second)"
  "map_of duration_literals ''3s'' = Some (3 * second)"
  "map_of duration_literals ''15m'' = Some (15 * minute)"
  "map_of duration_literals ''168h'' = Some (168 * hour)"
  "map_of duration_literals ''1h'' = Some (hour)"
  by (simp_all add: duration_literals_def)

subsection \<open>Unmarshalling the defaults\<close>

text \<open>\<open>defaults_but s g\<close>: the access secret is \<open>s\<close>, every other key has its default.\<close>

definition defaults_but :: "string \<Rightarrow> (string \<Rightarrow> cfg_value option) \<Rightarrow> bool" where
  "defaults_but s g \<longleftrightarrow> g ''jwt.access_secret'' = Some (VStr s) \<and>
     (\<forall>k. k \<noteq> ''jwt.access_secret'' \<longrightarrow> g k = map_of setDefaults k)"

definition default_config_with :: "string \<Rightarrow> Config" where
  "default_config_with s = default_config\<lparr>cfg_JWT := (cfg_JWT default_config)\<lparr>jwt_AccessSecret := s\<rparr>\<rparr>"

lemma defaults_but_simps:
  assumes "defaults_but s g"
  shows "g ''jwt.access_secret'' = Some (VStr s)" "k \<noteq> ''jwt.access_secret'' \<Longrightarrow> g k = map_of setDefaults k"
  using assms by (simp_all add: defaults_but_def)

context viper_spec
begin

lemmas default_durations = duration_of_literal [OF literal_durations(1)]
  duration_of_literal [OF literal_durations(2)]
  duration_of_literal [OF literal_durations(3)]
  duration_of_literal [OF literal_durations(4)]
  duration_of_literal [OF literal_durations(5)]
  duration_of_literal [OF literal_durations(6)]
  duration_of_literal [OF literal_durations(7)]
  duration_of_literal [OF literal_durations(8)]
  duration_of_literal [OF literal_durations(9)]
  duration_of_literal [OF literal_durations(10)]

lemma unmarshal_default_App:
  assumes "defaults_but s g"
  shows "unmarshal_App X g = Some (cfg_App (default_config_with s))"
  by (simp add: unmarshal_App_def setting_def defaults_but_simps [OF assms] default_App_values conversions
      default_durations default_config_with_def default_config_def)

lemma unmarshal_default_HTTP:
  assumes "defaults_but s g"
  shows "unmarshal_HTTP X g = Some (cfg_HTTP (default_config_with s))"
  by (simp add: unmarshal_HTTP_def setting_def defaults_but_simps [OF assms] default_HTTP_values conversions
      default_durations default_config_with_def default_config_def)

lemma unmarshal_default_Postgres:
  assumes "defaults_but s g"
  shows "unmarshal_Postgres X g = Some (cfg_Postgres (default_config_with s))"
  by (simp add: unmarshal_Postgres_def setting_def defaults_but_simps [OF assms] default_Postgres_values conversions
      default_durations default_config_with_def default_config_def)

lemma unmarshal_default_Redis:
  assumes "defaults_but s g"
  shows "unmarshal_Redis X g = Some (cfg_Redis (default_config_with s))"
  by (simp add: unmarshal_Redis_def setting_def defaults_but_simps [OF assms] default_Redis_values conversions
      default_durations default_config_with_def default_config_def)

lemma unmarshal_default_JWT:
  assumes "defaults_but s g"
  shows "unmarshal_JWT X g = Some (cfg_JWT (default_config_with s))"
  by (simp add: unmarshal_JWT_def setting_def defaults_but_simps [OF assms] default_JWT_values conversions
      default_durations default_config_with_def default_config_def)

lemma unmarshal_default_Email:
  assumes "defaults_but s g"
  shows "unmarshal_Email X g = Some (cfg_Email (default_config_with s))"
  by (simp add: unmarshal_Email_def setting_def defaults_but_simps [OF assms] default_Email_values conversions
      default_durations default_config_with_def default_config_def)

lemma unmarshal_default_Security:
  assumes "defaults_but s g"
  shows "unmarshal_Security X g = Some (cfg_Security (default_config_with s))"
  by (simp add: unmarshal_Security_def setting_def defaults_but_simps [OF assms] default_Security_values conversions
      default_durations default_config_with_def default_config_def)

lemma unmarshal_default_Telemetry:
  assumes "defaults_but s g"
  shows "unmarshal_Telemetry X g = Some (cfg_Telemetry (default_config_with s))"
  by (simp add: unmarshal_Telemetry_def setting_def defaults_but_simps [OF assms] default_Telemetry_values conversions
      default_durations default_config_with_def default_config_def)

lemma unmarshal_defaults:
  assumes "defaults_but s g"
  shows "viper_Unmarshal X g = Some (default_config_with s)"
  by (simp add: viper_Unmarshal_def unmarshal_default_App [OF assms] unmarshal_default_HTTP [OF assms]
      unmarshal_default_Postgres [OF assms] unmarshal_default_Redis [OF assms] unmarshal_default_JWT [OF assms]
      unmarshal_default_Email [OF assms] unmarshal_default_Security [OF assms] unmarshal_default_Telemetry [OF assms])

end

subsection \<open>The names of the variables\<close>

definition var_name :: "string \<Rightarrow> string" where
  "var_name key = ''AUTH_'' @ map (\<lambda>c. if c = CHR ''.'' then CHR ''_'' else c) (map upper_ascii key)"

lemma env_name_the_viper: "env_name (the_viper X) key = var_name key"
proof -
  have "map upper_ascii ''AUTH_'' = ''AUTH_''" by code_simp
  then show ?thesis by (simp add: env_name_def var_name_def)
qed

lemma no_file:
  "viper_ReadInConfig X = (\<lambda>v. []) \<Longrightarrow> vp_Config (the_viper X) = []"
  by (simp add: the_viper_def Let_def)

lemma known_keys_the_viper:
  assumes "viper_ReadInConfig X = (\<lambda>v. [])"
  shows "set (known_keys (the_viper X)) = set (map fst setDefaults @ extra_keys)"
  unfolding known_keys_def no_file [OF assms] the_viper_simps set_append by simp

text \<open>
  \<open>only_secret_set env s\<close>: of the variables \<open>Load\<close> reads, the one of the access secret holds \<open>s\<close>
  and the others are unset.
\<close>

definition only_secret_set :: "environ \<Rightarrow> string \<Rightarrow> bool" where
  "only_secret_set env s \<longleftrightarrow> s \<noteq> [] \<and> env (var_name ''jwt.access_secret'') = Some s \<and>
     (\<forall>k \<in> set (map fst setDefaults @ extra_keys).
        (k \<noteq> ''jwt.access_secret'' \<longrightarrow> env (var_name k) = None) \<and> env (var_name (section_of k)) = None)"

lemma secret_known: "''jwt.access_secret'' \<in> set (map fst setDefaults @ extra_keys)"
  by (simp add: extra_keys_def)

lemma only_secret_value:
  assumes "only_secret_set env s" "k \<in> set (map fst setDefaults @ extra_keys)"
  shows "env_value env (the_viper X) k = (if k = ''jwt.access_secret'' then Some (VStr s) else None)"
    "env_value env (the_viper X) (section_of k) = None"
proof -
  from assms have "k \<noteq> ''jwt.access_secret'' \<longrightarrow> env (var_name k) = None" "env (var_name (section_of k)) = None"
    "env (var_name ''jwt.access_secret'') = Some s" "s \<noteq> []"
    unfolding only_secret_set_def by blast+
  then show "env_value env (the_viper X) k = (if k = ''jwt.access_secret'' then Some (VStr s) else None)"
    "env_value env (the_viper X) (section_of k) = None"
    by (simp_all add: env_value_def env_name_the_viper)
qed

context viper_spec
begin

lemma get_defaults_but:
  assumes "only_secret_set env s" "viper_ReadInConfig X = (\<lambda>v. [])"
  shows "defaults_but s (viper_Get X env (the_viper X))"
proof -
  note known = known_keys_the_viper [OF assms(2)]
  have no_default: "map_of setDefaults k = None" if "k \<notin> set (known_keys (the_viper X))" for k
    using that by (simp add: known map_of_eq_None_iff)
  have get: "viper_Get X env (the_viper X) k = (if k = ''jwt.access_secret'' then Some (VStr s) else map_of setDefaults k)"
    if k: "k \<in> set (known_keys (the_viper X))" for k
  proof -
    note val = only_secret_value [OF assms(1) k [unfolded known], of X]
    have "\<not> shadowed env (the_viper X) k"
      unfolding shadowed_def no_file [OF assms(2)] val(2) by simp
    with k show ?thesis by (simp add: get_known effective_def val(1) no_file [OF assms(2)])
  qed
  have "''jwt.access_secret'' \<in> set (known_keys (the_viper X))"
    unfolding known by (rule secret_known)
  then have "viper_Get X env (the_viper X) ''jwt.access_secret'' = Some (VStr s)" by (simp add: get)
  moreover have "viper_Get X env (the_viper X) k = map_of setDefaults k" if "k \<noteq> ''jwt.access_secret''" for k
    by (cases "k \<in> set (known_keys (the_viper X))") (use that in \<open>simp_all add: get no_default get_unknown\<close>)
  ultimately show ?thesis by (simp add: defaults_but_def)
qed

lemma load_only_secret:
  assumes "only_secret_set (godotenv_Load X os) s" "viper_ReadInConfig X = (\<lambda>v. [])"
  shows "Config_Load X W os = (if length s < 32
     then Inl (ErrOther ''jwt.access_secret must be at least 32 characters'')
     else Inr (default_config_with s))"
proof -
  have dev: "\<not> EqualFold ''development'' ''production''" by code_simp
  have itoa: "itoa 32 = ''32''" by code_simp
  have "Config_Validate W (default_config_with s) = (if length s < 32
     then Inl (ErrOther ''jwt.access_secret must be at least 32 characters'') else Inr ())"
    by (simp add: Config_Validate_def check_production_def IsProduction_def dev check_email_def requireMinLen_def
        require_def and_then_def limits_of_def default_config_with_def default_config_def itoa)
  then show ?thesis
    by (simp add: Config_Load_def unmarshal_defaults [OF get_defaults_but [OF assms]])
qed

end

subsection \<open>Properties of Load\<close>

text \<open>The settings \<open>Load\<close> gives neither a default nor a bound variable.\<close>

definition unbound_keys :: "string list" where
  "unbound_keys = [''http.metrics_token'', ''redis.password'', ''telemetry.otlp_endpoint'']"

lemma string_settings_keys:
  "map fst string_settings = [''app.name'', ''app.environment'', ''app.version'', ''http.host'', ''http.metrics_token'', ''postgres.host'',
       ''postgres.user'', ''postgres.password'', ''postgres.database'', ''postgres.sslmode'', ''redis.addr'',
       ''redis.password'', ''jwt.access_secret'', ''jwt.refresh_secret'', ''jwt.issuer'', ''jwt.refresh_cookie_name'',
       ''jwt.refresh_cookie_domain'', ''jwt.refresh_cookie_path'', ''jwt.refresh_cookie_samesite'', ''email.api_key'',
       ''email.from'', ''email.verify_link_base'', ''email.reset_link_base'', ''telemetry.log_level'',
       ''telemetry.otlp_endpoint'']"
  by (simp add: string_settings_def)

lemma string_keys_bound:
  assumes "(key, f) \<in> set string_settings" "key \<notin> set unbound_keys"
  shows "key \<in> set (map fst setDefaults @ extra_keys)"
proof -
  have keys: "list_all (\<lambda>k. k \<in> set unbound_keys \<or> k \<in> set (map fst setDefaults @ extra_keys))
      [''app.name'', ''app.environment'', ''app.version'', ''http.host'', ''http.metrics_token'', ''postgres.host'',
       ''postgres.user'', ''postgres.password'', ''postgres.database'', ''postgres.sslmode'', ''redis.addr'',
       ''redis.password'', ''jwt.access_secret'', ''jwt.refresh_secret'', ''jwt.issuer'', ''jwt.refresh_cookie_name'',
       ''jwt.refresh_cookie_domain'', ''jwt.refresh_cookie_path'', ''jwt.refresh_cookie_samesite'', ''email.api_key'',
       ''email.from'', ''email.verify_link_base'', ''email.reset_link_base'', ''telemetry.log_level'',
       ''telemetry.otlp_endpoint'']"
    by code_simp
  from assms(1) have "key \<in> set (map fst string_settings)" by force
  with keys assms(2) show ?thesis
    unfolding string_settings_keys [symmetric] list_all_iff by blast
qed

lemma unbound_keys_unknown:
  "key \<in> set unbound_keys \<Longrightarrow> key \<notin> set (map fst setDefaults @ extra_keys)"
proof -
  have "list_all (\<lambda>k. k \<notin> set (map fst setDefaults @ extra_keys)) unbound_keys" by code_simp
  then show "key \<in> set unbound_keys \<Longrightarrow> key \<notin> set (map fst setDefaults @ extra_keys)"
    unfolding list_all_iff by blast
qed

text \<open>
  C23. A variable of the process decides: when \<open>Load\<close> succeeds, every text setting whose
  \<open>AUTH_\<close> variable the process was started with, and not empty, has that value, whatever \<open>.env\<close>,
  the file and the defaults say, unless the section of the setting itself has a value in the
  environment or in the file (\<open>AUTH_JWT\<close>, or a scalar \<open>jwt\<close>, hides everything below \<open>jwt\<close>); three
  settings have no such variable.
\<close>

theorem environment_wins:
  assumes "viper_spec X" "Config_Load X W os = Inr cfg"
    and "(key, f) \<in> set string_settings" "key \<notin> set unbound_keys"
    and "\<not> shadowed (godotenv_Load X os) (the_viper X) key"
    and "os (var_name key) = Some s" "s \<noteq> []"
  shows "f cfg = s"
proof -
  have "godotenv_Load X os (env_name (the_viper X) key) = Some s"
    using viper_spec.dotenv_keeps [OF assms(1)] assms(6) by (simp add: env_name_the_viper)
  moreover have "key \<in> set (vp_BoundEnv (the_viper X))"
    using string_keys_bound [OF assms(3,4)] by simp
  ultimately have "viper_Get X (godotenv_Load X os) (the_viper X) key = Some (VStr s)"
    using viper_spec.get_env [OF assms(1,5)] assms(7) by blast
  with loaded_string [OF assms(2,3)] show ?thesis
    by (simp add: setting_def viper_spec.string_of_string [OF assms(1)])
qed

text \<open>
  C25. Three variables that \<open>.env.example\<close> documents have no effect: unless the file sets them,
  the Redis password, the metrics token and the OTLP endpoint are empty, whatever
  \<open>AUTH_REDIS_PASSWORD\<close>, \<open>AUTH_HTTP_METRICS_TOKEN\<close> and \<open>AUTH_TELEMETRY_OTLP_ENDPOINT\<close> hold,
  because \<open>Load\<close> neither binds these keys nor gives them a default.
\<close>

theorem documented_variables_ignored:
  assumes "viper_spec X" "Config_Load X W os = Inr cfg"
    and "(key, f) \<in> set string_settings" "key \<in> set unbound_keys"
    and "key \<notin> fst ` set (vp_Config (the_viper X))"
  shows "f cfg = []"
proof -
  have "key \<notin> set (known_keys (the_viper X))"
    using unbound_keys_unknown [OF assms(4)] assms(5) by (auto simp: known_keys_def)
  with loaded_string [OF assms(2,3)] show ?thesis
    by (simp add: setting_def viper_spec.get_unknown [OF assms(1)])
qed

text \<open>
  A process that sets nothing but the secret of its access tokens starts with the defaults,
  and only with a secret of at least 32 bytes.
\<close>

theorem load_defaults:
  assumes "viper_spec X" "only_secret_set (godotenv_Load X os) s" "viper_ReadInConfig X = (\<lambda>v. [])"
  shows "Config_Load X W os = (if length s < 32
     then Inl (ErrOther ''jwt.access_secret must be at least 32 characters'')
     else Inr (default_config_with s))"
  by (rule viper_spec.load_only_secret [OF assms])

text \<open>
  C26. What is open when \<open>run\<close> returns. When the process exits with 0: nothing. When the server
  itself failed, so that there was no shutdown: exactly what \<open>app.New\<close> had opened for the loaded
  configuration, the two connections and, with tracing on, its provider and exporter. After any
  other error, at whatever step of the start or of the shutdown: nothing, but for the exporter of
  the traces when setting up tracing failed.
\<close>

theorem app_releases_resources:
  "if main_exit M = 0 then leftover (snd (main_run M)) = {}
   else if Served \<in> set (snd (main_run M)) \<and> Stopped \<notin> set (snd (main_run M))
   then \<exists>cfg e. Config_Load (proc_Viper M) (lib_W (plat_Libs (proc_Platform M))) (proc_Environ M) = Inr cfg \<and>
     fst (main_run M) = Some (Wrapped ''server'' e) \<and>
     leftover (snd (main_run M)) = {Postgres, Redis} \<union>
       (if tel_TracingEnabled (cfg_Telemetry cfg) \<and> tel_OTLPEndpoint (cfg_Telemetry cfg) \<noteq> []
        then {Tracing, Exporter} else {})
   else leftover (snd (main_run M)) = {} \<or> leftover (snd (main_run M)) = {Exporter} \<and>
     (\<exists>e. fst (main_run M) = Some (Wrapped ''bootstrap'' (Wrapped ''init tracing'' e)))"
  using main_run_leftover [of M] unfolding tracing_resources_def .

subsection \<open>Samples\<close>

text \<open>A process with the secret set and, in vain, the password of the Redis server.\<close>

definition ex_secret :: string where
  "ex_secret = replicate 32 (CHR ''k'')"

definition ex_environ :: environ where
  "ex_environ = [''AUTH_JWT_ACCESS_SECRET'' \<mapsto> ex_secret, ''AUTH_REDIS_PASSWORD'' \<mapsto> ''hunter2'']"

definition ex_viper :: viper_lib where
  "ex_viper = list_viper [] (\<lambda>_. None)"

interpretation ex_viper: viper_spec ex_viper
  unfolding ex_viper_def by (rule list_viper.viper_spec_axioms)

lemma length_var_name: "length (var_name key) = 5 + length key"
  by (simp add: var_name_def)

lemma keys_of_length:
  "filter (\<lambda>k. length k = 14 \<or> length k = 17) (map fst setDefaults @ extra_keys) =
     [''http.read_timeout'', ''http.idle_timeout'', ''postgres.password'', ''postgres.database'', ''jwt.access_ttl'', ''jwt.access_secret'']"
  "list_all (\<lambda>k. length (section_of k) < 10) (map fst setDefaults @ extra_keys)"
  by code_simp+

lemma ex_environ_unset: "length x \<noteq> 19 \<Longrightarrow> length x \<noteq> 22 \<Longrightarrow> ex_environ x = None"
  by (auto simp: ex_environ_def)

lemma ex_environ_only: "only_secret_set (godotenv_Load ex_viper ex_environ) ex_secret"
proof -
  have env: "godotenv_Load ex_viper ex_environ = ex_environ"
    by (auto simp: ex_viper_def fun_eq_iff split: option.splits)
  have "list_all (\<lambda>k. ex_environ (var_name k) = None)
      [''http.read_timeout'', ''http.idle_timeout'', ''postgres.password'', ''postgres.database'', ''jwt.access_ttl'']"
    by (simp add: ex_environ_def var_name_def upper_ascii_def)
  then have long: "ex_environ (var_name k) = None"
    if "k \<in> set (map fst setDefaults @ extra_keys)" "length k = 14 \<or> length k = 17" "k \<noteq> ''jwt.access_secret''" for k
  proof -
    from that(1,2) have "k \<in> set (filter (\<lambda>k. length k = 14 \<or> length k = 17) (map fst setDefaults @ extra_keys))"
      by (simp only: set_filter mem_Collect_eq)
    with \<open>list_all _ _\<close> that(3) show ?thesis unfolding keys_of_length(1) by auto
  qed
  have "ex_environ (var_name k) = None"
    if "k \<in> set (map fst setDefaults @ extra_keys)" "k \<noteq> ''jwt.access_secret''" for k
    using long [OF that(1) _ that(2)] ex_environ_unset [of "var_name k"] by (auto simp: length_var_name)
  moreover have "ex_environ (var_name (section_of k)) = None"
    if "k \<in> set (map fst setDefaults @ extra_keys)" for k
    using that keys_of_length(2) ex_environ_unset [of "var_name (section_of k)"]
    by (auto simp: length_var_name list_all_iff simp del: set_map set_append)
  moreover have "ex_environ (var_name ''jwt.access_secret'') = Some ex_secret"
    by (simp add: ex_environ_def var_name_def upper_ascii_def)
  moreover have "ex_secret \<noteq> []" by (simp add: ex_secret_def)
  ultimately show ?thesis unfolding only_secret_set_def env by blast
qed

lemma ex_load: "Config_Load ex_viper W ex_environ = Inr (default_config_with ex_secret)"
  using ex_viper.load_only_secret [OF ex_environ_only] by (simp add: ex_viper_def ex_secret_def)

text \<open>The properties at the sample process.\<close>

lemma secret_setting: "(''jwt.access_secret'', \<lambda>c. jwt_AccessSecret (cfg_JWT c)) \<in> set string_settings"
  "(''redis.password'', \<lambda>c. redis_Password (cfg_Redis c)) \<in> set string_settings"
  by (simp_all add: string_settings_def)

theorem environment_wins_witness:
  "jwt_AccessSecret (cfg_JWT (default_config_with ex_secret)) = ex_secret"
proof (rule environment_wins [OF ex_viper.viper_spec_axioms ex_load secret_setting(1)])
  show "''jwt.access_secret'' \<notin> set unbound_keys" by (simp add: unbound_keys_def)
  show "\<not> shadowed (godotenv_Load ex_viper ex_environ) (the_viper ex_viper) ''jwt.access_secret''"
    using only_secret_value(2) [OF ex_environ_only secret_known]
    by (simp add: shadowed_def no_file ex_viper_def)
  show "ex_environ (var_name ''jwt.access_secret'') = Some ex_secret"
    by (simp add: ex_environ_def var_name_def upper_ascii_def)
  show "ex_secret \<noteq> []" by (simp add: ex_secret_def)
qed

theorem documented_variables_ignored_witness:
  "ex_environ ''AUTH_REDIS_PASSWORD'' = Some ''hunter2'' \<and> redis_Password (cfg_Redis (default_config_with ex_secret)) = []"
proof
  show "ex_environ ''AUTH_REDIS_PASSWORD'' = Some ''hunter2''" by (simp add: ex_environ_def)
  show "redis_Password (cfg_Redis (default_config_with ex_secret)) = []"
    by (rule documented_variables_ignored [OF ex_viper.viper_spec_axioms ex_load secret_setting(2)])
      (simp_all add: unbound_keys_def no_file ex_viper_def)
qed

theorem load_defaults_witness:
  "Config_Load ex_viper ex_url ex_environ = Inr (default_config_with ex_secret)"
  using load_defaults [OF ex_viper.viper_spec_axioms ex_environ_only, of ex_url]
  by (simp add: ex_viper_def ex_secret_def)

end
