(* ===== verification/Bounded.thy ===== *)
theory Bounded
  imports System
begin

text \<open>
  How long an operation takes. \<open>within n m\<close>: the action \<open>m\<close> ends after at most \<open>n\<close> interactions with
  the outside world, and the clock moves by the time these interactions took and by nothing else.
  The rules add up sequences and take the longer branch, so the bound of an operation is computed
  from its definition; no loop of the service waits for anything.
\<close>

definition took :: "nat \<Rightarrow> ('d, 'r) world \<Rightarrow> ('d, 'r) world \<Rightarrow> bool" where
  "took n w w' \<longleftrightarrow> w_env w' = w_env w \<and> w_ticks w \<le> w_ticks w' \<and> w_ticks w' \<le> w_ticks w + n \<and>
     w_clock w' = w_clock w + (\<Sum>i \<in> {w_ticks w ..< w_ticks w'}. int (delay_at (w_env w) i))"

definition within :: "nat \<Rightarrow> (('d, 'r) world, 'a) state \<Rightarrow> bool" where
  "within n m \<longleftrightarrow> (\<forall>w. took n w (snd (run_state m w)))"

named_theorems within_intros "how many interactions a piece of a program takes"

lemma withinD: "within n m \<Longrightarrow> run_state m w = (r, w') \<Longrightarrow> took n w w'"
  unfolding within_def by (metis snd_conv)

lemma took_refl: "took 0 w w"
  by (simp add: took_def)

lemma took_trans:
  assumes "took m u v" "took n v w"
  shows "took (m + n) u w"
proof -
  let ?f = "\<lambda>i. int (delay_at (w_env u) i)"
  have "(\<Sum>i \<in> {w_ticks u ..< w_ticks w}. ?f i) =
      (\<Sum>i \<in> {w_ticks u ..< w_ticks v}. ?f i) + (\<Sum>i \<in> {w_ticks v ..< w_ticks w}. ?f i)"
    using assms by (intro sum.atLeastLessThan_concat [symmetric]) (simp_all add: took_def)
  with assms show ?thesis by (auto simp: took_def)
qed

lemma took_mono: "took m u v \<Longrightarrow> m \<le> n \<Longrightarrow> took n u v"
  by (auto simp: took_def)

lemma took_advance:
  assumes "w_env w' = w_env w" "w_ticks w' = Suc (w_ticks w)" "w_clock w' = w_clock (advance w)"
  shows "took (Suc 0) w w'"
  using assms by (simp add: took_def)

lemma within_mono: "within m p \<Longrightarrow> m \<le> n \<Longrightarrow> within n p"
  unfolding within_def by (blast intro: took_mono)

subsection \<open>Control\<close>

lemma within_return [within_intros]: "within 0 (State_Monad.return x)"
  by (simp add: within_def took_refl)

lemma within_results [within_intros]: "within 0 (ok x)" "within 0 (fail e)" "within 0 (pure_call r)"
  by (simp_all add: ok_def fail_def pure_call_def within_return)

lemma within_bind [within_intros]:
  assumes "within m p" "\<And>x. within n (k x)"
  shows "within (m + n) (State_Monad.bind p k)"
  unfolding within_def
proof
  fix w
  obtain x w1 where p: "run_state p w = (x, w1)" by fastforce
  obtain y w2 where k: "run_state (k x) w1 = (y, w2)" by fastforce
  from took_trans [OF withinD [OF assms(1) p] withinD [OF assms(2) k]] p k
  show "took (m + n) w (snd (run_state (State_Monad.bind p k) w))" by simp
qed

lemma within_max: "within m p \<Longrightarrow> within (max m n) p" "within n p \<Longrightarrow> within (max m n) p"
  by (rule within_mono, assumption, simp)+

lemma within_if [within_intros]: "within m p \<Longrightarrow> within n q \<Longrightarrow> within (max m n) (if b then p else q)"
  by (simp add: within_max)

lemma within_option [within_intros]:
  "within m p \<Longrightarrow> (\<And>x. within n (q x)) \<Longrightarrow> within (max m n) (case r of None \<Rightarrow> p | Some x \<Rightarrow> q x)"
  by (cases r) (simp_all add: within_max)

lemma within_sum [within_intros]:
  "(\<And>e. within m (p e)) \<Longrightarrow> (\<And>x. within n (q x)) \<Longrightarrow> within (max m n) (case r of Inl e \<Rightarrow> p e | Inr x \<Rightarrow> q x)"
  by (cases r) (simp_all add: within_max)

lemma within_prod [within_intros]: "(\<And>x y. within n (p x y)) \<Longrightarrow> within n (case r of (x, y) \<Rightarrow> p x y)"
  by (cases r) simp

lemma within_let [within_intros]: "(\<And>x. within n (p x)) \<Longrightarrow> within n (let x = v in p x)"
  by (simp add: Let_def)

lemma within_or_return [within_intros]:
  assumes "within m p" "\<And>x. within n (k x)"
  shows "within (m + n) (or_return p k)"
proof -
  have "within (m + max 0 n) (or_return p k)"
    unfolding or_return_def by (intro within_intros assms)
  then show ?thesis by simp
qed

lemma within_ignoring [within_intros]: "within m p \<Longrightarrow> within n q \<Longrightarrow> within (m + n) (ignoring p q)"
  unfolding ignoring_def by (intro within_intros)

lemma within_guard [within_intros]: "within n p \<Longrightarrow> within n (guard_err b e p)"
  using within_if [OF within_return, of n p b] by (simp add: guard_err_def)

subsection \<open>Interactions\<close>

lemma within_world [within_intros]:
  "within 1 time_Now" "within 1 uuid_New" "within 1 (rand_Read n)" "within 1 (ext_call f)"
  "within 1 (pg_stmt g)" "within 1 (on_redis m)" "within 1 (send_mail from msg)" "within 1 (tx_stmt h tx)"
  unfolding within_def
  by (auto simp: run_simps run_pg_stmt send_mail_def tx_stmt_def Let_def intro!: took_advance
      split: prod.splits fate.splits)

lemma within_query [within_intros]: "within 1 (pg_query f)"
  unfolding pg_query_def by (rule within_world)

subsection \<open>The parts of the service\<close>

lemmas interaction_defs = token_Random_def password_Hash_def jwt_IssueAccess_def jwt_ParseAccess_def
  resend_Send_def UserRepo_CreateWithRole_def UserRepo_GetByEmail_def UserRepo_scanOne_def
  UserRepo_UpdatePassword_def UserRepo_MarkEmailVerified_def UserRepo_GetAuthProfile_def
  RefreshRepo_Save_def RefreshRepo_GetByHash_def RefreshRepo_GetRevokedFamily_def
  RefreshRepo_Revoke_def RefreshRepo_RevokeFamily_def RefreshRepo_RevokeAllForUser_def
  OneTimeRepo_Create_def OneTimeRepo_Consume_def AuditRepo_Log_def pg_begin_def pg_commit_def

lemma within_tokens [within_intros]:
  "within 1 (token_Random n)" "within 1 (password_Hash C p cost)"
  "within 2 (jwt_IssueAccess J V s i)" "within 1 (jwt_ParseAccess J s raw)" "within 1 (resend_Send from msg)"
  unfolding interaction_defs
  by (rule within_mono, (rule within_intros)+, simp)+

lemma within_repos [within_intros]:
  "within 4 (UserRepo_CreateWithRole P e h r)" "within 1 (UserRepo_GetByEmail P e)" "within 1 (UserRepo_UpdatePassword u h)"
  "within 1 (UserRepo_MarkEmailVerified u)" "within 1 (UserRepo_GetAuthProfile P u)"
  "within 1 (RefreshRepo_Save rec)" "within 1 (RefreshRepo_GetByHash h)" "within 1 (RefreshRepo_GetRevokedFamily h)"
  "within 1 (RefreshRepo_Revoke h)" "within 1 (RefreshRepo_RevokeFamily f)" "within 1 (RefreshRepo_RevokeAllForUser u)"
  "within 1 (OneTimeRepo_Create tab u h t)" "within 1 (OneTimeRepo_Consume tab h)" "within 1 (AuditRepo_Log P a)"
  unfolding interaction_defs
  by (rule within_mono, (rule within_intros)+, simp)+

lemma within_stores [within_intros]:
  "within 1 (SessionStore_Save c V J s ttl)" "within 1 (SessionStore_Delete c V i u)"
  "within 2 (SessionStore_DeleteAllForUser c V u)" "within 1 (Blacklist_add c jti ttl)"
  "within 1 (Blacklist_exists c jti)" "within 1 (Lockout_IsLocked c k)" "within 2 (Lockout_RecordFailure c k m d)"
  "within 1 (Lockout_clear c k)" "within 1 (RateLimiter_Allow c k m d)"
  unfolding redis_store_defs
  by (rule within_mono, (rule within_intros)+, simp)+

lemma within_mailer: "within 1 (case app_mailer cfg of None \<Rightarrow> ok () | Some m \<Rightarrow> Send m msg)"
  by (auto simp: app_mailer_def resend_Mailer_def intro!: within_tokens(5) [simplified] within_mono [OF within_results(1)])

lemma within_helpers [within_intros]:
  fixes L P c M cfg
  defines "s \<equiv> app_auth L P c M cfg"
  shows "within 1 (logAudit L s u a ip ua m)" "within 3 (failLogin L s email ip ua)"
    "within 3 (revokeAllSessions s uid)" "within 3 (issueOneTime L (OneTimeRepo tab) uid ttl)"
    "within 8 (issueTokens L s uid sid fid)" "within 1 (consumeEmailQuota L s email)"
    "within 1 (sendActionEmail L s email raw kind)" "within 0 (require_input L fs)"
  unfolding s_def logAudit_def failLogin_def revokeAllSessions_def issueOneTime_def issueTokens_def
    consumeEmailQuota_def sendTransactional_def sendActionEmail_def require_input_def wired_simps Let_def
  by (rule within_mono, (rule within_mailer within_intros)+, simp)+

subsection \<open>The operations\<close>

text \<open>The longest is a login: fourteen interactions.\<close>

lemma within_operations:
  fixes L P c M cfg
  defines "s \<equiv> app_auth L P c M cfg"
  shows "within 11 (Register L s ri ip ua)" "within 14 (Login L s li ip ua)" "within 11 (Refresh L s raw ip ua)"
    "within 5 (Logout L s uid sid jti exp raw ip ua)" "within 4 (LogoutAll L s uid)" "within 7 (ForgotPassword L s fi)"
    "within 7 (ResetPassword L s pi)" "within 3 (VerifyEmail L s ti)" "within 1 (GetProfile s uid)"
    "within 2 (ParseAccess L s raw)"
  unfolding s_def usecase_defs wired_simps Let_def
  by (rule within_mono, (rule within_intros)+, simp)+

text \<open>The bound of each operation of the running system, and of a sequence of them.\<close>

fun op_bound :: "operation \<Rightarrow> nat" where
  "op_bound (OpRegister i ip ua) = 11"
| "op_bound (OpLogin i ip ua) = 14"
| "op_bound (OpRefresh raw ip ua) = 11"
| "op_bound (OpLogout u sid jti exp raw ip ua) = 5"
| "op_bound (OpLogoutAll u) = 4"
| "op_bound (OpForgotPassword i) = 7"
| "op_bound (OpResetPassword i) = 7"
| "op_bound (OpVerifyEmail i) = 3"
| "op_bound (OpGetProfile u) = 1"
| "op_bound (OpParseAccess raw) = 2"
| "op_bound (OpRateLimit k n d) = 1"
| "op_bound OpWait = 1"

lemma within_finish: "within n m \<Longrightarrow> within n (finish m)"
  using within_bind [OF _ within_return, of n m "\<lambda>_. ()"] by (simp add: finish_def)

lemma within_perform: "within (op_bound op) (perform L (app_auth L P c M cfg) op)"
  by (cases op)
    (simp_all only: perform.simps op_bound.simps wired_simps within_finish [OF within_operations(1)]
      within_finish [OF within_operations(2)] within_finish [OF within_operations(3)]
      within_finish [OF within_operations(4)] within_finish [OF within_operations(5)]
      within_finish [OF within_operations(6)] within_finish [OF within_operations(7)]
      within_finish [OF within_operations(8)] within_finish [OF within_operations(9)]
      within_finish [OF within_operations(10)] within_finish [OF within_stores(9)] within_finish [OF within_world(1)])

lemma runs_took:
  "runs L (app_auth L P c M cfg) w ops w' \<Longrightarrow> took (sum_list (map op_bound ops)) w w'"
proof (induction rule: runs.induct)
  case (operate ops w1 op u w2)
  from took_trans [OF operate.IH withinD [OF within_perform operate.hyps(2)]] show ?case by simp
qed (simp add: took_refl)

text \<open>In time: when no interaction takes longer than \<open>d\<close>, \<open>n\<close> of them take at most \<open>n * d\<close>.\<close>

lemma took_time:
  assumes "took n w w'" "\<And>i. int (delay_at (w_env w) i) \<le> d"
  shows "w_clock w' \<le> w_clock w + int n * d"
proof -
  from assms(1) have t: "w_ticks w' - w_ticks w \<le> n"
    "w_clock w' = w_clock w + (\<Sum>i \<in> {w_ticks w ..< w_ticks w'}. int (delay_at (w_env w) i))"
    by (auto simp: took_def)
  have "0 \<le> d" using assms(2) [of 0] by simp
  have "(\<Sum>i \<in> {w_ticks w ..< w_ticks w'}. int (delay_at (w_env w) i)) \<le> (\<Sum>i \<in> {w_ticks w ..< w_ticks w'}. d)"
    by (rule sum_mono) (rule assms(2))
  also have "\<dots> = int (w_ticks w' - w_ticks w) * d" by simp
  also have "\<dots> \<le> int n * d" using t(1) \<open>0 \<le> d\<close> by (intro mult_right_mono) simp_all
  finally show ?thesis using t(2) by simp
qed

end
