(* ===== verification/Liveness.thy ===== *)
theory Liveness
  imports Bounded Guarantees SampleRuns
begin

text \<open>
  When a login succeeds. \<open>good C d N k w\<close>: the database answers, the tables are \<open>d\<close>, there are \<open>k\<close>
  interactions left before number \<open>N\<close>, and until then random bytes and UUIDs are drawn that no
  stored token has. A step that does not write to the database uses up as many interactions as it
  is \<open>within\<close>.
\<close>

definition fresh_draws :: "crypto_lib \<Rightarrow> tables \<Rightarrow> env \<Rightarrow> nat \<Rightarrow> bool" where
  "fresh_draws C d E n \<longleftrightarrow> uuid_at E n \<notin> t_id ` set (tb_refresh d) \<and>
     (\<exists>f. rnd_at E n = Some f \<and> token_Hash C (hex_EncodeToString (map f [0..<32])) \<notin> t_hash ` set (tb_refresh d))"

definition good :: "crypto_lib \<Rightarrow> tables \<Rightarrow> nat \<Rightarrow> nat \<Rightarrow> 'r svc_world \<Rightarrow> bool" where
  "good C d N k w \<longleftrightarrow> healthy w \<and> w_pg w = d \<and> w_ticks w + k \<le> N \<and>
     (\<forall>n. w_ticks w \<le> n \<longrightarrow> n < N \<longrightarrow> fresh_draws C d (w_env w) n)"

lemma good_step:
  assumes "good C d N k w" "run_state m w = (x, w')" "within a m" "effect (pg_rel (=)) m" "a \<le> k"
  shows "good C d N (k - a) w'"
proof -
  have t: "took a w w'" by (rule withinD [OF assms(3,2)])
  have "w_pg w' = w_pg w" using effectD [OF assms(4,2)] by (simp add: pg_rel_def)
  with t assms(1,5) show ?thesis by (auto simp: good_def took_def healthy_def)
qed

lemma goodD:
  assumes "good C d N k w"
  shows "healthy w" "w_pg w = d"
  using assms by (simp_all add: good_def)

lemma good_draw:
  assumes "good C d N (Suc k) w"
  shows "uuid_at (w_env w) (w_ticks w) \<notin> t_id ` set (tb_refresh d)"
    "\<exists>f. rnd_at (w_env w) (w_ticks w) = Some f \<and> token_Hash C (hex_EncodeToString (map f [0..<32])) \<notin> t_hash ` set (tb_refresh d)"
  using assms by (auto simp: good_def fresh_draws_def)

text \<open>The statements of a login that cannot fail for a live account.\<close>

lemma profile_found:
  assumes "good C d N k w" "u \<in> set (tb_users d)" "u_deleted u = None"
  shows "\<exists>p. run_state (UserRepo_GetAuthProfile P (u_id u)) w = (Inr p, advance w)"
proof -
  have "u \<in> set (filter (live_id (u_id u)) (tb_users d))" using assms(2,3) by (simp add: live_id_def)
  then obtain v vs where "filter (live_id (u_id u)) (tb_users d) = v # vs"
    by (cases "filter (live_id (u_id u)) (tb_users d)") auto
  with goodD [OF assms(1)] show ?thesis
    by (simp add: UserRepo_GetAuthProfile_def run_pg_query_healthy)
qed

lemma user_found:
  assumes "good C d N k w" "schema_ok P d" "u \<in> set (tb_users d)" "by_email P email u" "text_ok P email"
  shows "run_state (UserRepo_GetByEmail P email) w = (Inr (row_user u), advance w)"
proof -
  let ?us = "filter (by_email P email) (tb_users d)"
  have "u \<in> set ?us" using assms(3,4) by simp
  then obtain v vs where v: "?us = v # vs" by (cases ?us) auto
  then have "v \<in> set ?us" by simp
  then have vin: "v \<in> set (live_users d)" "sql_LOWER P (u_email v) = sql_LOWER P (u_email u)"
    using assms(4) by (auto simp: by_email_def live_users_def)
  have uin: "u \<in> set (live_users d)" using assms(3,4) by (simp add: by_email_def live_users_def)
  have "distinct (map (\<lambda>u. sql_LOWER P (u_email u)) (live_users d))" by (rule schema_keys [OF assms(2)])
  from distinct_map_inj [OF this vin(1) uin vin(2)] v goodD [OF assms(1)] assms(5) show ?thesis
    by (simp add: UserRepo_GetByEmail_def UserRepo_scanOne_def run_pg_query_healthy)
qed

lemma refresh_saved:
  assumes "good C d N (Suc k) w" "rec_UserID rec \<in> user_ids d" "rec_TokenHash rec \<notin> t_hash ` set (tb_refresh d)"
    and "length (rec_TokenHash rec) \<le> 64"
  shows "\<exists>w'. run_state (RefreshRepo_Save rec) w = (Inr (), w')"
  using good_draw(1) [OF assms(1)] goodD [OF assms(1)] assms(2,3) varchar_le [OF assms(4)]
  by (simp add: RefreshRepo_Save_def run_pg_stmt_healthy insert_refresh_def)

lemma token_drawn:
  assumes "good C d N (Suc k) w"
  obtains t w' where "run_state (token_Random 32) w = (Inr t, w')" "token_Hash C t \<notin> t_hash ` set (tb_refresh d)"
proof -
  obtain f where f: "rnd_at (w_env w) (w_ticks w) = Some f"
    "token_Hash C (hex_EncodeToString (map f [0..<32])) \<notin> t_hash ` set (tb_refresh d)"
    using good_draw(2) [OF assms] by blast
  from f(1) have "run_state (token_Random 32) w = (Inr (hex_EncodeToString (map f [0..<32])), advance w)"
    by (simp add: token_Random_def run_simps)
  with f(2) show thesis using that by blast
qed

lemma access_issued:
  assumes "\<And>c. \<exists>tok. SignedString J ''HS256'' (jwts_secret s) c = Inr tok"
  obtains a e w' where "run_state (jwt_IssueAccess J V s i) w = (Inr (a, e), w')"
proof -
  let ?c = "access_claims V s i (w_clock (advance w)) (uuid_at (w_env w) (Suc (w_ticks w)))"
  obtain tok where "SignedString J ''HS256'' (jwts_secret s) ?c = Inr tok" using assms by blast
  with that show thesis by (simp add: jwt_IssueAccess_def run_simps)
qed

text \<open>One step of a program that goes on: its result, and what is left.\<close>

lemmas reads = preorder_eq_on [of "\<lambda>x. x"]

lemma issueTokens_succeeds:
  assumes "good (lib_C L) d N 8 w" "u \<in> set (tb_users d)" "u_deleted u = None"
    and "\<And>s ttl w. \<exists>w'. run_state (SessionStore_Save c (lib_V L) M s ttl) (w :: 'r svc_world) = (Inr (), w')"
    and "\<And>c. \<exists>tok. SignedString (lib_J L) ''HS256'' (jwt_AccessSecret (cfg_JWT cfg)) c = Inr tok"
    and "sha256_spec (lib_C L)"
  shows "\<exists>pair w'. run_state (issueTokens L (app_auth L P c M cfg) (u_id u) sid fid) w = (Inr pair, w')"
proof -
  have secret: "\<And>cl. \<exists>tok. SignedString (lib_J L) ''HS256'' (jwts_secret (jwt_NewService (cfg_JWT cfg))) cl = Inr tok"
    using assms(5) by (simp add: jwt_NewService_def)
  obtain p where p: "run_state (UserRepo_GetAuthProfile P (u_id u)) w = (Inr p, advance w)"
    using profile_found [OF assms(1-3)] by blast
  have g1: "good (lib_C L) d N (8 - 1) (advance w)"
    by (rule good_step [OF assms(1) p within_repos(5)]) (auto simp: UserRepo_GetAuthProfile_def intro!: keep_intros reads)
  define se where "se = \<lparr>sess_ID = sid, sess_UserID = u_id u, sess_Email = prof_Email p, sess_Roles = prof_Roles p,
    sess_Permissions = prof_Permissions p, sess_FamilyID = fid\<rparr>"
  obtain w2 where s: "run_state (SessionStore_Save c (lib_V L) M se (jwts_refreshTTL (jwt_NewService (cfg_JWT cfg)))) (advance w) = (Inr (), w2)"
    using assms(4) by blast
  have g2: "good (lib_C L) d N (7 - 1) w2"
    by (rule good_step [OF _ s within_stores(1)]) (use g1 in \<open>auto intro!: keep_intros reads\<close>)
  define i where "i = \<lparr>iss_UserID = u_id u, iss_Email = prof_Email p,
    iss_Role = (if prof_Roles p \<noteq> [] then hd (prof_Roles p) else defaultRole),
    iss_Permissions = prof_Permissions p, iss_SessionID = sid\<rparr>"
  obtain a e w3 where a: "run_state (jwt_IssueAccess (lib_J L) (lib_V L) (jwt_NewService (cfg_JWT cfg)) i) w2 = (Inr (a, e), w3)"
    by (rule access_issued [OF secret])
  have g3: "good (lib_C L) d N (6 - 2) w3"
    by (rule good_step [OF _ a within_tokens(3)]) (use g2 in \<open>auto intro!: keep_intros reads\<close>)
  then have g3': "good (lib_C L) d N (Suc 3) w3" by simp
  obtain t w4 where t: "run_state (token_Random 32) w3 = (Inr t, w4)" "token_Hash (lib_C L) t \<notin> t_hash ` set (tb_refresh d)"
    by (rule token_drawn [OF g3'])
  have g4: "good (lib_C L) d N (4 - 1) w4"
    by (rule good_step [OF _ t(1) within_tokens(1)]) (use g3 in \<open>auto intro!: keep_intros reads\<close>)
  obtain now w5 where n: "run_state time_Now w4 = (now, w5)" by fastforce
  have g5: "good (lib_C L) d N (3 - 1) w5"
    by (rule good_step [OF _ n within_world(1)]) (use g4 in \<open>auto intro!: keep_intros reads\<close>)
  then have g5': "good (lib_C L) d N (Suc 1) w5" by (simp add: numeral_2_eq_2)
  define rec where "rec = \<lparr>rec_ID = 0, rec_UserID = u_id u, rec_SessionID = sid,
    rec_TokenHash = token_Hash (lib_C L) t, rec_FamilyID = fid,
    rec_ExpiresAt = now + jwts_refreshTTL (jwt_NewService (cfg_JWT cfg))\<rparr>"
  obtain w6 where r: "run_state (RefreshRepo_Save rec) w5 = (Inr (), w6)"
    using refresh_saved [OF g5', of rec] assms(2) t(2) token_Hash_shape [OF assms(6), of t]
    by (auto simp: rec_def user_ids_def token_shape_def)
  obtain now2 w7 where "run_state time_Now w6 = (now2, w7)" by fastforce
  with p s a t(1) n r show ?thesis
    by (auto simp: issueTokens_def run_simps Let_def se_def i_def rec_def)
qed

lemma Login_succeeds:
  fixes w :: "'r svc_world"
  assumes "healthy w" "schema_ok P (w_pg w)" "requireInput (lib_T L) (lib_U L) (login_fields li) = Inr ()"
    and "u \<in> set (tb_users (w_pg w))" "by_email P (normEmail L (login_Email li)) u" "u_active u"
    and "password_Compare (lib_C L) (u_hash u) (login_Password li) = None"
    and "fst (run_state (Lockout_IsLocked c (normEmail L (login_Email li))) w) = Inr False"
    and "\<And>s ttl w. \<exists>w'. run_state (SessionStore_Save c (lib_V L) M s ttl) (w :: 'r svc_world) = (Inr (), w')"
    and "\<And>cl. \<exists>tok. SignedString (lib_J L) ''HS256'' (jwt_AccessSecret (cfg_JWT cfg)) cl = Inr tok"
    and "\<And>n. w_ticks w \<le> n \<Longrightarrow> n < w_ticks w + 13 \<Longrightarrow> fresh_draws (lib_C L) (w_pg w) (w_env w) n"
    and "sha256_spec (lib_C L)" "text_ok P (normEmail L (login_Email li))"
  shows "\<exists>pair w'. run_state (Login L (app_auth L P c M cfg) li ip ua) w = (Inr pair, w')"
proof -
  let ?e = "normEmail L (login_Email li)" and ?N = "w_ticks w + 13"
  have g0: "good (lib_C L) (w_pg w) ?N 13 w" using assms(1,11) by (simp add: good_def)
  obtain w1 where l: "run_state (Lockout_IsLocked c ?e) w = (Inr False, w1)"
    using assms(8) by (cases "run_state (Lockout_IsLocked c ?e) w") simp
  have g1: "good (lib_C L) (w_pg w) ?N (13 - 1) w1"
    by (rule good_step [OF g0 l within_stores(6)]) (auto intro!: keep_intros reads)
  have q: "run_state (UserRepo_GetByEmail P ?e) w1 = (Inr (row_user u), advance w1)"
    by (rule user_found [OF g1 assms(2,4,5,13)])
  have g2: "good (lib_C L) (w_pg w) ?N (12 - 1) (advance w1)"
    by (rule good_step [OF _ q within_repos(2)])
      (use g1 in \<open>auto simp: UserRepo_GetByEmail_def UserRepo_scanOne_def intro!: keep_intros reads\<close>)
  obtain r w3 where k: "run_state (Lockout_clear c ?e) (advance w1) = (r, w3)" by fastforce
  have g3: "good (lib_C L) (w_pg w) ?N (11 - 1) w3"
    by (rule good_step [OF _ k within_stores(8)]) (use g2 in \<open>auto intro!: keep_intros reads\<close>)
  obtain sid w4 where s: "run_state uuid_New w3 = (sid, w4)" by fastforce
  have g4: "good (lib_C L) (w_pg w) ?N (10 - 1) w4"
    by (rule good_step [OF _ s within_world(2)]) (use g3 in \<open>auto intro!: keep_intros reads\<close>)
  obtain fid w5 where f: "run_state uuid_New w4 = (fid, w5)" by fastforce
  have g5: "good (lib_C L) (w_pg w) ?N (9 - 1) w5"
    by (rule good_step [OF _ f within_world(2)]) (use g4 in \<open>auto intro!: keep_intros reads\<close>)
  have "u_deleted u = None" using assms(5) by (simp add: by_email_def)
  then obtain pair w6 where t: "run_state (issueTokens L (app_auth L P c M cfg) (u_id u) sid fid) w5 = (Inr pair, w6)"
    using issueTokens_succeeds [OF g5 [simplified] assms(4) _ assms(9,10,12)] by blast
  have "user_ID (row_user u) = u_id u" "user_IsActive (row_user u) = u_active u" "user_PasswordHash (row_user u) = u_hash u"
    by (simp_all add: row_user_def)
  with l q k s f t assms(3,6,7) show ?thesis
    by (simp add: Login_def require_input_def run_simps Let_def)
qed

end
