(* ===== verification/Spec2Isabelle.thy ===== *)
theory Spec2Isabelle
  imports Divergences RefreshSpec StartTheorems Liveness
begin

text \<open>
  \<^bold>\<open>A verification library for auth-service.\<close> The repository is an HTTP service in Go for accounts,
  logins and tokens: handlers and middleware (\<open>internal/delivery\<close>, \<open>internal/middleware\<close>,
  \<open>pkg/httputil\<close>) call the use cases (\<open>internal/usecase\<close>), which call repositories over Postgres
  (\<open>internal/repository/postgres\<close>), stores over Redis (\<open>internal/infrastructure/redis\<close>), a JWT
  service and a mailer; \<open>internal/app\<close> and \<open>cmd/api\<close> wire them and run the process. The theories
  follow that structure from the bottom up; every operation of every part is a definition that
  computes.

  \<^bold>\<open>The world.\<close> A call of Go that can fail is a state monad action over a \<^emph>\<open>world\<close> that returns
  \<open>Inl\<close> the error or \<open>Inr\<close> the result (type \<open>call\<close>). The world (\<open>World\<close>) has the Postgres tables, the
  Redis server, the outbox of sent mail, the clock, and a counter of interactions. What the
  outside decides is an oracle indexed by that counter, fixed but arbitrary: how much time passes,
  which random bytes and UUIDs are drawn, and whether a remote call succeeds, fails before it took
  effect, or fails after it took effect. So every theorem about an operation is about every pattern
  of failures, unless it says \<open>healthy\<close> (all later calls of Postgres and the mailer succeed).
  Times and durations are unbounded integers of nanoseconds, Go's \<open>int\<close> and Redis' counters are
  unbounded integers (none is near its bounds), UUIDs are 128-bit words, strings are lists of bytes
  with Go's decoding of UTF-8.

  \<^bold>\<open>Theories and sources.\<close>
  \<^item> \<open>Prelude\<close>: the error monad (\<open>or_return\<close> is an early return on error, \<open>ignoring\<close> a dropped error),
    \<open>effect R m\<close> (every run of \<open>m\<close> moves the state along the preorder \<open>R\<close>) with its rules in the
    collection \<open>keep_intros\<close>, running of programs in \<open>run_simps\<close>, lemmas on lists.
  \<^item> \<open>GoStrings\<close>, \<open>GoText\<close>, \<open>GoNet\<close>, \<open>GoJson\<close>: what the code uses of Go's standard library: UTF-8,
    \<open>strings\<close>, \<open>unicode\<close> (tables are parameters), \<open>hex\<close>, \<open>html\<close>, \<open>net.SplitHostPort\<close>, query strings,
    \<open>json.Marshal\<close>; with the round trips of encoders and decoders.
  \<^item> \<open>Domain\<close> (\<open>internal/domain\<close>), \<open>Uri\<close> (\<open>pkg/uri\<close>), \<open>Tokens\<close> (\<open>pkg/token\<close>, \<open>pkg/password\<close>), \<open>Jwt\<close>
    (\<open>infrastructure/jwt\<close>, \<open>infrastructure/resend\<close>), \<open>Validation\<close> (\<open>pkg/validate\<close> and the input DTOs),
    \<open>Config\<close> and \<open>Settings\<close> (\<open>internal/config\<close>: the sections with \<open>Validate\<close>, and \<open>Load\<close> with the locale
    \<open>viper_spec\<close>), \<open>Telemetry\<close> (\<open>pkg/logger\<close>, \<open>infrastructure/telemetry\<close>).
  \<^item> \<open>Tables\<close> (\<open>migrations/000001_init.up.sql\<close>), \<open>RefreshRepo\<close>, \<open>OneTimeRepo\<close> (with the audit log),
    \<open>UserRepo\<close> (\<open>repository/postgres\<close>): each SQL statement as a function on the tables. \<open>Seed\<close>
    (\<open>migrations/000002_seed\<close>): the roles and permissions a fresh database gets.
    \<open>RefreshRepo\<close> has the locale \<open>refresh_store\<close>, the contract the use cases rely on, and its
    interpretation.
  \<^item> \<open>RedisClient\<close>: the documented behaviour of the Redis commands as functions on a keyspace, the
    locale \<open>redis_server\<close> (a client that executes them, may fail before or after, and whose scripts
    are atomic), and its interpretation on an in-memory server. \<open>RedisStores\<close>, \<open>RedisContracts\<close>
    (\<open>infrastructure/redis/stores.go\<close>): the stores over any client, and the contracts of the rate
    limiter, the lockout and the blacklist as locales that \<open>redis_server\<close> gives (\<open>sublocale\<close>).
  \<^item> \<open>Usecase\<close> (\<open>internal/usecase\<close>): \<open>AuthService\<close> and its operations over the interfaces;
    \<open>Wiring\<close>: the service as \<open>app.go\<close> builds it (\<open>app_auth\<close>), and that each of its operations is a
    step of the schema (\<open>db_step\<close>) and moves time forward.
  \<^item> \<open>Httputil\<close>, \<open>Middleware\<close>, \<open>Handlers\<close>, \<open>Router\<close>: a handler maps a request to an action on the world
    and the response being written; the router is the composition of middlewares and handlers.
    \<open>Stack\<close> has what surrounds every handler, with panics: \<open>Recovery\<close>, \<open>Logging\<close> and \<open>Stack.Use\<close>.
  \<^item> \<open>App\<close> (\<open>internal/app\<close>, the constructors of the clients, \<open>cmd/api\<close>): the options of the clients and
    the server, which resources are opened and closed on every path, and the exit code.
  \<^item> \<open>Flows\<close>, \<open>System\<close>, \<open>Guarantees\<close>: what a successful run of each use case did; sequences of
    operations (\<open>runs\<close>, an inductive step relation over \<open>operation\<close>) with their invariants; the
    guarantees over such sequences. \<open>Bounded\<close>: how many interactions an operation takes;
    \<open>Liveness\<close>: when a login succeeds. \<open>RefreshSpec\<close>: the abstract token store, a map from digests to
    grants, and the refinement of the use cases. \<open>WellTyped\<close>: the form of the stored values.
  \<^item> \<open>Concurrent\<close>: requests served at the same time. \<open>interleaved s\<close> is the service \<open>s\<close> with other
    requests going on before each of its calls; the locales of \<open>RefreshRepo\<close> and \<open>Guarantees\<close> are
    interpreted on it again, so the refusals proved once for the interfaces hold under interleaving.
    With nobody else it is the service itself (\<open>mirror_perform\<close>).
  \<^item> \<open>Samples\<close>, \<open>SampleRuns\<close>, \<open>BusySamples\<close>, \<open>MemSamples\<close>: concrete parameters and runs, for the
    witnesses.
  \<^item> \<open>HttpTheorems\<close> (C17 to C22, C24, C27), \<open>StartTheorems\<close> (C23, C25, C26), \<open>EdgeTheorems\<close> (C34 to
    C40), this theory (the others): the properties, each with a witness at concrete values where it
    has hypotheses. \<open>Divergences\<close>: what modelling
    showed to differ from the comments or from what was meant.

  \<^bold>\<open>What is shown.\<close> Refresh tokens are single-use, also under interleaving with
  other requests, they rotate, and their reuse revokes the family (C1 to C3, as a refinement C28,
  C29). Logins need an unlocked active account and its password, failed ones lock it (C4, C16); access
  tokens are accepted exactly while genuine, running and not blacklisted (C5, C6, C30). One-time
  tokens work once, under interleaving too, and do what they are for (C7 to C10). Registration adds
  exactly one account, and there is one for an email however requests overlap (C12, C13); password
  reset requests do not tell whether the account exists (C11, C40). The schema is an invariant of
  overlapping operations (C14), and the stored tokens are digests (C37). Rate limits hold (C15) and
  fail closed (C20). A request to a protected route is decided by the global limit and the token as
  they are when it arrives (C17, C18); the cookie of a login is given exactly (C19); errors do not
  leak (C21);
  idempotent requests are replayed (C22); a panic is answered like any error (C24). The environment
  takes precedence over files and defaults, three documented variables are never read (C23, C25), and
  what the process leaves open is exact on every path (C26), and a validated configuration is safe
  to run with (C27). Every operation ends within a fixed number of
  interactions (C31), and a login with the right password succeeds when the remote calls do (C33).
  Among concurrent requests a one-time token is consumed once (C36). On a seeded database every new
  account may read its profile (C39). The other properties are about links, input, log values and
  mail.

  \<^bold>\<open>Parameters.\<close> Code outside the repository is a record of functions with a named specification
  where a theorem needs one: bcrypt and SHA-256 (\<open>crypto_lib\<close>, \<open>bcrypt_spec\<close>), UUIDs (\<open>uuid_lib\<close>),
  \<open>net/url\<close> parsing (\<open>url_lib\<close>), JWT (\<open>jwt_lib\<close>, \<open>jwt_spec\<close>), the built-in validator tags
  (\<open>validator_lib\<close>, \<open>validator_spec\<close>), Postgres' text functions (\<open>pg_lib\<close>), the Redis client (\<open>Client\<close>,
  \<open>redis_server\<close>), the JSON decoders (\<open>decoders\<close>), viper (\<open>viper_lib\<close>,
  \<open>viper_spec\<close>), zap (\<open>zap_lib\<close>), chi, CORS and Prometheus (\<open>stack_lib\<close>, \<open>web_lib\<close>), OpenTelemetry
  (\<open>otel_lib\<close>), and pgxpool, go-redis and \<open>net/http\<close> at start and shutdown (\<open>infra_lib\<close>).

  \<^bold>\<open>Bounds and fuel.\<close> There is no fuel: every loop of the code runs over a finite list or string and is
  a structural recursion (\<open>segments\<close>, the decoding of a string, has its termination proof).

  \<^bold>\<open>Not modelled.\<close> Contexts, whose cancellation shows as an error of the call, and
  the 3 s bound of the readiness checks, which shows as errors of the pings. Panics of the use cases:
  no modelled path panics, except a failing random source inside \<open>uuid.New\<close>, which is
  taken to succeed; the stack is proved for handlers that panic anywhere. Requests that overlap
  interleave at the calls of repositories, stores and mailer (\<open>Concurrent\<close>, for C1, C8,
  C13, C14; C36 interleaves single statements); the transaction of \<open>CreateWithRole\<close> and a
  store's call on Redis are one step, so the isolation levels of Postgres are not modelled. The other
  theorems are about operations served one after the other, whatever was served before. What
  \<open>main\<close> does last (\<open>log.Sync\<close>, the text on stderr), the time encoder and
  the caller option of the logger, \<open>RealIP\<close> (a parameter that may rewrite the address),
  the deployment files, and dropping the schema. Retries inside the Redis client are not modelled (a
  script sent twice counts twice, which makes a limit stricter), nor negative lifetimes, which the
  code never passes to \<open>SetNX\<close>. Rounding of seconds through \<open>float64\<close> is
  exact in the range the code uses.
\<close>

section \<open>Refresh tokens\<close>

text \<open>
  C1. A refresh token works once, also when requests are served at the same time. After a refresh
  with it returned a pair, every refresh that starts later is refused: whatever other requests did
  between the calls of the first, whatever is served in between, and whatever is served between the
  calls of the second, with any arguments and any failures of remote calls. (Two refreshes that
  overlap can both succeed, see \<open>concurrent_refreshes_both_succeed\<close> in \<open>Divergences\<close>.)
\<close>

theorem refresh_single_use_interleaved:
  fixes w :: "'r svc_world"
  assumes "schema_ok P (w_pg w)" "others_ok P fs"
    and "run_state (Refresh L (interleaved (app_auth L P c M cfg)) raw ip ua) (outside w fs) = (Inr pair, W1)"
    and "anything P (inside W1) w2" "others_ok P gs"
  shows "fst (run_state (Refresh L (interleaved (app_auth L P c M cfg)) raw ip' ua') (outside w2 gs)) = Inl ErrUnauthorized"
  by (rule interleaved_refresh_once [OF assms])

theorem refresh_single_use_interleaved_witness:
  "\<exists>pair W1 w2. run_state (Refresh (exL (ex_claims 3 107)) (interleaved (ex_auth (ex_claims 3 107))) ex_token [] [])
       (outside (ex_world 100 ex_tables) ex_others) = (Inr pair, W1) \<and>
     overlapped (exL (ex_claims 3 107)) ex_pg (ex_auth (ex_claims 3 107)) (inside W1) [OpWait, OpLogoutAll 1] w2 \<and>
     fst (run_state (Refresh (exL (ex_claims 3 107)) (interleaved (ex_auth (ex_claims 3 107))) ex_token [] [])
       (outside w2 ex_others)) = Inl ErrUnauthorized"
proof -
  let ?L = "exL (ex_claims 3 107)" and ?s = "ex_auth (ex_claims 3 107)"
  obtain pair W1 where r: "run_state (Refresh ?L (interleaved ?s) ex_token [] [])
     (outside (ex_world 100 ex_tables) ex_others) = (Inr pair, W1)" by (rule busy_okE [OF busy_refresh_run])
  obtain w2 where "runs ?L ?s (inside W1) [OpWait, OpLogoutAll 1] w2" using runs_exists by blast
  then have o: "overlapped ?L ex_pg ?s (inside W1) [OpWait, OpLogoutAll 1] w2" by (rule runs_overlapped)
  from refresh_single_use_interleaved [OF _ ex_others_ok r [unfolded ex_auth_def]
      overlapped_anything [OF o [unfolded ex_auth_def]] ex_others_ok] r o
  show ?thesis by (auto simp: ex_auth_def)
qed

text \<open>The same for operations that are served one after the other, over any sequence of them.\<close>

theorem refresh_token_single_use:
  assumes "schema_ok P (w_pg w)"
    and "run_state (Refresh L (app_auth L P c M cfg) raw ip ua) w = (Inr pair, w1)"
    and "runs L (app_auth L P c M cfg) w1 ops w2"
  shows "fst (run_state (Refresh L (app_auth L P c M cfg) raw ip' ua') w2) = Inl ErrUnauthorized"
proof -
  obtain rec w3 where "raw \<noteq> []" by (rule Refresh_Inr [OF assms(2)])
  moreover have "revoked_hash (token_Hash (lib_C L) raw) (w_pg w1)" by (rule Refresh_rotates [OF assms(2)])
  then have "revoked_hash (token_Hash (lib_C L) raw) (w_pg w2)"
    using runs_evolves [OF assms(3)] by (rule revoked_hash_evolves)
  moreover have "schema_ok P (w_pg w1)"
    using effectD [OF wired_db_step(3) assms(2)] assms(1) by (simp add: pg_rel_def db_step_def)
  then have "schema_ok P (w_pg w2)" using runs_schema [OF assms(3)] by blast
  ultimately show ?thesis by (intro Refresh_revoked)
qed

theorem refresh_token_single_use_witness:
  "\<exists>pair w1 w2. run_state (Refresh (exL (ex_claims 3 105)) (ex_auth (ex_claims 3 105)) ex_token [] [])
       (ex_world 100 ex_tables) = (Inr pair, w1) \<and>
     runs (exL (ex_claims 3 105)) (ex_auth (ex_claims 3 105)) w1 [OpWait, OpLogoutAll 1] w2 \<and>
     fst (run_state (Refresh (exL (ex_claims 3 105)) (ex_auth (ex_claims 3 105)) ex_token [] []) w2)
       = Inl ErrUnauthorized"
proof -
  obtain pair w1 where r: "run_state (Refresh (exL (ex_claims 3 105)) (ex_auth (ex_claims 3 105)) ex_token [] [])
     (ex_world 100 ex_tables) = (Inr pair, w1)" by (rule run_okE [OF ex_refresh_run])
  moreover obtain w2 where s: "runs (exL (ex_claims 3 105)) (ex_auth (ex_claims 3 105)) w1 [OpWait, OpLogoutAll 1] w2"
    using runs_exists by blast
  ultimately show ?thesis
    using refresh_token_single_use [OF _ r [unfolded ex_auth_def] s [unfolded ex_auth_def], of "[]" "[]"]
    by (auto simp: ex_auth_def)
qed

text \<open>
  C2. A successful refresh rotates the token. The presented token was stored, neither revoked nor
  expired; now it is revoked, and the pair that is returned carries a new token of 64 hexadecimal
  digits, stored live under its digest for the same user, the same session and the same family.
\<close>

theorem refresh_rotates_token:
  assumes "run_state (Refresh L (app_auth L P c M cfg) raw ip ua) w = (Inr pair, w')"
  shows "\<exists>old row. old \<in> set (tb_refresh (w_pg w)) \<and>
      live_at (w_clock (advance w)) (token_Hash (lib_C L) raw) old \<and>
      revoked_hash (token_Hash (lib_C L) raw) (w_pg w') \<and>
      row \<in> set (tb_refresh (w_pg w')) \<and>
      new_refresh_row L pair (t_user old) (t_session old) (t_family old) row \<and>
      token_Hash (lib_C L) (RefreshToken pair) \<notin> t_hash ` set (tb_refresh (w_pg w)) \<and>
      token_shape (RefreshToken pair)"
  by (rule Refresh_rotates [OF assms]) blast

theorem refresh_rotates_token_witness:
  "\<exists>pair w'. run_state (Refresh (exL (ex_claims 3 105)) (ex_auth (ex_claims 3 105)) ex_token [] [])
       (ex_world 100 ex_tables) = (Inr pair, w') \<and> token_shape (RefreshToken pair)"
proof -
  obtain pair w' where r: "run_state (Refresh (exL (ex_claims 3 105)) (ex_auth (ex_claims 3 105)) ex_token [] [])
     (ex_world 100 ex_tables) = (Inr pair, w')" by (rule run_okE [OF ex_refresh_run])
  with refresh_rotates_token [OF r [unfolded ex_auth_def]] show ?thesis by blast
qed

text \<open>
  C3. Reuse of a revoked refresh token is treated as theft: the request is refused, every token of
  the same family is revoked, and the tokens of other families are left as they were (when the
  database answers).
\<close>

theorem refresh_reuse_revokes_family:
  assumes "healthy w" "schema_ok P (w_pg w)" "raw \<noteq> []"
    and "r \<in> set (tb_refresh (w_pg w))" "t_hash r = token_Hash (lib_C L) raw" "t_revoked r \<noteq> None"
    and "run_state (Refresh L (app_auth L P c M cfg) raw ip ua) w = (res, w')"
  shows "res = Inl ErrUnauthorized \<and>
    (\<forall>x \<in> set (tb_refresh (w_pg w')). t_family x = t_family r \<longrightarrow> t_revoked x \<noteq> None) \<and>
    filter (\<lambda>x. t_family x \<noteq> t_family r) (tb_refresh (w_pg w')) =
      filter (\<lambda>x. t_family x \<noteq> t_family r) (tb_refresh (w_pg w))"
  using Refresh_reuse [OF assms] by blast

definition ex_stolen :: tables where
  "ex_stolen = ex_tables\<lparr>tb_refresh := [(ex_refresh ex_token)\<lparr>t_revoked := Some 0\<rparr>,
     (ex_refresh ''b'')\<lparr>t_id := 9\<rparr>]\<rparr>"

lemma ex_stolen_schema: "schema_ok ex_pg ex_stolen"
proof -
  have "sha256_Sum ex_crypto ex_token \<noteq> sha256_Sum ex_crypto ''b''"
    using hd_hash [of ex_token] hd_hash [of "''b''"] by (auto simp: ex_token_def)
  then have "token_Hash ex_crypto ex_token \<noteq> token_Hash ex_crypto ''b''" by (simp add: token_Hash_eq)
  then show ?thesis
    using ex_schema by (simp add: ex_stolen_def schema_ok_def live_users_def onetime_ok_def user_ids_def columns_ok_def)
qed

theorem refresh_reuse_revokes_family_witness:
  "\<exists>res w'. run_state (Refresh (exL (ex_claims 3 105)) (ex_auth (ex_claims 3 105)) ex_token [] [])
       (ex_world 100 ex_stolen) = (res, w') \<and> res = Inl ErrUnauthorized \<and>
     (\<forall>x \<in> set (tb_refresh (w_pg w')). t_family x = 4 \<longrightarrow> t_revoked x \<noteq> None)"
proof -
  let ?r = "(ex_refresh ex_token)\<lparr>t_revoked := Some 0\<rparr>"
  obtain res w' where r: "run_state (Refresh (exL (ex_claims 3 105)) (ex_auth (ex_claims 3 105)) ex_token [] [])
     (ex_world 100 ex_stolen) = (res, w')" by fastforce
  from refresh_reuse_revokes_family [OF _ _ _ _ _ _ r [unfolded ex_auth_def], of ?r] ex_stolen_schema r
  show ?thesis by (simp add: ex_stolen_def)
qed

section \<open>Login and access tokens\<close>

text \<open>The clock on both sides of the issuing of the tokens.\<close>

lemma login_times:
  fixes L P c M cfg
  defines "s \<equiv> app_auth L P c M cfg"
  assumes "run_state (Lockout_IsLocked c e) w = (a, w1)" "run_state (UserRepo_GetByEmail P e) w1 = (b, w2)"
    and "w3 = advance (advance (snd (run_state (Lockout_clear c e) w2)))"
    and "w' = snd (run_state (logAudit L s uid act ip ua m) w4)"
  shows "w_clock w \<le> w_clock w3" "w_clock w4 \<le> w_clock w'"
proof -
  have clear: "later w2 (snd (run_state (Lockout_clear c e) w2))"
    by (rule effectD [OF _ surjective_pairing]) (intro keep_intros)
  have "later w w1" by (rule effectD [OF _ assms(2)]) (intro keep_intros)
  moreover have "later w1 w2" by (rule effectD [OF _ assms(3)]) (intro keep_intros)
  moreover note clear
  ultimately have "w_clock w \<le> w_clock (snd (run_state (Lockout_clear c e) w2))" unfolding later_def by linarith
  also have "\<dots> \<le> w_clock w3" by (simp add: assms(4))
  finally show "w_clock w \<le> w_clock w3" .
  have "later w4 w'" unfolding assms(5) s_def
    by (rule effectD [OF _ surjective_pairing]) (intro keep_intros)
  then show "w_clock w4 \<le> w_clock w'" by (simp add: later_def)
qed

text \<open>
  C4. A login succeeds only for an account that is not locked, exists under the normalised email
  and is not deleted, is active, and whose stored hash matches the password. Both tokens that are
  returned belong to that account: the refresh token is stored for it, and the access token is the
  signature, under the configured secret, of claims that name it, the session of the refresh
  token, and the email, main role and permissions its profile has in the database.
\<close>

theorem login_needs_credentials:
  assumes "run_state (Login L (app_auth L P c M cfg) i ip ua) w = (Inr pair, w')"
  shows "(\<exists>w1. run_state (Lockout_IsLocked c (normEmail L (login_Email i))) w = (Inr False, w1)) \<and>
    (\<exists>u sid fid row p now jti. u \<in> set (tb_users (w_pg w)) \<and> by_email P (normEmail L (login_Email i)) u \<and>
      u_active u \<and> password_Compare (lib_C L) (u_hash u) (login_Password i) = None \<and>
      row \<in> set (tb_refresh (w_pg w')) \<and> new_refresh_row L pair (u_id u) sid fid row \<and>
      profile_of P (u_id u) (w_pg w) p \<and> w_clock w \<le> now \<and> now \<le> w_clock w' \<and>
      SignedString (lib_J L) ''HS256'' (jwt_AccessSecret (cfg_JWT cfg))
        (access_claims (lib_V L) (jwt_NewService (cfg_JWT cfg))
          \<lparr>iss_UserID = u_id u, iss_Email = prof_Email p, iss_Role = main_role p,
           iss_Permissions = prof_Permissions p, iss_SessionID = sid\<rparr> now jti) = Inr (AccessToken pair))"
proof (rule conjI)
  let ?e = "normEmail L (login_Email i)" and ?s = "app_auth L P c M cfg"
  obtain user sid fid w1 w2 w3 w4 where
    1: "run_state (Lockout_IsLocked c ?e) w = (Inr False, w1)" and
    2: "run_state (UserRepo_GetByEmail P ?e) w1 = (Inr user, w2)" and
    3: "user_IsActive user" "password_Compare (lib_C L) (user_PasswordHash user) (login_Password i) = None" and
    w3: "w3 = advance (advance (snd (run_state (Lockout_clear c ?e) w2)))" and
    4: "run_state (issueTokens L ?s (user_ID user) sid fid) w3 = (Inr pair, w4)" and
    5: "w' = snd (run_state (logAudit L ?s (Some (user_ID user)) ''auth.login'' ip ua None) w4)"
    by (rule Login_Inr [OF assms])
  show "\<exists>w1. run_state (Lockout_IsLocked c ?e) w = (Inr False, w1)" using 1 by blast
  have pg1: "w_pg w1 = w_pg w" by (rule pg_same [OF redis_store_pg(6) [OF preorder_eq] 1])
  with GetByEmail_Inr(2) [OF 2] obtain u where u: "u \<in> set (tb_users (w_pg w))" "by_email P ?e u" "user = row_user u"
    by auto
  have "w_pg (snd (run_state (Lockout_clear c ?e) w2)) = w_pg w2"
    by (rule pg_same [OF redis_store_pg(8) [OF preorder_eq] surjective_pairing])
  then have pg3: "w_pg w3 = w_pg w" using pg1 GetByEmail_Inr(1) [OF 2] by (simp add: w3)
  obtain p row now jti tsave where iss: "profile_of P (user_ID user) (w_pg w3) p"
    "w_pg w4 = (w_pg w3)\<lparr>tb_refresh := tb_refresh (w_pg w3) @ [row]\<rparr>"
    "new_refresh_row L pair (user_ID user) sid fid row" "w_clock w3 \<le> now" "now \<le> tsave" "tsave \<le> w_clock w4"
    "SignedString (lib_J L) ''HS256'' (jwt_AccessSecret (cfg_JWT cfg))
       (access_claims (lib_V L) (jwt_NewService (cfg_JWT cfg))
         \<lparr>iss_UserID = user_ID user, iss_Email = prof_Email p, iss_Role = main_role p,
          iss_Permissions = prof_Permissions p, iss_SessionID = sid\<rparr> now jti) = Inr (AccessToken pair)"
    by (rule issueTokens_Inr [OF 4])
  have time: "w_clock w \<le> now" "now \<le> w_clock w'" using login_times [OF 1 2 w3 5] iss(4-6) by linarith+
  show "\<exists>u sid fid row p now jti. u \<in> set (tb_users (w_pg w)) \<and> by_email P ?e u \<and>
      u_active u \<and> password_Compare (lib_C L) (u_hash u) (login_Password i) = None \<and>
      row \<in> set (tb_refresh (w_pg w')) \<and> new_refresh_row L pair (u_id u) sid fid row \<and>
      profile_of P (u_id u) (w_pg w) p \<and> w_clock w \<le> now \<and> now \<le> w_clock w' \<and>
      SignedString (lib_J L) ''HS256'' (jwt_AccessSecret (cfg_JWT cfg))
        (access_claims (lib_V L) (jwt_NewService (cfg_JWT cfg))
          \<lparr>iss_UserID = u_id u, iss_Email = prof_Email p, iss_Role = main_role p,
           iss_Permissions = prof_Permissions p, iss_SessionID = sid\<rparr> now jti) = Inr (AccessToken pair)"
    using u 3 iss(1-3,7) time
    by (intro exI [of _ u] exI [of _ sid] exI [of _ fid] exI [of _ row] exI [of _ p] exI [of _ now] exI [of _ jti])
      (simp add: 5 row_user_def pg3)
qed

theorem login_needs_credentials_witness:
  "\<exists>pair w'. run_state (Login (exL (ex_claims 103 108)) (ex_auth (ex_claims 103 108)) ex_login [] [])
       (ex_world 100 ex_tables) = (Inr pair, w') \<and>
     (\<exists>u sid fid row p. u \<in> set (tb_users ex_tables) \<and> u_active u \<and>
        row \<in> set (tb_refresh (w_pg w')) \<and> new_refresh_row (exL (ex_claims 103 108)) pair (u_id u) sid fid row \<and>
        profile_of ex_pg (u_id u) ex_tables p)"
proof -
  obtain pair w' where r: "run_state (Login (exL (ex_claims 103 108)) (ex_auth (ex_claims 103 108)) ex_login [] [])
       (ex_world 100 ex_tables) = (Inr pair, w')" by (rule run_okE [OF ex_login_run])
  from conjunct2 [OF login_needs_credentials [OF r [unfolded ex_auth_def]]] r show ?thesis
    by (elim exE conjE) (intro exI conjI, assumption, simp_all del: ex_tables_simps)
qed

text \<open>
  C5. An access token is accepted only if it carries an HS256 signature under the configured
  secret, names the configured issuer, has not expired, and its identifier is not on the
  blacklist. An error of Redis refuses the token as well. (The issuer is compared when one is
  configured, as it is by default; with an empty one the library skips the comparison.)
\<close>

theorem access_token_sound:
  assumes "jwt_spec (lib_J L)"
    and "run_state (ParseAccess L (app_auth L P c M cfg) tok) w = (Inr claims, w')"
  shows "genuine (lib_J L) ''HS256'' (jwt_AccessSecret (cfg_JWT cfg)) tok claims \<and>
    (jwt_Issuer (cfg_JWT cfg) \<noteq> [] \<longrightarrow> claim_Issuer claims = jwt_Issuer (cfg_JWT cfg)) \<and>
    (\<forall>e. claim_ExpiresAt claims = Some e \<longrightarrow> w_clock (advance w) < e) \<and>
    run_state (Blacklist_exists c (claim_ID claims)) (advance w) = (Inr False, w')"
proof -
  obtain w1 where 1: "run_state (jwt_ParseAccess (lib_J L) (jwt_NewService (cfg_JWT cfg)) tok) w = (Inr claims, w1)"
    and 2: "run_state (Blacklist_exists c (claim_ID claims)) w1 = (Inr False, w')"
    using assms(2) by (cases rule: ParseAccess_cases) auto
  note p = ParseAccess_Inr [OF assms(1) 1]
  show ?thesis using p 2 by (simp add: jwt_NewService_def)
qed

lemma ex_jwt_spec: "jwt_spec (ex_jwt key c0)"
  by (auto simp: jwt_spec_def ex_jwt_def split: if_splits option.splits)

lemma ex_parse_run: "run_ok (ParseAccess (exL (ex_claims 3 105)) (ex_auth (ex_claims 3 105)) ''token'')"
  unfolding run_ok_def by (simp add: ex_parse minute_def)

theorem access_token_sound_witness:
  "\<exists>claims w'. run_state (ParseAccess (exL (ex_claims 3 105)) (ex_auth (ex_claims 3 105)) ''token'')
       (ex_world 100 ex_tables) = (Inr claims, w') \<and> claim_Issuer claims = ''auth-service''"
proof -
  obtain claims w' where r: "run_state (ParseAccess (exL (ex_claims 3 105)) (ex_auth (ex_claims 3 105)) ''token'')
       (ex_world 100 ex_tables) = (Inr claims, w')" by (rule run_okE [OF ex_parse_run])
  have "jwt_spec (lib_J (exL (ex_claims 3 105)))" by (simp add: ex_jwt_spec)
  from access_token_sound [OF this r [unfolded ex_auth_def]] r show ?thesis
    by (auto simp: ex_config_def default_config_def)
qed

text \<open>
  C6. After a logout whose blacklist entry was written, the access token with that identifier is
  refused up to the last millisecond before it expires (Redis keeps expiry times in milliseconds,
  rounded down), whatever operations are served in between, further logouts of the same token
  included. Only a logout that names the same identifier with an earlier expiry would shorten the
  entry, and the handlers take both from the same token.
\<close>

theorem logged_out_token_refused:
  assumes "redis_server c view elapse" "w_wait w = elapse" "jti \<noteq> []" "w_clock (advance w) < exp"
    and "run_state (Blacklist_add c jti (exp - w_clock (advance w))) (advance w) = (Inr u, wb)"
    and "run_state (Logout L (app_auth L P c M cfg) uid sid jti exp raw ip ua) w = (r, w1)"
    and "runs L (app_auth L P c M cfg) w1 ops w2" "\<forall>op \<in> set ops. \<not> shortens jti exp op"
    and "\<And>claims w'. run_state (jwt_ParseAccess (lib_J L) (jwt_NewService (cfg_JWT cfg)) tok) w2 = (Inr claims, w')
      \<Longrightarrow> claim_ID claims = jti"
    and "run_state (ParseAccess L (app_auth L P c M cfg) tok) w2 = (res, w3)" "w_clock w3 \<le> exp - millis"
  shows "res = Inl ErrUnauthorized"
  by (rule redis_server.logged_out [OF assms])

theorem logged_out_token_refused_witness:
  "\<exists>w1 w2 res w3. run_state (Logout (exL (ex_claims 3 105)) (mem_auth (ex_claims 3 105)) 1 3 mem_jti hour [] [] [])
       (mem_world 100 ex_tables no_keys) = (Inr (), w1) \<and>
     runs (exL (ex_claims 3 105)) (mem_auth (ex_claims 3 105)) w1 [OpWait] w2 \<and>
     run_state (ParseAccess (exL (ex_claims 3 105)) (mem_auth (ex_claims 3 105)) ''token'') w2 = (res, w3) \<and>
     res = Inl ErrUnauthorized"
proof -
  let ?L = "exL (ex_claims 3 105)" and ?s = "mem_auth (ex_claims 3 105)" and ?w = "mem_world 100 ex_tables no_keys"
  obtain n d S where out: "run_state (Logout ?L ?s 1 3 mem_jti hour [] [] []) ?w = (Inr (), mem_world n d S)"
    using mem_logout_run by blast
  have wait: "runs ?L ?s (mem_world n d S) [OpWait] (mem_world (Suc n) d S)"
    using runs_first [OF _ runs.start, of ?L ?s OpWait "mem_world n d S" _ "mem_world (Suc n) d S"]
    by (simp add: finish_def run_time_Now)
  obtain res m S' where parse: "run_state (ParseAccess ?L ?s ''token'') (mem_world (Suc n) d S) = (res, mem_world m d S')"
    using mem_parse_run by blast
  obtain wb where add: "run_state (Blacklist_add mem_client mem_jti (hour - w_clock (advance ?w))) (advance ?w) = (Inr (), wb)"
    by (simp add: Blacklist_add_def mem_ops ks_set_def)
  have "res = Inl ErrUnauthorized"
    by (rule logged_out_token_refused [OF mem.redis_server_axioms _ _ _ add out [unfolded mem_auth_def]
          wait [unfolded mem_auth_def] _ mem_token_id parse [unfolded mem_auth_def]])
      (simp_all add: hour_def)
  with out wait parse show ?thesis by blast
qed

section \<open>One-time tokens\<close>

text \<open>
  C7. A successful password reset took an unused and unexpired token of some account, stored a
  bcrypt hash of the new password in that account, and used the token up. Every refresh token of
  the account is then revoked, or, since an error of that last statement is dropped, none was
  touched; when the database answers, they are revoked.
\<close>

theorem reset_password_effect:
  assumes "run_state (ResetPassword L (app_auth L P c M cfg) i) w = (Inr x, w')"
  shows "\<exists>uid hash n.
      (\<exists>r \<in> set (tb_resets (w_pg w)).
         usable (token_Hash (lib_C L) (in_Token (reset_TokenInput i))) (w_clock (advance w)) r \<and> o_user r = uid) \<and>
      used_hash (token_Hash (lib_C L) (in_Token (reset_TokenInput i))) (tb_resets (w_pg w')) \<and>
      bcrypt_Generate (lib_C L) n (reset_NewPassword i) (sec_BcryptCost (cfg_Security cfg)) = Inr hash \<and>
      (\<exists>u \<in> set (tb_users (w_pg w')). live_id uid u) \<and>
      (\<forall>u \<in> set (tb_users (w_pg w')). live_id uid u \<longrightarrow> u_hash u = hash) \<and>
      ((\<forall>r \<in> set (tb_refresh (w_pg w')). t_user r = uid \<longrightarrow> t_revoked r \<noteq> None) \<or>
       tb_refresh (w_pg w') = tb_refresh (w_pg w)) \<and>
      (healthy w \<longrightarrow> (\<forall>r \<in> set (tb_refresh (w_pg w')). t_user r = uid \<longrightarrow> t_revoked r \<noteq> None))"
  by (rule ResetPassword_done [OF assms]) blast

theorem reset_password_effect_witness:
  "\<exists>w'. run_state (ResetPassword (exL (ex_claims 3 105)) (ex_auth (ex_claims 3 105)) ex_reset) (ex_world 100 ex_tables)
       = (Inr (), w') \<and> used_hash (token_Hash ex_crypto ex_token) (tb_resets (w_pg w'))"
proof -
  obtain x w' where r: "run_state (ResetPassword (exL (ex_claims 3 105)) (ex_auth (ex_claims 3 105)) ex_reset)
      (ex_world 100 ex_tables) = (Inr x, w')"
    by (rule run_okE [OF ex_reset_run])
  with reset_password_effect [OF r [unfolded ex_auth_def]] show ?thesis by auto
qed

text \<open>
  C8. A password reset token works once, also when requests are served at the same time: after a
  reset returned success no later reset with the token succeeds, whatever other requests do between
  the calls of both and in between, and whatever fails.
\<close>

theorem reset_single_use_interleaved:
  fixes w :: "'r svc_world"
  assumes "schema_ok P (w_pg w)" "others_ok P fs"
    and "run_state (ResetPassword L (interleaved (app_auth L P c M cfg)) i) (outside w fs) = (Inr x, W1)"
    and "anything P (inside W1) w2" "others_ok P gs"
    and "in_Token (reset_TokenInput i') = in_Token (reset_TokenInput i)"
  shows "\<exists>e. fst (run_state (ResetPassword L (interleaved (app_auth L P c M cfg)) i') (outside w2 gs)) = Inl e"
  by (rule interleaved_reset_once [OF assms])

theorem reset_single_use_interleaved_witness:
  "\<exists>W1 e. run_state (ResetPassword (exL (ex_claims 3 107)) (interleaved (ex_auth (ex_claims 3 107))) ex_reset)
       (outside (ex_world 100 ex_tables) ex_others) = (Inr (), W1) \<and>
     fst (run_state (ResetPassword (exL (ex_claims 3 107)) (interleaved (ex_auth (ex_claims 3 107))) ex_reset)
       (outside (advance (inside W1)) ex_others)) = Inl e"
proof -
  let ?L = "exL (ex_claims 3 107)" and ?s = "ex_auth (ex_claims 3 107)"
  obtain x W1 where r: "run_state (ResetPassword ?L (interleaved ?s) ex_reset)
     (outside (ex_world 100 ex_tables) ex_others) = (Inr x, W1)" by (rule busy_okE [OF busy_reset_run])
  have "anything ex_pg (inside W1) (advance (inside W1))" by (intro r_into_rtranclp other_step.tick)
  from reset_single_use_interleaved [OF _ ex_others_ok r [unfolded ex_auth_def] this ex_others_ok refl] r
  show ?thesis by (auto simp: ex_auth_def)
qed

text \<open>The same for operations that are served one after the other.\<close>

theorem reset_token_single_use:
  assumes "schema_ok P (w_pg w)"
    and "run_state (ResetPassword L (app_auth L P c M cfg) i) w = (Inr x, w1)"
    and "runs L (app_auth L P c M cfg) w1 ops w2"
    and "in_Token (reset_TokenInput i') = in_Token (reset_TokenInput i)"
  shows "\<exists>e. fst (run_state (ResetPassword L (app_auth L P c M cfg) i') w2) = Inl e"
proof -
  have "used_hash (token_Hash (lib_C L) (in_Token (reset_TokenInput i))) (tb_resets (w_pg w1))"
    by (rule ResetPassword_done [OF assms(2)])
  moreover have "schema_ok P (w_pg w2)"
    using runs_schema [OF assms(3)] schema_after [OF wired_db_step(7) assms(2,1)] by blast
  ultimately show ?thesis using runs_used(1) [OF assms(3)] assms(4) by (intro ResetPassword_spent) simp_all
qed

theorem reset_token_single_use_witness:
  "\<exists>w1 w2 e. run_state (ResetPassword (exL (ex_claims 3 105)) (ex_auth (ex_claims 3 105)) ex_reset)
       (ex_world 100 ex_tables) = (Inr (), w1) \<and>
     runs (exL (ex_claims 3 105)) (ex_auth (ex_claims 3 105)) w1 [OpWait] w2 \<and>
     fst (run_state (ResetPassword (exL (ex_claims 3 105)) (ex_auth (ex_claims 3 105)) ex_reset) w2) = Inl e"
proof -
  obtain x w1 where r: "run_state (ResetPassword (exL (ex_claims 3 105)) (ex_auth (ex_claims 3 105)) ex_reset)
      (ex_world 100 ex_tables) = (Inr x, w1)" by (rule run_okE [OF ex_reset_run])
  obtain w2 where s: "runs (exL (ex_claims 3 105)) (ex_auth (ex_claims 3 105)) w1 [OpWait] w2"
    using runs_exists by blast
  from reset_token_single_use [OF _ r [unfolded ex_auth_def] s [unfolded ex_auth_def] refl] r s
  show ?thesis by (auto simp: ex_auth_def)
qed

text \<open>
  C9. A successful email verification took an unused and unexpired token, marks the account of
  that token verified and uses the token up; no later verification with it succeeds.
\<close>

theorem verify_email_effect:
  assumes "schema_ok P (w_pg w)"
    and "run_state (VerifyEmail L (app_auth L P c M cfg) i) w = (Inr x, w1)"
    and "runs L (app_auth L P c M cfg) w1 ops w2"
  shows "(\<exists>r \<in> set (tb_verify (w_pg w)). usable (token_Hash (lib_C L) (in_Token i)) (w_clock (advance w)) r \<and>
      (\<exists>u \<in> set (tb_users (w_pg w1)). live_id (o_user r) u) \<and>
      (\<forall>u \<in> set (tb_users (w_pg w1)). live_id (o_user r) u \<longrightarrow> u_verified u)) \<and>
    (\<exists>e. fst (run_state (VerifyEmail L (app_auth L P c M cfg) i) w2) = Inl e)"
proof (rule VerifyEmail_done [OF assms(2)])
  fix uid
  assume a: "\<exists>r \<in> set (tb_verify (w_pg w)). usable (token_Hash (lib_C L) (in_Token i)) (w_clock (advance w)) r \<and> o_user r = uid"
    and b: "used_hash (token_Hash (lib_C L) (in_Token i)) (tb_verify (w_pg w1))"
    and c: "\<exists>u \<in> set (tb_users (w_pg w1)). live_id uid u"
      "\<forall>u \<in> set (tb_users (w_pg w1)). live_id uid u \<longrightarrow> u_verified u"
  have "schema_ok P (w_pg w2)"
    using runs_schema [OF assms(3)] schema_after [OF wired_db_step(8) assms(2,1)] by blast
  then have "\<exists>e. fst (run_state (VerifyEmail L (app_auth L P c M cfg) i) w2) = Inl e"
    using runs_used(2) [OF assms(3) b] by (rule VerifyEmail_spent)
  with a c show ?thesis by blast
qed

theorem verify_email_effect_witness:
  "\<exists>w1. run_state (VerifyEmail (exL (ex_claims 3 105)) (ex_auth (ex_claims 3 105)) \<lparr>in_Token = ex_token\<rparr>)
       (ex_world 100 ex_tables) = (Inr (), w1) \<and> (\<exists>u \<in> set (tb_users (w_pg w1)). u_verified u)"
proof -
  obtain x w1 where r: "run_state (VerifyEmail (exL (ex_claims 3 105)) (ex_auth (ex_claims 3 105)) \<lparr>in_Token = ex_token\<rparr>)
      (ex_world 100 ex_tables) = (Inr x, w1)" by (rule run_okE [OF ex_verify_run])
  from verify_email_effect [OF _ r [unfolded ex_auth_def] runs.start] r show ?thesis by auto
qed

text \<open>
  C10. A valid link works: when the database answers, a password reset with a valid input (a new
  password of the accepted length) and an unused and unexpired token of an existing account
  succeeds, whatever Redis does, if bcrypt accepts the new password
  (its hashes, of 60 bytes, fit the column).
\<close>

theorem reset_password_succeeds:
  assumes "healthy w" "schema_ok P (w_pg w)" "requireInput (lib_T L) (lib_U L) (reset_fields i) = Inr ()"
    and "r \<in> set (tb_resets (w_pg w))"
    and "usable (token_Hash (lib_C L) (in_Token (reset_TokenInput i))) (w_clock (advance w)) r"
    and "u \<in> set (tb_users (w_pg w))" "live_id (o_user r) u"
    and "\<And>n. \<exists>h. bcrypt_Generate (lib_C L) n (reset_NewPassword i) (sec_BcryptCost (cfg_Security cfg)) = Inr h \<and> length h \<le> 255"
  shows "fst (run_state (ResetPassword L (app_auth L P c M cfg) i) w) = Inr ()"
  by (rule ResetPassword_succeeds [OF assms])

theorem reset_password_succeeds_witness:
  "fst (run_state (ResetPassword (exL (ex_claims 3 105)) (ex_auth (ex_claims 3 105)) ex_reset)
     (ex_world 100 ex_tables)) = Inr ()"
  unfolding ex_auth_def
  by (rule reset_password_succeeds [of "ex_world 100 ex_tables" ex_pg "exL (ex_claims 3 105)" ex_reset "ex_onetime ex_token" ex_user])
    (simp_all add: usable_def live_id_def)

section \<open>Accounts\<close>

text \<open>
  C11. What an unauthenticated client learns from a password reset request does not depend on the
  account: with a valid input the request succeeds, whether the account exists, the mail quota is
  used up, or the database, Redis or the mail service fails; and outside development the token is
  not part of the answer.
\<close>

theorem forgot_password_uniform:
  assumes "requireInput (lib_T L) (lib_U L) (forgot_fields i) = Inr ()" "\<not> ExposeDevTokens (svc_cfg s)"
  shows "fst (run_state (ForgotPassword L s i) w) = Inr []"
  using ForgotPassword_hidden [OF assms(2,1)] .

theorem forgot_password_uniform_witness:
  "fst (run_state (ForgotPassword (exL (ex_claims 3 105))
     (app_auth (exL (ex_claims 3 105)) ex_pg ex_client ex_dto ex_mailing) \<lparr>forgot_Email = ''a@b.c''\<rparr>)
     (ex_world 100 ex_tables)) = Inr []"
  by (rule forgot_password_uniform) simp_all

text \<open>
  C12. A successful registration adds exactly one account, active and not verified, under the
  lower-cased email with a bcrypt hash of the password, gives it the role \<open>user\<close> (as far as the
  roles table has it), and stores one verification token that expires 24 hours after it was
  issued; the token is returned only in development or when email is off.
\<close>

theorem register_effect:
  assumes "run_state (Register L (app_auth L P c M cfg) i ip ua) w = (Inr tok, w')"
  shows "\<exists>hash n row raw vrow now.
      bcrypt_Generate (lib_C L) n (reg_Password i) (sec_BcryptCost (cfg_Security cfg)) = Inr hash \<and>
      new_user_row P (normEmail L (reg_Email i)) hash row \<and> u_id row \<notin> user_ids (w_pg w) \<and>
      tb_users (w_pg w') = tb_users (w_pg w) @ [row] \<and>
      tb_user_roles (w_pg w') = tb_user_roles (w_pg w) @
        map (\<lambda>r. (u_id row, fst r)) (filter (\<lambda>r. snd r = ''user'') (tb_roles (w_pg w))) \<and>
      tb_verify (w_pg w') = tb_verify (w_pg w) @ [vrow] \<and> new_onetime_row L raw (u_id row) vrow \<and>
      o_expires vrow = now + 24 * hour \<and> w_clock w \<le> now \<and> now \<le> w_clock w' \<and>
      token_shape raw \<and> tok = (if ExposeDevTokens cfg then raw else [])"
  by (rule Register_done [OF assms, unfolded defaultRole_def]) blast

theorem register_effect_witness:
  "\<exists>tok w' row. run_state (Register (exL (ex_claims 3 105)) (ex_auth (ex_claims 3 105)) ex_register [] [])
       (ex_world 100 ex_tables) = (Inr tok, w') \<and> tb_users (w_pg w') = [ex_user, row] \<and> \<not> u_verified row"
proof -
  obtain tok w' where r: "run_state (Register (exL (ex_claims 3 105)) (ex_auth (ex_claims 3 105)) ex_register [] [])
       (ex_world 100 ex_tables) = (Inr tok, w')" by (rule run_okE [OF ex_register_run])
  from register_effect [OF r [unfolded ex_auth_def]] r show ?thesis by (auto simp: new_user_row_def)
qed

text \<open>
  C13. There is one account for an email, also when requests are served at the same time. When a
  registration returned success, no live account had the email before it started, exactly one has
  it when it returned, and every registration with the same normalised email that starts later
  fails, whatever other requests do between the calls of both and in between.
\<close>

theorem one_account_per_email:
  fixes w :: "'r svc_world"
  assumes "schema_ok P (w_pg w)" "others_ok P fs"
    and "run_state (Register L (interleaved (app_auth L P c M cfg)) i ip ua) (outside w fs) = (Inr tok, W1)"
  shows "(\<forall>u \<in> set (live_users (w_pg w)).
       sql_LOWER P (u_email u) \<noteq> sql_LOWER P (sql_LOWER P (normEmail L (reg_Email i)))) \<and>
    (\<exists>!u. u \<in> set (live_users (w_pg (inside W1))) \<and>
       sql_LOWER P (u_email u) = sql_LOWER P (sql_LOWER P (normEmail L (reg_Email i)))) \<and>
    (\<forall>w2 gs i' ip' ua'. anything P (inside W1) w2 \<and> others_ok P gs \<and> normEmail L (reg_Email i') = normEmail L (reg_Email i) \<longrightarrow>
       (\<exists>e. fst (run_state (Register L (interleaved (app_auth L P c M cfg)) i' ip' ua') (outside w2 gs)) = Inl e))"
  using interleaved_register_once [OF assms] unfolding taken_def live_users_def by auto

theorem one_account_per_email_witness:
  "\<exists>tok W1 e. run_state (Register (exL (ex_claims 3 105)) (interleaved (ex_auth (ex_claims 3 105))) ex_register [] [])
       (outside (ex_world 99 ex_tables) ex_others) = (Inr tok, W1) \<and>
     fst (run_state (Register (exL (ex_claims 3 105)) (interleaved (ex_auth (ex_claims 3 105))) ex_register [] [])
       (outside (inside W1) ex_others)) = Inl e"
proof -
  let ?L = "exL (ex_claims 3 105)" and ?s = "ex_auth (ex_claims 3 105)"
  obtain tok W1 where r: "run_state (Register ?L (interleaved ?s) ex_register [] [])
     (outside (ex_world 99 ex_tables) ex_others) = (Inr tok, W1)" by (rule busy_okE [OF busy_register_run])
  from one_account_per_email [OF _ ex_others_ok r [unfolded ex_auth_def]] ex_others_ok [of ex_pg] r
  show ?thesis by (auto simp: ex_auth_def)
qed

text \<open>
  Creating an account is atomic: whatever fails, either the tables are as they were and the
  caller gets an error, or the account and its role are both stored and the caller gets the
  account (or the error of a commit whose answer was lost).
\<close>

theorem create_with_role_atomic:
  assumes "run_state (UserRepo_CreateWithRole P email hash role) w = (res, w')"
  shows "(\<exists>e. res = Inl e \<and> w_pg w' = w_pg w) \<or>
    (\<exists>u. both_inserts P email hash role (w_pg w) u (w_pg w') \<and> (res = Inr u \<or> (\<exists>m. res = Inl (ErrOther m))))"
  by (rule CreateWithRole_cases [OF assms])

theorem create_with_role_atomic_witness:
  "\<exists>u. both_inserts ex_pg ''n@b.c'' ''$correct horse'' defaultRole ex_tables u
     (w_pg (snd (run_state (UserRepo_CreateWithRole ex_pg ''n@b.c'' ''$correct horse'' defaultRole) (ex_world 101 ex_tables))))"
  using create_with_role_atomic [OF ex_create] by (auto simp: ex_create)

text \<open>
  C14. The constraints of the schema are an invariant of the system, and its history is only ever
  extended: over any sequence of operations, each of them interleaved with any other requests, rows
  are never removed, revoked tokens stay revoked, used tokens stay used, and the clock does not go
  back.
\<close>

theorem schema_invariant:
  assumes "overlapped L P (app_auth L P c M cfg) w ops w'" "schema_ok P (w_pg w)"
  shows "schema_ok P (w_pg w') \<and> evolves (w_pg w) (w_pg w') \<and> later w w'"
  using overlapped_anything [OF assms(1)] anything_schema anything_evolves anything_later assms(2) by blast

theorem schema_invariant_witness:
  "\<exists>u W. overlapped (exL (ex_claims 3 107)) ex_pg (ex_auth (ex_claims 3 107)) (ex_world 100 ex_tables)
     [OpResetPassword ex_reset] (inside W) \<and>
     run_state (perform (exL (ex_claims 3 107)) (interleaved (ex_auth (ex_claims 3 107))) (OpResetPassword ex_reset))
       (outside (ex_world 100 ex_tables) ex_others) = (u, W) \<and> schema_ok ex_pg (w_pg (inside W))"
proof -
  let ?L = "exL (ex_claims 3 107)" and ?s = "ex_auth (ex_claims 3 107)"
  obtain u W where r: "run_state (perform ?L (interleaved ?s) (OpResetPassword ex_reset))
     (outside (ex_world 100 ex_tables) ex_others) = (u, W)" by (rule that [OF surjective_pairing])
  from overlapped.serve [OF overlapped.idle ex_others_ok r]
  have o: "overlapped ?L ex_pg ?s (ex_world 100 ex_tables) [OpResetPassword ex_reset] (inside W)" by simp
  from schema_invariant [OF o [unfolded ex_auth_def]] o r show ?thesis by auto
qed

text \<open>The same over runs in which the operations follow each other.\<close>

theorem runs_keep_schema:
  assumes "runs L (app_auth L P c M cfg) w ops w'" "schema_ok P (w_pg w)"
  shows "schema_ok P (w_pg w') \<and> evolves (w_pg w) (w_pg w') \<and> later w w'"
  using runs_schema [OF assms] runs_evolves [OF assms(1)] runs_later [OF assms(1)] by blast

theorem runs_keep_schema_witness:
  "\<exists>w'. runs (exL (ex_claims 3 105)) (ex_auth (ex_claims 3 105)) (ex_world 100 ex_tables)
     [OpResetPassword ex_reset, OpRegister ex_register [] [], OpLogoutAll 1] w' \<and> schema_ok ex_pg (w_pg w')"
proof -
  obtain w' where r: "runs (exL (ex_claims 3 105)) (ex_auth (ex_claims 3 105)) (ex_world 100 ex_tables)
     [OpResetPassword ex_reset, OpRegister ex_register [] [], OpLogoutAll 1] w'" using runs_exists by blast
  with runs_keep_schema [OF r [unfolded ex_auth_def]] show ?thesis by auto
qed

section \<open>Limits\<close>

text \<open>
  C15. The rate limiter keeps its promise: from the first call of a window on, at most the limit
  of calls is let through before the window ends, whatever other keys are used for in between and
  whichever calls fail, over any Redis server that behaves as documented.
\<close>

theorem rate_limit_respected:
  assumes "redis_server c view elapse" "w_wait w = elapse" "absent view w (keyRateLimit k)"
    and "run_state (RateLimiter_Allow c k n d) w = (Inr b, w1)"
    and "calls (RateLimiter_Allow c k n d) (redis_frame view elapse {keyRateLimit k}) w1 rs w2"
    and "w_clock w2 < w_clock w1 + script_secs d * nanos"
  shows "int (length (filter (\<lambda>r. r = Inr True) (Inr b # rs))) \<le> max 0 n"
  by (rule redis_server.rate_respected [OF assms])

theorem rate_limit_respected_witness:
  "\<exists>b w1 rs w2. run_state (RateLimiter_Allow mem_client ''k'' 1 minute) (mem_world 0 ex_tables no_keys) = (Inr b, w1) \<and>
     calls (RateLimiter_Allow mem_client ''k'' 1 minute) (redis_frame mem_keys mem_elapse {keyRateLimit ''k''}) w1 rs w2 \<and>
     length rs = 2 \<and> int (length (filter (\<lambda>r. r = Inr True) (Inr b # rs))) \<le> max 0 1"
proof -
  let ?m = "RateLimiter_Allow mem_client ''k'' 1 minute" and ?o = "redis_frame mem_keys mem_elapse {keyRateLimit ''k''}"
  let ?w = "\<lambda>j. mem_world (Suc j) ex_tables (ks_put (keyRateLimit ''k'') (Some (RCount (1 + int j), Some minute)) no_keys)"
  have first: "run_state ?m (mem_world 0 ex_tables no_keys) = (Inr True, ?w 0)"
    by (simp add: mem_allow mem_counter)
  have step: "run_state ?m (?w j) = (Inr False, ?w (Suc j))" for j
    by (simp add: mem_allow mem_counter add.commute)
  have more: "calls ?m ?o (?w 0) (([] @ [Inr False]) @ [Inr False]) (?w (Suc (Suc 0)))"
    by (rule calls.again [OF calls.again [OF calls.none _ step] _ step]; rule mem_frame_refl)
  from rate_limit_respected [OF mem.redis_server_axioms _ mem_unused first more]
  have "int (length (filter (\<lambda>r. r = Inr True) (Inr True # ([] @ [Inr False]) @ [Inr False]))) \<le> max 0 1"
    by (simp add: minute_def)
  with first more show ?thesis
    by (intro exI [of _ True] exI [of _ "?w 0"] exI [of _ "([] @ [Inr False]) @ [Inr False]"] exI [of _ "?w (Suc (Suc 0))"]) simp
qed

text \<open>
  C16. Failed logins lock the account. From the first recorded failure on, when the configured
  number of failures is recorded within the lockout period, then a login to that account is
  refused during the lockout duration, even with the right password; an error of Redis refuses it
  as well. (\<open>rs\<close> are the failures between the first and the last; what happens in between leaves
  the failure counter alone, so no successful login.)
\<close>

theorem failed_logins_lock_account:
  assumes "redis_server c view elapse" "w_wait w = elapse" "absent view w (keyLoginFail k)"
    and "run_state (Lockout_RecordFailure c k m d) w = (Inr u, w1)"
    and "calls (Lockout_RecordFailure c k m d) (redis_frame view elapse {keyLoginFail k}) w1 rs w2"
    and "\<forall>r \<in> set rs. \<exists>u. r = Inr u"
    and "redis_frame view elapse {keyLoginFail k} w2 w3"
    and "run_state (Lockout_RecordFailure c k m d) w3 = (Inr v, w4)"
    and "m \<le> 2 + int (length rs)" "0 < d" "w_clock w4 < w_clock w + script_secs d * nanos"
    and "redis_frame view elapse {keyLockout k} w4 w5"
    and "requireInput (lib_T L) (lib_U L) (login_fields i) = Inr ()" "normEmail L (login_Email i) = k"
    and "run_state (Lockout_IsLocked c k) w5 = (q, w6)" "w_clock w6 \<le> w_clock w4 + d - millis"
  shows "fst (run_state (Login L (app_auth L P c M cfg) i ip ua) w5) =
    (case q of Inl e \<Rightarrow> Inl e | Inr _ \<Rightarrow> Inl ErrAccountLocked)"
  by (rule redis_server.locked_out [OF assms])

theorem failed_logins_lock_account_witness:
  "\<exists>w1 w4. run_state (Lockout_RecordFailure mem_client ''a@b.c'' 2 minute) (mem_world 0 ex_tables no_keys) = (Inr (), w1) \<and>
     run_state (Lockout_RecordFailure mem_client ''a@b.c'' 2 minute) w1 = (Inr (), w4) \<and>
     fst (run_state (Login (exL (ex_claims 3 105)) (mem_auth (ex_claims 3 105)) ex_login [] []) w4) = Inl ErrAccountLocked"
proof -
  let ?k = "''a@b.c''" and ?L = "exL (ex_claims 3 105)"
  note first = mem_record(1) [of ?k 0 ex_tables]
  obtain n S where second: "run_state (Lockout_RecordFailure mem_client ?k 2 minute) (mem_world (Suc 0) ex_tables
      (ks_put (keyLoginFail ?k) (Some (RCount 1, Some minute)) no_keys)) = (Inr (), mem_world n ex_tables S)"
    using mem_record(2) by blast
  obtain b where "run_state (Lockout_IsLocked mem_client ?k) (mem_world n ex_tables S) = (Inr b, mem_world (Suc n) ex_tables S)"
    using mem_is_locked by blast
  then have "fst (run_state (Login ?L (mem_auth (ex_claims 3 105)) ex_login [] []) (mem_world n ex_tables S)) =
      (case Inr b of Inl e \<Rightarrow> Inl e | Inr _ \<Rightarrow> Inl ErrAccountLocked)"
    unfolding mem_auth_def
    by (intro failed_logins_lock_account [OF mem.redis_server_axioms _ mem_unused first calls.none _ mem_frame_refl second])
      (simp_all, simp_all add: minute_def)
  with first second show ?thesis by auto
qed

section \<open>Refinement of the abstract token store\<close>

text \<open>
  C28. Refresh implements its abstract specification. On the map from digests to grants that the
  table stands for, a successful refresh finds a live grant under the presented token, marks that
  entry dead, and adds the grant, with a new expiry, under the digest of the new token; no other
  entry changes.
\<close>

theorem refresh_refines_spec:
  assumes "schema_ok P (w_pg w)" "run_state (Refresh L (app_auth L P c M cfg) raw ip ua) w = (Inr pair, w')"
  shows "\<exists>g now. spec_live (w_clock (advance w)) (token_Hash (lib_C L) raw) (grants (w_pg w)) = Some g \<and>
    grants (w_pg w') = (spec_revoke (\<lambda>h _. h = token_Hash (lib_C L) raw) (grants (w_pg w)))
      (token_Hash (lib_C L) (RefreshToken pair) \<mapsto> g\<lparr>g_expires := now + jwt_RefreshTTL (cfg_JWT cfg)\<rparr>) \<and>
    w_clock w \<le> now \<and> now \<le> w_clock w'"
  by (rule Refresh_refines [OF assms])

theorem refresh_refines_spec_witness:
  "\<exists>pair w' g. run_state (Refresh (exL (ex_claims 3 105)) (ex_auth (ex_claims 3 105)) ex_token [] [])
       (ex_world 100 ex_tables) = (Inr pair, w') \<and>
     spec_live 0 (token_Hash ex_crypto ex_token) (grants ex_tables) = Some g"
proof -
  obtain pair w' where r: "run_state (Refresh (exL (ex_claims 3 105)) (ex_auth (ex_claims 3 105)) ex_token [] [])
     (ex_world 100 ex_tables) = (Inr pair, w')" by (rule run_okE [OF ex_refresh_run])
  with refresh_refines_spec [OF _ r [unfolded ex_auth_def]] show ?thesis by auto
qed

text \<open>
  C29. Logging out everywhere implements its abstract specification: when the database answers,
  exactly the grants of that user are marked dead. Whatever fails, success is reported, and all of
  these grants are dead or, only when the statement itself reported an error, none has changed.
\<close>

theorem logout_all_refines_spec:
  assumes "schema_ok P (w_pg w)" "run_state (LogoutAll L (app_auth L P c M cfg) uid) w = (r, w')"
  shows "r = Inr () \<and>
    (grants (w_pg w') = spec_revoke (\<lambda>_ g. g_user g = uid) (grants (w_pg w)) \<or>
     (\<exists>e. fst (run_state (RefreshRepo_RevokeAllForUser uid) w) = Inl e) \<and> grants (w_pg w') = grants (w_pg w)) \<and>
    (healthy w \<longrightarrow> grants (w_pg w') = spec_revoke (\<lambda>_ g. g_user g = uid) (grants (w_pg w)))"
  using LogoutAll_grants [OF assms] LogoutAll_refines [OF _ assms] by blast

theorem logout_all_refines_spec_witness:
  "grants (w_pg (snd (run_state (LogoutAll (exL (ex_claims 3 105)) (ex_auth (ex_claims 3 105)) 1) (ex_world 100 ex_tables))))
     = spec_revoke (\<lambda>_ g. g_user g = 1) (grants ex_tables)"
  unfolding ex_auth_def
  using logout_all_refines_spec [OF _ prod.collapse [symmetric], of ex_pg "ex_world 100 ex_tables"] by simp

section \<open>Issued tokens\<close>

text \<open>
  C30. Round trip of an access token. The access token of an issued pair is accepted again until
  the second in which it expires, as long as its identifier is not blacklisted, and yields the
  user, the session, and the email, main role and permissions the database had when it was issued.
  (The claims must be valid UTF-8, which JSON needs.)
\<close>

theorem issued_access_token_accepted:
  assumes "jwt_spec (lib_J L)" "run_state (issueTokens L (app_auth L P c M cfg) uid sid fid) w = (Inr pair, w')"
    and "\<And>p now jti. profile_of P uid (w_pg w) p \<Longrightarrow> claims_plain (access_claims (lib_V L) (jwt_NewService (cfg_JWT cfg))
      \<lparr>iss_UserID = uid, iss_Email = prof_Email p, iss_Role = main_role p, iss_Permissions = prof_Permissions p,
       iss_SessionID = sid\<rparr> now jti)"
  shows "\<exists>claims p now. profile_of P uid (w_pg w) p \<and> claim_UserID claims = uuid_String (lib_V L) uid \<and>
    claim_SessionID claims = uuid_String (lib_V L) sid \<and> claim_Email claims = prof_Email p \<and>
    claim_Role claims = main_role p \<and> claim_Permissions claims = prof_Permissions p \<and>
    w_clock w \<le> now \<and> now \<le> w_clock w' \<and>
    (\<forall>w2 w3. w_clock (advance w2) < NumericDate (now + jwt_AccessTTL (cfg_JWT cfg)) \<and>
       run_state (Blacklist_exists c (claim_ID claims)) (advance w2) = (Inr False, w3) \<longrightarrow>
       run_state (ParseAccess L (app_auth L P c M cfg) (AccessToken pair)) w2 = (Inr claims, w3))"
proof -
  let ?s = "jwt_NewService (cfg_JWT cfg)"
  let ?i = "\<lambda>p. \<lparr>iss_UserID = uid, iss_Email = prof_Email p, iss_Role = main_role p,
      iss_Permissions = prof_Permissions p, iss_SessionID = sid\<rparr>"
  obtain p now jti tsave where p: "profile_of P uid (w_pg w) p" and t: "w_clock w \<le> now" "now \<le> tsave" "tsave \<le> w_clock w'"
    and sign: "SignedString (lib_J L) ''HS256'' (jwt_AccessSecret (cfg_JWT cfg)) (access_claims (lib_V L) ?s (?i p) now jti)
      = Inr (AccessToken pair)"
    by (rule issueTokens_Inr [OF assms(2)])
  let ?c = "access_claims (lib_V L) ?s (?i p) now jti"
  have "run_state (ParseAccess L (app_auth L P c M cfg) (AccessToken pair)) w2 = (Inr ?c, w3)"
    if "w_clock (advance w2) < NumericDate (now + jwt_AccessTTL (cfg_JWT cfg))"
      "run_state (Blacklist_exists c (claim_ID ?c)) (advance w2) = (Inr False, w3)" for w2 w3
  proof -
    have "ParseWithClaims (lib_J L) (AccessToken pair) (keyfunc ?s) [''HS256''] (claim_Issuer ?c) (w_clock (advance w2)) = Inr (?c, True)"
      by (rule jwt_completeD [OF assms(1) sign assms(3) [OF p]])
        (use that(1) in \<open>simp_all add: keyfunc_def jwt_NewService_def access_claims_def\<close>)
    then have "run_state (jwt_ParseAccess (lib_J L) ?s (AccessToken pair)) w2 = (Inr ?c, advance w2)"
      by (simp add: jwt_ParseAccess_def run_simps access_claims_def)
    with that(2) show ?thesis by (simp add: ParseAccess_def run_ok)
  qed
  with p t show ?thesis
    by (intro exI [of _ ?c] exI [of _ p] exI [of _ now]) (auto simp: access_claims_def)
qed

lemma ex_issue_run: "run_ok (issueTokens (exL (ex_claims 3 103)) (ex_auth (ex_claims 3 103)) 1 3 4)"
  unfolding run_ok_def by (simp add: issueTokens_def ex_run)

lemma ex_ascii_utf8: "valid_utf8 (uuid_String ex_uuid u)" "valid_utf8 ''a@b.c''" "valid_utf8 ''user''"
  "valid_utf8 ''read_profile''" "valid_utf8 ''auth-service''" "valid_utf8 []"
  by (simp_all add: ex_uuid_def is_ascii_def valid_utf8_ascii)

lemma ex_plain:
  assumes "profile_of ex_pg 1 ex_tables p"
  shows "claims_plain (access_claims ex_uuid (jwt_NewService (cfg_JWT ex_config))
    \<lparr>iss_UserID = 1, iss_Email = prof_Email p, iss_Role = main_role p, iss_Permissions = prof_Permissions p,
     iss_SessionID = sid\<rparr> now jti)"
proof -
  have "p = \<lparr>prof_UserID = 1, prof_Email = ''a@b.c'', prof_Roles = [''user''], prof_Permissions = [''read_profile'']\<rparr>"
    using assms by (simp add: profile_of_def roles_of_def permissions_of_def)
  then show ?thesis
    by (auto simp: claims_plain_def access_claims_def main_role_def jwt_NewService_def ex_config_def
       default_config_def ex_ascii_utf8 NumericDate_def)
qed
lemma ex_issue_world: "\<exists>pair n d. run_state (issueTokens (exL (ex_claims 3 103)) (ex_auth (ex_claims 3 103)) 1 3 4)
    (ex_world 100 ex_tables) = (Inr pair, ex_world n d)"
  by (simp add: issueTokens_def ex_run) blast

lemma ex_blacklist: "run_state (Blacklist_exists ex_client k) (ex_world n d) = (Inr False, ex_world (Suc n) d)"
  by (simp add: ex_run)

lemma ex_lifetime: "0 < NumericDate (0 + jwt_AccessTTL (cfg_JWT ex_config))"
  by (simp add: ex_config_def default_config_def NumericDate_def minute_def)

theorem issued_access_token_accepted_witness:
  "\<exists>pair n d claims. run_state (issueTokens (exL (ex_claims 3 103)) (ex_auth (ex_claims 3 103)) 1 3 4)
       (ex_world 100 ex_tables) = (Inr pair, ex_world n d) \<and>
     run_state (ParseAccess (exL (ex_claims 3 103)) (ex_auth (ex_claims 3 103)) (AccessToken pair)) (ex_world n d)
       = (Inr claims, ex_world (Suc (Suc n)) d) \<and> claim_SessionID claims = ''xxx''"
proof -
  let ?L = "exL (ex_claims 3 103)" and ?s = "ex_auth (ex_claims 3 103)"
  obtain pair n d where r: "run_state (issueTokens ?L ?s 1 3 4) (ex_world 100 ex_tables) = (Inr pair, ex_world n d)"
    using ex_issue_world by blast
  have "jwt_spec (lib_J ?L)" by (simp add: ex_jwt_spec)
  note accepted = issued_access_token_accepted [OF this r [unfolded ex_auth_def], folded ex_auth_def,
      unfolded ex_world_simps ex_libs_simps, OF ex_plain]
  obtain claims now where c: "claim_SessionID claims = uuid_String ex_uuid 3" "0 \<le> now" "now \<le> 0"
    "\<forall>w2 w3. w_clock (advance w2) < NumericDate (now + jwt_AccessTTL (cfg_JWT ex_config)) \<and>
       run_state (Blacklist_exists ex_client (claim_ID claims)) (advance w2) = (Inr False, w3) \<longrightarrow>
       run_state (ParseAccess ?L ?s (AccessToken pair)) w2 = (Inr claims, w3)"
    by (rule accepted [THEN exE], assumption, elim exE conjE, rule that)
  have "now = 0" using c(2,3) by simp
  with c(4) have "run_state (ParseAccess ?L ?s (AccessToken pair)) (ex_world n d) = (Inr claims, ex_world (Suc (Suc n)) d)"
    using ex_lifetime by (auto simp only: ex_world_simps ex_blacklist)
  moreover have "uuid_String ex_uuid 3 = ''xxx''" by code_simp
  ultimately show ?thesis using r c(1) by (intro exI conjI) simp_all
qed

text \<open>
  The lifetime the client is told is right to the second: it is never more than the configured
  lifetime of an access token, and never less than that lifetime minus the time the request took.
\<close>

theorem expires_in_bounds:
  assumes "run_state (issueTokens L (app_auth L P c M cfg) uid sid fid) w = (Inr pair, w')"
  shows "whole_seconds (jwt_AccessTTL (cfg_JWT cfg) - (w_clock w' - w_clock w)) \<le> ExpiresIn pair \<and>
    ExpiresIn pair \<le> whole_seconds (jwt_AccessTTL (cfg_JWT cfg))"
proof -
  obtain now tsave where "ExpiresIn pair = whole_seconds (now + jwt_AccessTTL (cfg_JWT cfg) - w_clock w')"
    "w_clock w \<le> now" "now \<le> tsave" "tsave \<le> w_clock w'"
    by (rule issueTokens_Inr [OF assms])
  then show ?thesis by (auto intro!: whole_seconds_mono)
qed

theorem expires_in_bounds_witness:
  "\<exists>pair w'. run_state (issueTokens (exL (ex_claims 3 103)) (ex_auth (ex_claims 3 103)) 1 3 4)
       (ex_world 100 ex_tables) = (Inr pair, w') \<and> ExpiresIn pair \<le> 900"
proof -
  obtain pair w' where r: "run_state (issueTokens (exL (ex_claims 3 103)) (ex_auth (ex_claims 3 103)) 1 3 4)
     (ex_world 100 ex_tables) = (Inr pair, w')" by (rule run_okE [OF ex_issue_run])
  from expires_in_bounds [OF r [unfolded ex_auth_def]] r show ?thesis
    by (auto simp: ex_config_def default_config_def whole_seconds_def minute_def)
qed

text \<open>
  C32. The link in a mail leads back to the token: whenever a link is built, it is a URL with an
  HTTP scheme and a host, its \<open>token\<close> parameter decodes to exactly the token, and the other
  parameters of the configured base are unchanged.
\<close>

theorem action_link_carries_token:
  assumes "ActionLink W base tok = Inr l"
  shows "\<exists>u0 u. url_Parse W base = Some u0 \<and> l = url_String W u \<and> u = u0\<lparr>RawQuery := RawQuery u\<rparr> \<and>
    (Scheme u = ''http'' \<or> Scheme u = ''https'') \<and> Host u \<noteq> [] \<and> token_of_link u = Some tok \<and>
    (\<forall>k. k \<noteq> ''token'' \<longrightarrow> map_of (ParseQuery (RawQuery u)) k = map_of (ParseQuery (RawQuery u0)) k)"
  by (rule ActionLink_link [OF assms]) blast

theorem action_link_carries_token_witness:
  "\<exists>l u. ActionLink ex_url ''https://app/verify'' ''a b&c'' = Inr l \<and> l = url_String ex_url u \<and> token_of_link u = Some ''a b&c''"
proof -
  obtain l where l: "ActionLink ex_url ''https://app/verify'' ''a b&c'' = Inr l" using ex_link by blast
  from action_link_carries_token [OF l] l show ?thesis by blast
qed

text \<open>
  Every token the service draws passes its own input validation: 64 hexadecimal digits, which
  the tags of \<open>TokenInput\<close> accept.
\<close>

theorem drawn_tokens_validate:
  assumes "validator_spec T" "run_state (token_Random 32) w = (Inr tok, w')"
  shows "requireInput T U (token_fields \<lparr>in_Token = tok\<rparr>) = Inr ()"
  by (rule token_input_ok [OF assms(1) token_Random_shape [OF assms(2)]])

theorem drawn_tokens_validate_witness:
  "requireInput ex_validator latin1 (token_fields \<lparr>in_Token = ex_random 7\<rparr>) = Inr ()"
  by (rule drawn_tokens_validate [OF ex_validator_spec ex_random_run])

section \<open>Progress\<close>

text \<open>
  C31. Every operation ends. Any sequence of operations has a run, and every run of it is over
  after at most the sum of the bounds of its operations, 14 interactions with the outside world for
  a login, whatever these return; so when no interaction takes longer than \<open>d\<close>, it takes at most
  that many times \<open>d\<close>.
\<close>

theorem operations_end:
  assumes "\<And>i. int (delay_at (w_env w) i) \<le> d"
  shows "(\<exists>w'. runs L (app_auth L P c M cfg) w ops w') \<and>
    (\<forall>w'. runs L (app_auth L P c M cfg) w ops w' \<longrightarrow>
       w_ticks w' \<le> w_ticks w + sum_list (map op_bound ops) \<and>
       w_clock w' \<le> w_clock w + int (sum_list (map op_bound ops)) * d)"
  using runs_exists took_time [OF runs_took assms] runs_took by (fastforce simp: took_def)

theorem operations_end_witness:
  "\<exists>w'. runs (exL (ex_claims 3 105)) (ex_auth (ex_claims 3 105)) (ex_world 100 ex_tables)
     [OpLogin ex_login [] [], OpLogoutAll 1] w' \<and> w_ticks w' \<le> 118 \<and> w_clock w' \<le> 0"
proof -
  have d: "int (delay_at (w_env (ex_world 100 ex_tables)) i) \<le> 0" for i by simp
  note e = operations_end [OF d, of "exL (ex_claims 3 105)" ex_pg ex_client ex_dto ex_config
      "[OpLogin ex_login [] [], OpLogoutAll 1]", folded ex_auth_def]
  from e obtain w' where "runs (exL (ex_claims 3 105)) (ex_auth (ex_claims 3 105)) (ex_world 100 ex_tables)
     [OpLogin ex_login [] [], OpLogoutAll 1] w'" by blast
  with e show ?thesis by (intro exI [of _ w']) simp
qed

text \<open>
  C33. The right password lets its owner in: when the database answers, the session store and the
  signing work, the lockout says the account is open, and the random bytes and UUIDs drawn are
  fresh, a login to an active account with its password succeeds, whatever else Redis does (SHA-256
  gives 32 bytes, and the email is text that Postgres accepts).
\<close>

theorem login_succeeds:
  fixes w :: "'r svc_world"
  assumes "healthy w" "schema_ok P (w_pg w)" "requireInput (lib_T L) (lib_U L) (login_fields li) = Inr ()"
    and "u \<in> set (tb_users (w_pg w))" "by_email P (normEmail L (login_Email li)) u" "u_active u"
    and "password_Compare (lib_C L) (u_hash u) (login_Password li) = None"
    and "fst (run_state (Lockout_IsLocked c (normEmail L (login_Email li))) w) = Inr False"
    and "\<And>s ttl w. \<exists>w'. run_state (SessionStore_Save c (lib_V L) M s ttl) (w :: 'r svc_world) = (Inr (), w')"
    and "\<And>cl. \<exists>tok. SignedString (lib_J L) ''HS256'' (jwt_AccessSecret (cfg_JWT cfg)) cl = Inr tok"
    and "\<And>n. w_ticks w \<le> n \<Longrightarrow> n < w_ticks w + 13 \<Longrightarrow> fresh_draws (lib_C L) (w_pg w) (w_env w) n"
    and "sha256_spec (lib_C L)" "text_ok P (normEmail L (login_Email li))"
  shows "\<exists>pair w'. run_state (Login L (app_auth L P c M cfg) li ip ua) w = (Inr pair, w')"
  by (rule Login_succeeds [OF assms])

definition ex_signing_libs :: libs where
  "ex_signing_libs = (exL (ex_claims 3 105))\<lparr>lib_J := (ex_jwt ex_key (ex_claims 3 105))\<lparr>SignedString := \<lambda>_ _ _. Inr ''token''\<rparr>\<rparr>"

lemma ex_fresh_draws:
  assumes "100 \<le> n" "n < 113"
  shows "fresh_draws ex_crypto ex_tables ex_env n"
proof -
  have "unat (of_nat n :: uuid) = n" using assms by (simp add: unat_of_nat)
  then have "(of_nat n :: uuid) \<noteq> 2" using assms by auto
  moreover have "token_Hash ex_crypto (ex_random n) \<noteq> token_Hash ex_crypto ex_token"
    by (rule ex_random_fresh(1)) (use assms in simp_all)
  ultimately show ?thesis by (simp add: fresh_draws_def ex_random_def)
qed

theorem login_succeeds_witness:
  "\<exists>pair w'. run_state (Login ex_signing_libs (app_auth ex_signing_libs ex_pg ex_client ex_dto ex_config) ex_login [] [])
     (ex_world 100 ex_tables) = (Inr pair, w')"
proof (rule login_succeeds [of "ex_world 100 ex_tables" ex_pg ex_signing_libs ex_login ex_user])
  have libs: "lib_T ex_signing_libs = ex_validator" "lib_U ex_signing_libs = latin1" "lib_C ex_signing_libs = ex_crypto"
    "lib_V ex_signing_libs = ex_uuid"
    by (simp_all add: ex_signing_libs_def)
  have norm: "normEmail ex_signing_libs x = normEmail (exL (ex_claims 3 105)) x" for x
    by (simp add: normEmail_def libs)
  show "requireInput (lib_T ex_signing_libs) (lib_U ex_signing_libs) (login_fields ex_login) = Inr ()"
    by (simp add: libs)
  show "by_email ex_pg (normEmail ex_signing_libs (login_Email ex_login)) ex_user"
    by (simp add: norm by_email_def)
  show "password_Compare (lib_C ex_signing_libs) (u_hash ex_user) (login_Password ex_login) = None"
    by (simp add: libs password_Compare_def ex_compare)
  show "fst (run_state (Lockout_IsLocked ex_client (normEmail ex_signing_libs (login_Email ex_login))) (ex_world 100 ex_tables)) = Inr False"
    by (simp add: Lockout_IsLocked_def ex_run)
  show "\<exists>w'. run_state (SessionStore_Save ex_client (lib_V ex_signing_libs) ex_dto s ttl) w = (Inr (), w')"
    for s ttl and w :: "unit svc_world"
    by (simp add: SessionStore_Save_def ex_run)
  show "\<exists>tok. SignedString (lib_J ex_signing_libs) ''HS256'' (jwt_AccessSecret (cfg_JWT ex_config)) cl = Inr tok" for cl
    by (simp add: ex_signing_libs_def)
  show "fresh_draws (lib_C ex_signing_libs) (w_pg (ex_world 100 ex_tables)) (w_env (ex_world 100 ex_tables)) n"
    if "w_ticks (ex_world 100 ex_tables) \<le> n" "n < w_ticks (ex_world 100 ex_tables) + 13" for n
    using ex_fresh_draws [of n] that by (simp add: libs)
  show "sha256_spec (lib_C ex_signing_libs)" using ex_sha256_spec by (simp add: libs)
  show "text_ok ex_pg (normEmail ex_signing_libs (login_Email ex_login))" by (simp add: norm)
qed simp_all

end
